(* ===== verification/Prelude.thy ===== *)
theory Prelude
  imports Main "HOL-Library.Word" "HOL-Library.AList" "HOL-Library.List_Lexorder"
    "HOL-Library.Char_ord"
begin

text \<open>
  The shared vocabulary of the development: Go error values and what \<open>errors.Is\<close> sees of
  them, the result of a stateful Go function, the combinators that sequence such functions,
  frame conditions, and the part of Go's \<open>strings\<close>, \<open>strconv\<close> and integer arithmetic that the
  components use. Go strings and byte slices are \<open>string\<close> (a list of bytes).
\<close>

named_theorems io_simps \<open>unfolding rules of the combinators and system calls\<close>
named_theorems frame_rules \<open>composition rules for frame conditions\<close>

section \<open>Go errors\<close>

text \<open>
  The operating system's error numbers that the code distinguishes, the sentinel errors the
  packages export (or compare against), and error values: a sentinel, an \<open>*os.PathError\<close>, an
  error made by \<open>fmt.Errorf\<close> with \<open>%v\<close> (which forgets what it wraps), one made with \<open>%w\<close>
  (which keeps it), and \<open>errors.Join\<close>.
\<close>

datatype errno = ENOENT | ENOTDIR | EISDIR | EEXIST | ENOTEMPTY | EACCES | EIO

datatype sentinel =
    ErrConsentFileNotFound
  | ErrInvalidReportExt | ErrInvalidReportName
  | ErrReportNotMature | ErrSendFailure
  | ErrDuplicateReport | ErrSanitizeError | ErrSourceMetricsError
  | ErrContextCanceled
  | ErrDatabaseErrors | ErrNoValidData | ErrUnexpectedFields | ErrUploadFailed

datatype go_error =
    Sentinel sentinel
  | PathError errno
  | Errorf string
  | ErrorfW string go_error
  | Joined "go_error list"

text \<open>\<open>errors.Is(err, target)\<close> for a sentinel target, and for \<open>os.ErrNotExist\<close> through
  \<open>errors.As(err, *os.PathError)\<close>, which takes the first path error of the tree.\<close>

fun errors_is :: "go_error \<Rightarrow> sentinel \<Rightarrow> bool" where
  "errors_is (Sentinel s) t = (s = t)"
| "errors_is (PathError _) t = False"
| "errors_is (Errorf _) t = False"
| "errors_is (ErrorfW _ e) t = errors_is e t"
| "errors_is (Joined es) t = list_ex (\<lambda>e. errors_is e t) es"

fun as_path_error :: "go_error \<Rightarrow> errno option" where
  "as_path_error (PathError n) = Some n"
| "as_path_error (ErrorfW _ e) = as_path_error e"
| "as_path_error (Joined es) =
     (case filter (\<lambda>x. x \<noteq> None) (map as_path_error es) of [] \<Rightarrow> None | x # _ \<Rightarrow> x)"
| "as_path_error _ = None"

text \<open>\<open>os.IsNotExist\<close> looks at the error itself and not at what it wraps.\<close>

definition os_is_not_exist :: "go_error \<Rightarrow> bool" where
  "os_is_not_exist e = (e = PathError ENOENT)"

text \<open>\<open>errors.Join\<close> of possibly nil errors: nil when all are nil.\<close>

definition errors_join :: "go_error option list \<Rightarrow> go_error option" where
  "errors_join es =
     (case concat (map (\<lambda>e. case e of None \<Rightarrow> [] | Some x \<Rightarrow> [x]) es) of
        [] \<Rightarrow> None
      | xs \<Rightarrow> Some (Joined xs))"

definition errors_is_opt :: "go_error option \<Rightarrow> sentinel \<Rightarrow> bool" where
  "errors_is_opt e t = (case e of None \<Rightarrow> False | Some x \<Rightarrow> errors_is x t)"

lemma errors_is_opt_simps [simp]:
  "errors_is_opt None t = False"
  "errors_is_opt (Some e) t = errors_is e t"
  by (simp_all add: errors_is_opt_def)

lemma errors_join_Nil [simp]: "errors_join [] = None"
  by (simp add: errors_join_def)

lemma errors_join_None_Cons [simp]: "errors_join (None # es) = errors_join es"
  by (simp add: errors_join_def)

lemma errors_join_Some_Cons [simp]: "errors_join (Some e # es) \<noteq> None"
  by (simp add: errors_join_def)

lemma errors_join_eq_None [simp]: "errors_join es = None \<longleftrightarrow> (\<forall>e\<in>set es. e = None)"
proof (induction es)
  case (Cons e es)
  then show ?case by (cases e) simp_all
qed simp

lemma errors_is_join:
  "errors_is_opt (errors_join es) t \<longleftrightarrow> (\<exists>e\<in>set es. errors_is_opt e t)"
  by (induction es)
    (auto simp: errors_join_def errors_is_opt_def list_ex_iff
      split: option.splits list.splits)

section \<open>Results of stateful functions\<close>

text \<open>
  A Go function that works on a state and returns \<open>(value, error)\<close> is a function from the
  state to the outcome and the new state: \<open>Inl e\<close> for an error, \<open>Inr x\<close> for a value.
\<close>

type_synonym ('s, 'a) io = "'s \<Rightarrow> (go_error + 'a) \<times> 's"

definition ret :: "'a \<Rightarrow> ('s, 'a) io" where
  "ret x = (\<lambda>w. (Inr x, w))"

definition throw :: "go_error \<Rightarrow> ('s, 'a) io" where
  "throw e = (\<lambda>w. (Inl e, w))"

text \<open>\<open>x, err := m(); if err != nil \<lbrace> return err \<rbrace>; k(x)\<close>.\<close>

definition bindE :: "('s, 'a) io \<Rightarrow> ('a \<Rightarrow> ('s, 'b) io) \<Rightarrow> ('s, 'b) io" where
  "bindE m k = (\<lambda>w. case m w of (Inl e, w') \<Rightarrow> (Inl e, w') | (Inr x, w') \<Rightarrow> k x w')"

text \<open>\<open>x, err := m(); k(x, err)\<close>: the caller looks at the outcome itself.\<close>

definition attempt :: "('s, 'a) io \<Rightarrow> (go_error + 'a \<Rightarrow> ('s, 'b) io) \<Rightarrow> ('s, 'b) io" where
  "attempt m k = (\<lambda>w. case m w of (r, w') \<Rightarrow> k r w')"

text \<open>\<open>if err != nil \<lbrace> return f(err) \<rbrace>\<close>: decorate the error.\<close>

definition on_error :: "(go_error \<Rightarrow> go_error) \<Rightarrow> ('s, 'a) io \<Rightarrow> ('s, 'a) io" where
  "on_error f m = (\<lambda>w. case m w of (Inl e, w') \<Rightarrow> (Inl (f e), w') | (Inr x, w') \<Rightarrow> (Inr x, w'))"

text \<open>A loop over a slice whose body may return early with an error.\<close>

fun for_each :: "('a \<Rightarrow> ('s, unit) io) \<Rightarrow> 'a list \<Rightarrow> ('s, unit) io" where
  "for_each f [] = ret ()"
| "for_each f (x # xs) = bindE (f x) (\<lambda>_. for_each f xs)"

text \<open>A loop whose body collects errors (as values) and never stops early.\<close>

fun collect_errors :: "('a \<Rightarrow> ('s, go_error option) io) \<Rightarrow> 'a list \<Rightarrow> ('s, go_error option list) io" where
  "collect_errors f [] = ret []"
| "collect_errors f (x # xs) =
     bindE (f x) (\<lambda>e. bindE (collect_errors f xs) (\<lambda>es. ret (e # es)))"

lemma ret_apply [simp]: "ret x w = (Inr x, w)"
  by (simp add: ret_def)

lemma throw_apply [simp]: "throw e w = (Inl e, w)"
  by (simp add: throw_def)

lemma bindE_apply [io_simps]:
  "bindE m k w = (case m w of (Inl e, w') \<Rightarrow> (Inl e, w') | (Inr x, w') \<Rightarrow> k x w')"
  by (simp add: bindE_def)

lemma attempt_apply [io_simps]: "attempt m k w = (case m w of (r, w') \<Rightarrow> k r w')"
  by (simp add: attempt_def)

lemma on_error_apply [io_simps]:
  "on_error f m w = (case m w of (Inl e, w') \<Rightarrow> (Inl (f e), w') | (Inr x, w') \<Rightarrow> (Inr x, w'))"
  by (simp add: on_error_def)

text \<open>Stepwise evaluation: once the outcome of the first call is known, go on with the rest.\<close>

lemma bindE_Inr: "m w = (Inr x, w') \<Longrightarrow> bindE m k w = k x w'"
  by (simp add: bindE_def)

lemma bindE_Inl: "m w = (Inl e, w') \<Longrightarrow> bindE m k w = (Inl e, w')"
  by (simp add: bindE_def)

lemma attempt_eq: "m w = (r, w') \<Longrightarrow> attempt m k w = k r w'"
  by (simp add: attempt_def)

lemma on_error_Inr: "m w = (Inr x, w') \<Longrightarrow> on_error f m w = (Inr x, w')"
  by (simp add: on_error_def)

lemma on_error_Inl: "m w = (Inl e, w') \<Longrightarrow> on_error f m w = (Inl (f e), w')"
  by (simp add: on_error_def)

lemmas io_step = bindE_Inr bindE_Inl attempt_eq on_error_Inr on_error_Inl

lemma bindE_eq_Inr:
  "bindE m k w = (Inr y, w2) \<longleftrightarrow> (\<exists>x w1. m w = (Inr x, w1) \<and> k x w1 = (Inr y, w2))"
  by (auto simp: bindE_def split: prod.splits sum.splits)

lemma on_error_eq_Inr: "on_error f m w = (Inr y, w2) \<longleftrightarrow> m w = (Inr y, w2)"
  by (auto simp: on_error_def split: prod.splits sum.splits)

section \<open>Frame conditions\<close>

text \<open>
  \<open>framed R m\<close>: whatever \<open>m\<close> does, and whatever error it ends with, the state after it is
  related by \<open>R\<close> to the state before. For a preorder \<open>R\<close> the condition composes.
\<close>

definition framed :: "('s \<Rightarrow> 's \<Rightarrow> bool) \<Rightarrow> ('s, 'a) io \<Rightarrow> bool" where
  "framed R m = (\<forall>w. R w (snd (m w)))"

locale effect_frame =
  fixes R :: "'s \<Rightarrow> 's \<Rightarrow> bool"
  assumes R_refl: "R w w"
    and R_trans: "R w1 w2 \<Longrightarrow> R w2 w3 \<Longrightarrow> R w1 w3"
begin

lemma framed_ret: "framed R (ret x)"
  by (simp add: framed_def R_refl)

lemma framed_throw: "framed R (throw e)"
  by (simp add: framed_def R_refl)

lemma framed_bindE:
  assumes "framed R m" and "\<And>x. framed R (k x)"
  shows "framed R (bindE m k)"
  unfolding framed_def
proof
  fix w
  from assms(1) have "R w (snd (m w))" by (simp add: framed_def)
  moreover have "R w' (snd (k x w'))" for x w'
    using assms(2) by (simp add: framed_def)
  ultimately show "R w (snd (bindE m k w))"
    by (auto simp: bindE_def split: prod.splits sum.splits intro: R_trans)
qed

lemma framed_attempt:
  assumes "framed R m" and "\<And>r. framed R (k r)"
  shows "framed R (attempt m k)"
  unfolding framed_def
proof
  fix w
  from assms(1) have "R w (snd (m w))" by (simp add: framed_def)
  moreover have "R w' (snd (k x w'))" for x w'
    using assms(2) by (simp add: framed_def)
  ultimately show "R w (snd (attempt m k w))"
    by (auto simp: attempt_def split: prod.splits intro: R_trans)
qed

lemma framed_on_error: "framed R m \<Longrightarrow> framed R (on_error f m)"
  by (auto simp: framed_def on_error_def split: prod.splits sum.splits)
     (metis snd_conv)+

lemma framed_for_each:
  "(\<And>x. x \<in> set xs \<Longrightarrow> framed R (f x)) \<Longrightarrow> framed R (for_each f xs)"
  by (induction xs) (auto intro: framed_ret framed_bindE)

lemma framed_collect_errors:
  "(\<And>x. x \<in> set xs \<Longrightarrow> framed R (f x)) \<Longrightarrow> framed R (collect_errors f xs)"
  by (induction xs) (auto intro!: framed_ret framed_bindE)

lemma framed_elim: "framed R m \<Longrightarrow> m w = (r, w') \<Longrightarrow> R w w'"
  by (metis framed_def snd_conv)

end

section \<open>Generic list facts\<close>

lemma find_SomeD: "find P xs = Some x \<Longrightarrow> P x \<and> x \<in> set xs"
  by (induction xs) (auto split: if_splits)

lemma fold_max_ge: "x \<in> set xs \<or> x \<le> a \<Longrightarrow> x \<le> fold max xs (a :: nat)"
proof (induction xs arbitrary: a)
  case (Cons y ys)
  then show ?case by (cases "x = y") (auto simp: le_max_iff_disj)
qed simp

lemma fold_max_le: "x \<in> set xs \<Longrightarrow> x \<le> fold max xs (a :: nat)"
  by (simp add: fold_max_ge)

lemma take_neq_snoc [simp]: "take i xs \<noteq> xs @ [x]"
proof
  assume "take i xs = xs @ [x]"
  then have "length (take i xs) = Suc (length xs)" by simp
  then show False by simp
qed

end
