(* ===== verification/Go_Path.thy ===== *)
theory Go_Path
  imports Go_Strings
begin

text \<open>
  Go's \<open>path/filepath\<close> on Unix: \<open>Clean\<close>, \<open>Join\<close>, \<open>Base\<close>, \<open>Ext\<close>, \<open>Dir\<close>, and the file-system
  location a path string denotes. A location is the list of components of the cleaned path,
  with the component \<open>''/''\<close> first when the path is rooted. The lemmas say how a plain file
  name joined to a directory is read back.
\<close>

type_synonym fpath = "string list"

abbreviation slash :: char where "slash \<equiv> CHR ''/''"

section \<open>Clean and Join\<close>

text \<open>The stack algorithm of \<open>Clean\<close>: drop empty and \<open>.\<close> elements, let \<open>..\<close> remove the
  element before it, keep leading \<open>..\<close> of a relative path, drop it for a rooted one. The
  stack is kept in reverse.\<close>

fun norm_comps :: "bool \<Rightarrow> string list \<Rightarrow> string list \<Rightarrow> string list" where
  "norm_comps rooted st [] = rev st"
| "norm_comps rooted st (c # cs) =
     (if c = [] \<or> c = ''.'' then norm_comps rooted st cs
      else if c = ''..'' then
        (case st of
           [] \<Rightarrow> norm_comps rooted (if rooted then [] else [''..'']) cs
         | t # ts \<Rightarrow> if t = ''..'' then norm_comps rooted (''..'' # st) cs
                    else norm_comps rooted ts cs)
      else norm_comps rooted (c # st) cs)"

definition is_rooted :: "string \<Rightarrow> bool" where
  "is_rooted p = (case p of [] \<Rightarrow> False | c # _ \<Rightarrow> c = slash)"

definition clean_comps :: "string \<Rightarrow> string list" where
  "clean_comps p = norm_comps (is_rooted p) [] (split_on slash p)"

definition render_path :: "bool \<Rightarrow> string list \<Rightarrow> string" where
  "render_path rooted cs =
     (if rooted then slash # join_with [slash] cs
      else if cs = [] then ''.'' else join_with [slash] cs)"

definition path_clean :: "string \<Rightarrow> string" where
  "path_clean p = render_path (is_rooted p) (clean_comps p)"

text \<open>\<open>Join\<close> drops leading empty elements, joins the rest with slashes and cleans; the join of
  empty elements only is the empty string.\<close>

definition path_join :: "string list \<Rightarrow> string" where
  "path_join es =
     (case dropWhile (\<lambda>e. e = []) es of
        [] \<Rightarrow> []
      | es' \<Rightarrow> path_clean (join_with [slash] es'))"

definition resolve :: "string \<Rightarrow> fpath" where
  "resolve p = (if is_rooted p then [slash] # clean_comps p else clean_comps p)"

section \<open>Base, Ext and Dir\<close>

definition path_base :: "string \<Rightarrow> string" where
  "path_base p =
     (if p = [] then ''.''
      else let q = dropWhile (\<lambda>c. c = slash) (rev p) in
        if q = [] then ''/'' else rev (takeWhile (\<lambda>c. c \<noteq> slash) q))"

definition path_ext :: "string \<Rightarrow> string" where
  "path_ext p =
     (let r = takeWhile (\<lambda>c. c \<noteq> slash \<and> c \<noteq> CHR ''.'') (rev p) in
      case drop (length r) (rev p) of
        [] \<Rightarrow> []
      | c # _ \<Rightarrow> if c = CHR ''.'' then CHR ''.'' # rev r else [])"

definition path_dir :: "string \<Rightarrow> string" where
  "path_dir p = path_clean (rev (dropWhile (\<lambda>c. c \<noteq> slash) (rev p)))"

section \<open>Plain names\<close>

text \<open>A plain name is one that names a directory entry.\<close>

definition plain_name :: "string \<Rightarrow> bool" where
  "plain_name n \<longleftrightarrow> n \<noteq> [] \<and> n \<noteq> ''.'' \<and> n \<noteq> ''..'' \<and> slash \<notin> set n"

lemma plain_name_no_slash: "plain_name n \<Longrightarrow> slash \<notin> set n"
  by (simp add: plain_name_def)

lemma plain_name_nonempty: "plain_name n \<Longrightarrow> n \<noteq> []"
  by (simp add: plain_name_def)

lemma norm_comps_snoc_plain:
  "plain_name n \<Longrightarrow> norm_comps r st (cs @ [n]) = norm_comps r st cs @ [n]"
  by (induction r st cs rule: norm_comps.induct)
     (auto simp: plain_name_def split: list.splits)

lemma is_rooted_append: "d \<noteq> [] \<Longrightarrow> is_rooted (d @ s) = is_rooted d"
  by (cases d) (simp_all add: is_rooted_def)

lemma clean_comps_snoc:
  "plain_name n \<Longrightarrow> d \<noteq> [] \<Longrightarrow> clean_comps (d @ slash # n) = clean_comps d @ [n]"
  by (simp add: clean_comps_def split_on_append norm_comps_snoc_plain is_rooted_append
      plain_name_no_slash)

lemma not_rooted_plain: "plain_name n \<Longrightarrow> \<not> is_rooted n"
  by (cases n) (auto simp: plain_name_def is_rooted_def)

lemma clean_comps_plain: "plain_name n \<Longrightarrow> clean_comps n = [n]"
  by (simp add: clean_comps_def plain_name_def)

lemma norm_comps_no_slash:
  assumes "c \<in> set (norm_comps r st cs)" and "\<forall>x\<in>set st. slash \<notin> set x"
    and "\<forall>x\<in>set cs. slash \<notin> set x"
  shows "slash \<notin> set c"
  using assms
  by (induction r st cs rule: norm_comps.induct)
     (auto split: if_splits list.splits)

lemma clean_comps_no_slash: "c \<in> set (clean_comps p) \<Longrightarrow> slash \<notin> set c"
  unfolding clean_comps_def
  by (rule norm_comps_no_slash) (auto dest: split_on_parts)

lemma norm_comps_nonempty:
  assumes "c \<in> set (norm_comps r st cs)" and "\<forall>x\<in>set st. x \<noteq> []"
  shows "c \<noteq> []"
  using assms
  by (induction r st cs rule: norm_comps.induct)
     (auto split: if_splits list.splits)

lemma clean_comps_nonempty: "c \<in> set (clean_comps p) \<Longrightarrow> c \<noteq> []"
  unfolding clean_comps_def by (rule norm_comps_nonempty) auto

text \<open>What the stack of \<open>Clean\<close> can hold: no empty and no \<open>.\<close> element, and \<open>..\<close> only in
  front of a relative path.\<close>

fun ok_stack :: "bool \<Rightarrow> string list \<Rightarrow> bool" where
  "ok_stack r [] = True"
| "ok_stack r (t # ts) =
     (t \<noteq> [] \<and> t \<noteq> ''.'' \<and> (t = ''..'' \<longrightarrow> \<not> r \<and> (\<forall>x\<in>set ts. x = ''..'')) \<and> ok_stack r ts)"

lemma ok_stack_append: "ok_stack r (xs @ ys) \<Longrightarrow> ok_stack r ys"
  by (induction xs) auto

lemma norm_comps_ok: "ok_stack r st \<Longrightarrow> ok_stack r (rev (norm_comps r st cs))"
  by (induction r st cs rule: norm_comps.induct) (auto split: list.splits)

lemma norm_comps_stable: "ok_stack r (rev cs @ st) \<Longrightarrow> norm_comps r st cs = rev st @ cs"
proof (induction cs arbitrary: st)
  case (Cons c cs)
  then have IH: "norm_comps r (c # st) cs = rev (c # st) @ cs" by simp
  have "ok_stack r (c # st)" using Cons.prems ok_stack_append by force
  then have c: "c \<noteq> []" "c \<noteq> ''.''" "c = ''..'' \<Longrightarrow> \<not> r \<and> (\<forall>x\<in>set st. x = ''..'')"
    by auto
  show ?case
  proof (cases "c = ''..''")
    case True
    with c IH show ?thesis by (cases st) auto
  next
    case False
    with c IH show ?thesis by simp
  qed
qed simp

lemma clean_comps_ok: "ok_stack (is_rooted p) (rev (clean_comps p))"
  by (simp add: clean_comps_def norm_comps_ok)

section \<open>Reading cleaned paths back\<close>

lemma is_rooted_no_slash: "slash \<notin> set c \<Longrightarrow> \<not> is_rooted c"
  by (cases c) (auto simp: is_rooted_def)

lemma is_rooted_join:
  "cs \<noteq> [] \<Longrightarrow> (\<forall>c\<in>set cs. slash \<notin> set c \<and> c \<noteq> []) \<Longrightarrow> \<not> is_rooted (join_with [slash] cs)"
  by (cases cs rule: remdups_adj.cases) (simp_all add: is_rooted_append is_rooted_no_slash)

lemma is_rooted_render:
  assumes "\<forall>c\<in>set cs. slash \<notin> set c \<and> c \<noteq> []"
  shows "is_rooted (render_path r cs) = r"
  using assms is_rooted_join [of cs] by (auto simp: render_path_def is_rooted_def)

lemma norm_comps_snoc_empty: "norm_comps r st (cs @ [[]]) = norm_comps r st cs"
  by (induction r st cs rule: norm_comps.induct) (auto split: list.splits)

lemma clean_comps_render:
  assumes "\<forall>c\<in>set cs. slash \<notin> set c \<and> c \<noteq> []" and "ok_stack r (rev cs)"
  shows "clean_comps (render_path r cs) = cs"
proof -
  have n: "norm_comps r [] cs = cs" using norm_comps_stable [of r cs "[]"] assms(2) by simp
  have j: "cs \<noteq> [] \<Longrightarrow> split_on slash (join_with [slash] cs) = cs"
    using assms(1) by (intro split_on_join) auto
  have "clean_comps (render_path r cs) = norm_comps r [] (split_on slash (render_path r cs))"
    using is_rooted_render [OF assms(1)] by (simp add: clean_comps_def)
  also have "\<dots> = cs"
    using n j by (cases "cs = []") (auto simp: render_path_def)
  finally show ?thesis .
qed

lemma comps_wf: "\<forall>c\<in>set (clean_comps p). slash \<notin> set c \<and> c \<noteq> []"
  using clean_comps_no_slash clean_comps_nonempty by blast

lemma is_rooted_clean [simp]: "is_rooted (path_clean p) = is_rooted p"
  by (simp add: path_clean_def is_rooted_render comps_wf)

lemma clean_comps_clean [simp]: "clean_comps (path_clean p) = clean_comps p"
  by (simp add: path_clean_def clean_comps_render comps_wf clean_comps_ok)

lemma resolve_clean [simp]: "resolve (path_clean p) = resolve p"
  by (simp add: resolve_def)

lemma path_clean_idem [simp]: "path_clean (path_clean p) = path_clean p"
proof -
  have "path_clean (path_clean p) = render_path (is_rooted p) (clean_comps p)"
    unfolding path_clean_def [of "path_clean p"] by simp
  then show ?thesis by (simp only: path_clean_def)
qed

lemma path_clean_nonempty [simp]: "path_clean p \<noteq> []"
  using comps_wf [of p]
  by (cases "clean_comps p" rule: remdups_adj.cases)
     (auto simp: path_clean_def render_path_def)

text \<open>Joining a plain name to a directory appends it to the location, whatever the
  directory string looks like.\<close>

lemma path_join2:
  "path_join [d, n] = (if d = [] then (if n = [] then [] else path_clean n)
     else path_clean (d @ slash # n))"
  by (simp add: path_join_def)

lemma resolve_join_plain:
  assumes "plain_name n"
  shows "resolve (path_join [d, n]) = resolve d @ [n]"
proof (cases "d = []")
  case True
  then show ?thesis using assms
    by (simp add: path_join2 resolve_def clean_comps_plain not_rooted_plain plain_name_nonempty)
       (simp add: clean_comps_def is_rooted_def)
next
  case False
  have "is_rooted (d @ slash # n) = is_rooted d" using False by (rule is_rooted_append)
  then show ?thesis using assms False
    by (simp add: path_join2 resolve_def clean_comps_snoc)
qed

lemma join_with_snoc:
  "xs \<noteq> [] \<Longrightarrow> join_with sep (xs @ [y]) = join_with sep xs @ sep @ y"
  by (induction sep xs rule: join_with.induct) auto

lemma path_join_plain_shape:
  assumes "plain_name n"
  shows "\<exists>pre. path_join [d, n] = pre @ n \<and> (pre = [] \<or> last pre = slash)"
proof (cases "d = []")
  case True
  then show ?thesis using assms
    by (intro exI [of _ "[]"])
       (simp add: path_join2 path_clean_def render_path_def not_rooted_plain clean_comps_plain
         plain_name_def)
next
  case False
  have r: "is_rooted (d @ slash # n) = is_rooted d" using False by (rule is_rooted_append)
  have c: "clean_comps (d @ slash # n) = clean_comps d @ [n]"
    using assms False by (rule clean_comps_snoc)
  let ?b = "if clean_comps d = [] then [] else join_with [slash] (clean_comps d) @ [slash]"
  have "join_with [slash] (clean_comps d @ [n]) = ?b @ n"
    by (simp add: join_with_snoc)
  then have "path_join [d, n] = (if is_rooted d then slash # ?b @ n else ?b @ n)"
    using False r c by (simp add: path_join2 path_clean_def render_path_def)
  then show ?thesis
    by (intro exI [of _ "if is_rooted d then slash # ?b else ?b"]) simp
qed

lemma takeWhile_name:
  assumes "slash \<notin> set n" and "pre = [] \<or> last pre = slash"
  shows "takeWhile (\<lambda>c. c \<noteq> slash) (rev (pre @ n)) = rev n"
  using assms
  by (cases pre rule: rev_cases) (auto simp: takeWhile_append takeWhile_eq_all_conv)

lemma path_base_pre:
  assumes "plain_name n" and "pre = [] \<or> last pre = slash"
  shows "path_base (pre @ n) = n"
proof -
  obtain m c where n: "n = m @ [c]" and c: "c \<noteq> slash"
    using assms(1) by (cases n rule: rev_cases) (auto simp: plain_name_def)
  have "dropWhile (\<lambda>c. c = slash) (rev (pre @ n)) = rev (pre @ n)"
    using n c by simp
  moreover have "takeWhile (\<lambda>c. c \<noteq> slash) (rev (pre @ n)) = rev n"
    using assms by (intro takeWhile_name) (auto simp: plain_name_def)
  ultimately show ?thesis using n by (simp add: path_base_def Let_def)
qed

lemma path_base_join [simp]: "plain_name n \<Longrightarrow> path_base (path_join [d, n]) = n"
  by (metis path_base_pre path_join_plain_shape)

lemma path_base_plain [simp]: "plain_name n \<Longrightarrow> path_base n = n"
  using path_base_pre [of n "[]"] by simp

lemma path_ext_pre:
  assumes "slash \<notin> set n" and "pre = [] \<or> last pre = slash"
  shows "path_ext (pre @ n) = path_ext n"
proof (cases "CHR ''.'' \<in> set n")
  case True
  let ?P = "\<lambda>c. c \<noteq> slash \<and> c \<noteq> CHR ''.''"
  have "takeWhile ?P (rev n @ rev pre) = takeWhile ?P (rev n)"
    using True by (intro takeWhile_append1 [of "CHR ''.''"]) auto
  moreover from this have "drop (length (takeWhile ?P (rev n))) (rev n @ rev pre) =
      drop (length (takeWhile ?P (rev n))) (rev n) @ rev pre"
    using length_takeWhile_le [of ?P "rev n"] by simp
  moreover have "drop (length (takeWhile ?P (rev n))) (rev n) \<noteq> []"
    using True by (metis (mono_tags, lifting) append_Nil2 append_take_drop_id set_rev
        set_takeWhileD takeWhile_eq_take)
  ultimately show ?thesis by (auto simp: path_ext_def Let_def split: list.splits)
next
  case False
  let ?P = "\<lambda>c. c \<noteq> slash \<and> c \<noteq> CHR ''.''"
  have all: "\<forall>c\<in>set (rev n). ?P c" using False assms(1) by auto
  then have n: "path_ext n = []" by (simp add: path_ext_def takeWhile_eq_all_conv [THEN iffD2])
  show ?thesis
  proof (cases pre rule: rev_cases)
    case Nil
    with n show ?thesis by simp
  next
    case (snoc pr c)
    then have "c = slash" using assms(2) by simp
    then have "takeWhile ?P (rev (pre @ n)) = rev n"
      using snoc all by (auto simp: takeWhile_append takeWhile_eq_all_conv)
    then show ?thesis using n snoc \<open>c = slash\<close> by (simp add: path_ext_def Let_def)
  qed
qed

lemma path_ext_join [simp]: "plain_name n \<Longrightarrow> path_ext (path_join [d, n]) = path_ext n"
  by (metis path_ext_pre path_join_plain_shape plain_name_no_slash)

lemma path_ext_dot:
  assumes "CHR ''.'' \<notin> set e" and "slash \<notin> set e"
  shows "path_ext (s @ CHR ''.'' # e) = CHR ''.'' # e"
proof -
  have "takeWhile (\<lambda>c. c \<noteq> slash \<and> c \<noteq> CHR ''.'') (rev e @ CHR ''.'' # rev s) = rev e"
    using assms by (subst takeWhile_append2) auto
  then show ?thesis by (simp add: path_ext_def Let_def)
qed

lemma path_dir_join_plain:
  assumes "plain_name n"
  shows "resolve (path_dir (path_join [d, n])) = resolve d"
proof -
  obtain pre where p: "path_join [d, n] = pre @ n" "pre = [] \<or> last pre = slash"
    using path_join_plain_shape [OF assms] by blast
  have dw: "dropWhile (\<lambda>c. c \<noteq> slash) (rev (pre @ n)) = rev pre"
    using p(2) plain_name_no_slash [OF assms]
    by (cases pre rule: rev_cases) (auto simp: dropWhile_append)
  have dir: "path_dir (path_join [d, n]) = path_clean pre" using dw p by (simp add: path_dir_def)
  have "resolve (pre @ n) = resolve d @ [n]" using resolve_join_plain [OF assms, of d] p by simp
  moreover have "resolve (pre @ n) = resolve pre @ [n]"
  proof (cases pre rule: rev_cases)
    case Nil
    then show ?thesis using assms by (simp add: resolve_def clean_comps_plain not_rooted_plain)
        (simp add: clean_comps_def is_rooted_def)
  next
    case (snoc q c)
    then have q: "pre = q @ [slash]" using p(2) by simp
    show ?thesis
    proof (cases q)
      case Nil
      with q assms show ?thesis
        by (simp add: resolve_def clean_comps_def is_rooted_def plain_name_def)
    next
      case (Cons a q')
      have rq: "is_rooted (q @ t) = is_rooted q" for t
        by (rule is_rooted_append) (simp add: Cons)
      have "clean_comps (q @ [slash]) = clean_comps q"
        by (simp add: clean_comps_def rq split_on_append)
           (metis append_Nil2 clean_comps_def norm_comps_snoc_empty)
      moreover have "clean_comps (q @ slash # n) = clean_comps q @ [n]"
        by (rule clean_comps_snoc [OF assms]) (simp add: Cons)
      ultimately show ?thesis using q rq by (simp add: resolve_def)
    qed
  qed
  ultimately show ?thesis using dir by simp
qed

end
