(* ===== verification/Go_Os.thy ===== *)
theory Go_Os
  imports Go_Path
begin

text \<open>
  The file system and the system calls of Go's \<open>os\<close> and \<open>path/filepath\<close> packages. The state
  maps locations to directories and files. Every system call can fail in the way the
  directory tree dictates (\<open>ENOENT\<close>, \<open>ENOTDIR\<close>, ...), and also for a reason outside the
  model (permissions, a full disk): the field \<open>faults\<close> lists, call by call, the error the
  operating system injects, and an empty list injects none. A theorem about every state is
  therefore a theorem about every pattern of failures.

  Symbolic links and concurrent writers are not modelled. The state type is extensible, so the
  same calls serve the client and the server.
\<close>

section \<open>The file system\<close>

datatype node = DirN nat | FileN string nat

type_synonym fsys = "(fpath \<times> node) list"

text \<open>The root, the current directory and the directories above it always exist.\<close>

definition implicit_dir :: "fpath \<Rightarrow> bool" where
  "implicit_dir p \<longleftrightarrow> p = [[slash]] \<or> list_all (\<lambda>c. c = ''..'') p"

definition fs_get :: "fsys \<Rightarrow> fpath \<Rightarrow> node option" where
  "fs_get f p = (if implicit_dir p then Some (DirN 493) else map_of f p)"

definition is_dir_at :: "fsys \<Rightarrow> fpath \<Rightarrow> bool" where
  "is_dir_at f p = (case fs_get f p of Some (DirN _) \<Rightarrow> True | _ \<Rightarrow> False)"

definition is_file_at :: "fsys \<Rightarrow> fpath \<Rightarrow> bool" where
  "is_file_at f p = (case fs_get f p of Some (FileN _ _) \<Rightarrow> True | _ \<Rightarrow> False)"

definition file_content :: "fsys \<Rightarrow> fpath \<Rightarrow> string option" where
  "file_content f p = (case fs_get f p of Some (FileN d _) \<Rightarrow> Some d | _ \<Rightarrow> None)"

text \<open>The error of a call on a location that is not there: a file in the way, or nothing.\<close>

definition missing :: "fsys \<Rightarrow> fpath \<Rightarrow> errno" where
  "missing f p =
     (if list_ex (\<lambda>i. is_file_at f (take i p)) [0..<length p] then ENOTDIR else ENOENT)"

definition parent_is_dir :: "fsys \<Rightarrow> fpath \<Rightarrow> bool" where
  "parent_is_dir f p = is_dir_at f (butlast p)"

text \<open>The entry names of a directory, in the byte order \<open>os.ReadDir\<close> returns them.\<close>

definition dir_names :: "fsys \<Rightarrow> fpath \<Rightarrow> string list" where
  "dir_names f d =
     sort (remdups (map last (filter (\<lambda>k. k \<noteq> [] \<and> butlast k = d) (map fst f))))"

definition fs_wf :: "fsys \<Rightarrow> bool" where
  "fs_wf f \<longleftrightarrow> (\<forall>k\<in>fst ` set f. \<not> implicit_dir k \<and> plain_name (last k) \<and> parent_is_dir f k)"

subsection \<open>Pure file-system operations\<close>

definition fs_read :: "fpath \<Rightarrow> fsys \<Rightarrow> errno + string \<times> fsys" where
  "fs_read p f =
     (case fs_get f p of
        None \<Rightarrow> Inl (missing f p)
      | Some (DirN _) \<Rightarrow> Inl EISDIR
      | Some (FileN d _) \<Rightarrow> Inr (d, f))"

definition fs_stat :: "fpath \<Rightarrow> fsys \<Rightarrow> errno + node \<times> fsys" where
  "fs_stat p f = (case fs_get f p of None \<Rightarrow> Inl (missing f p) | Some n \<Rightarrow> Inr (n, f))"

definition fs_mkdir :: "nat \<Rightarrow> fpath \<Rightarrow> fsys \<Rightarrow> errno + unit \<times> fsys" where
  "fs_mkdir perm p f =
     (case fs_get f p of
        Some (DirN _) \<Rightarrow> Inr ((), f)
      | Some (FileN _ _) \<Rightarrow> Inl ENOTDIR
      | None \<Rightarrow> if parent_is_dir f p then Inr ((), AList.update p (DirN perm) f)
                else Inl (missing f p))"

definition fs_remove :: "fpath \<Rightarrow> fsys \<Rightarrow> errno + unit \<times> fsys" where
  "fs_remove p f =
     (if implicit_dir p then Inl EACCES
      else case map_of f p of
        None \<Rightarrow> Inl (missing f p)
      | Some (FileN _ _) \<Rightarrow> Inr ((), AList.delete p f)
      | Some (DirN _) \<Rightarrow>
          if dir_names f p = [] then Inr ((), AList.delete p f) else Inl ENOTEMPTY)"

definition fs_write :: "fpath \<Rightarrow> string \<Rightarrow> fsys \<Rightarrow> errno + unit \<times> fsys" where
  "fs_write p d f =
     (case fs_get f p of
        Some (FileN _ m) \<Rightarrow> Inr ((), AList.update p (FileN d m) f)
      | Some (DirN _) \<Rightarrow> Inl EISDIR
      | None \<Rightarrow> Inl (missing f p))"

definition fs_chmod :: "fpath \<Rightarrow> nat \<Rightarrow> fsys \<Rightarrow> errno + unit \<times> fsys" where
  "fs_chmod p m f =
     (if implicit_dir p then Inl EACCES
      else case map_of f p of
        Some (FileN d _) \<Rightarrow> Inr ((), AList.update p (FileN d m) f)
      | Some (DirN _) \<Rightarrow> Inr ((), AList.update p (DirN m) f)
      | None \<Rightarrow> Inl (missing f p))"

text \<open>Renaming a file replaces a file at the new name. Directories are never renamed here.\<close>

definition fs_rename :: "fpath \<Rightarrow> fpath \<Rightarrow> fsys \<Rightarrow> errno + unit \<times> fsys" where
  "fs_rename old new f =
     (case fs_get f old of
        None \<Rightarrow> Inl (missing f old)
      | Some (DirN _) \<Rightarrow> Inl EISDIR
      | Some (FileN d m) \<Rightarrow>
          (if is_dir_at f new then Inl EEXIST
           else if parent_is_dir f new
             then Inr ((), AList.update new (FileN d m) (AList.delete old f))
             else Inl (missing f new)))"

text \<open>\<open>os.CreateTemp(dir, "tmp-*.tmp")\<close>: the star becomes a number for which no entry exists
  yet. The generator's draws are unknown; from the seed on, the first free number is taken.\<close>

definition temp_name :: "nat \<Rightarrow> string" where
  "temp_name k = ''tmp-'' @ show_nat k @ ''.tmp''"

definition fresh_temp :: "nat \<Rightarrow> fpath \<Rightarrow> fsys \<Rightarrow> string option" where
  "fresh_temp s d f =
     find (\<lambda>n. fs_get f (d @ [n]) = None) (map temp_name [s..<s + Suc (length f)])"

definition fs_create_temp :: "nat \<Rightarrow> fpath \<Rightarrow> fsys \<Rightarrow> errno + string \<times> fsys" where
  "fs_create_temp s d f =
     (if is_dir_at f d then
        (case fresh_temp s d f of
           None \<Rightarrow> Inl EEXIST
         | Some n \<Rightarrow> Inr (n, AList.update (d @ [n]) (FileN [] 384) f))
      else Inl (if fs_get f d = None then missing f d else ENOTDIR))"

definition fs_read_dir :: "fpath \<Rightarrow> fsys \<Rightarrow> errno + (string \<times> bool) list \<times> fsys" where
  "fs_read_dir p f =
     (case fs_get f p of
        None \<Rightarrow> Inl (missing f p)
      | Some (FileN _ _) \<Rightarrow> Inl ENOTDIR
      | Some (DirN _) \<Rightarrow> Inr (map (\<lambda>n. (n, is_dir_at f (p @ [n]))) (dir_names f p), f))"

section \<open>System calls\<close>

record os =
  fs :: fsys
  faults :: "errno option list"
  seed :: nat

definition next_fault :: "'z os_scheme \<Rightarrow> errno option" where
  "next_fault w = (case faults w of [] \<Rightarrow> None | x # _ \<Rightarrow> x)"

definition syscall :: "(fsys \<Rightarrow> errno + 'a \<times> fsys) \<Rightarrow> ('z os_scheme, 'a) io" where
  "syscall op = (\<lambda>w.
     let w' = w\<lparr>faults := tl (faults w)\<rparr> in
     case next_fault w of
       Some e \<Rightarrow> (Inl (PathError e), w')
     | None \<Rightarrow>
        (case op (fs w) of
           Inl e \<Rightarrow> (Inl (PathError e), w')
         | Inr (x, f') \<Rightarrow> (Inr x, w'\<lparr>fs := f'\<rparr>)))"

text \<open>A path string is resolved to a location; the empty string names nothing.\<close>

definition at_path :: "string \<Rightarrow> (fpath \<Rightarrow> fsys \<Rightarrow> errno + 'a \<times> fsys) \<Rightarrow> ('z os_scheme, 'a) io" where
  "at_path p op = syscall (if p = [] then (\<lambda>_. Inl ENOENT) else op (resolve p))"

definition os_stat :: "string \<Rightarrow> ('z os_scheme, node) io" where
  "os_stat p = at_path p fs_stat"

definition os_read_file :: "string \<Rightarrow> ('z os_scheme, string) io" where
  "os_read_file p = at_path p fs_read"

definition os_remove :: "string \<Rightarrow> ('z os_scheme, unit) io" where
  "os_remove p = at_path p fs_remove"

definition os_chmod :: "string \<Rightarrow> nat \<Rightarrow> ('z os_scheme, unit) io" where
  "os_chmod p m = at_path p (\<lambda>q. fs_chmod q m)"

definition os_rename :: "string \<Rightarrow> string \<Rightarrow> ('z os_scheme, unit) io" where
  "os_rename old new = at_path old (\<lambda>q. fs_rename q (resolve new))"

definition os_read_dir :: "string \<Rightarrow> ('z os_scheme, (string \<times> bool) list) io" where
  "os_read_dir p = at_path p fs_read_dir"

definition os_write :: "string \<Rightarrow> string \<Rightarrow> ('z os_scheme, unit) io" where
  "os_write p d = at_path p (\<lambda>q. fs_write q d)"

definition os_create_temp :: "string \<Rightarrow> ('z os_scheme, string) io" where
  "os_create_temp d =
     bindE (\<lambda>w. at_path d (fs_create_temp (seed w)) w) (\<lambda>n. ret (path_join [d, n]))"

text \<open>\<open>tmp.Close()\<close> can fail but changes nothing.\<close>

definition os_close :: "('z os_scheme, unit) io" where
  "os_close = syscall (\<lambda>f. Inr ((), f))"

definition path_prefixes :: "fpath \<Rightarrow> fpath list" where
  "path_prefixes p = map (\<lambda>i. take i p) [1..<Suc (length p)]"

definition os_mkdir_all :: "string \<Rightarrow> nat \<Rightarrow> ('z os_scheme, unit) io" where
  "os_mkdir_all p perm =
     (if p = [] then throw (PathError ENOENT)
      else for_each (\<lambda>q. syscall (fs_mkdir perm q)) (path_prefixes (resolve p)))"

section \<open>WalkDir\<close>

text \<open>
  The callback gets the path, whether the entry is a directory, and the error of reading it,
  and answers nil, \<open>SkipDir\<close>, \<open>SkipAll\<close> or an error; what it collects is threaded through.
  The recursion follows Go's; its depth is bounded by the depth of the tree.
\<close>

datatype walk_ctl = WContinue | WSkipDir | WSkipAll | WErr go_error

type_synonym 'c walk_fn = "string \<Rightarrow> bool \<Rightarrow> go_error option \<Rightarrow> 'c \<Rightarrow> walk_ctl \<times> 'c"

fun walk_dir :: "nat \<Rightarrow> 'c walk_fn \<Rightarrow> string \<Rightarrow> bool \<Rightarrow> 'c \<Rightarrow> 'z os_scheme
      \<Rightarrow> (walk_ctl \<times> 'c) \<times> 'z os_scheme"
  and walk_list :: "nat \<Rightarrow> 'c walk_fn \<Rightarrow> string \<Rightarrow> (string \<times> bool) list \<Rightarrow> 'c \<Rightarrow> 'z os_scheme
      \<Rightarrow> (walk_ctl \<times> 'c) \<times> 'z os_scheme" where
  "walk_dir 0 fn path isd c w = ((WErr (Errorf ''tree too deep''), c), w)"
| "walk_dir (Suc n) fn path isd c w =
     (case fn path isd None c of (r, c1) \<Rightarrow>
        if r \<noteq> WContinue \<or> \<not> isd
        then ((if r = WSkipDir \<and> isd then WContinue else r, c1), w)
        else (case os_read_dir path w of
                (Inl e, w1) \<Rightarrow>
                  (case fn path isd (Some e) c1 of (r2, c2) \<Rightarrow>
                     ((if r2 = WSkipDir then WContinue else r2, c2), w1))
              | (Inr es, w1) \<Rightarrow> walk_list n fn path es c1 w1))"
| "walk_list n fn path [] c w = ((WContinue, c), w)"
| "walk_list n fn path ((name, isd) # es) c w =
     (case walk_dir n fn (path_join [path, name]) isd c w of ((r, c1), w1) \<Rightarrow>
        if r = WContinue then walk_list n fn path es c1 w1
        else ((if r = WSkipDir then WContinue else r, c1), w1))"

definition tree_depth :: "fsys \<Rightarrow> nat" where
  "tree_depth f = fold max (map (length \<circ> fst) f) 0"

definition path_walk_dir :: "'c walk_fn \<Rightarrow> string \<Rightarrow> 'c \<Rightarrow> ('z os_scheme, 'c) io" where
  "path_walk_dir fn root c = (\<lambda>w.
     case (case os_stat root w of
             (Inl e, w1) \<Rightarrow> (fn root False (Some e) c, w1)
           | (Inr nd, w1) \<Rightarrow>
               walk_dir (Suc (Suc (tree_depth (fs w)))) fn root (is_dir_at (fs w) (resolve root)) c w1)
     of ((WErr e, c'), w') \<Rightarrow> (Inl e, w') | ((_, c'), w') \<Rightarrow> (Inr c', w'))"

end
