(* ===== verification/Go_Os_Facts.thy ===== *)
theory Go_Os_Facts
  imports Go_Os
begin

text \<open>
  Facts about the file system and its calls that the components share: reading after
  writing, the well-formedness of the directory tree and that every call keeps it, which
  locations a call can change, what a call does when the operating system injects no fault,
  and that the directory walk always has enough fuel.
\<close>

section \<open>Reading after writing\<close>

lemma fs_get_implicit [simp]: "implicit_dir p \<Longrightarrow> fs_get f p = Some (DirN 493)"
  by (simp add: fs_get_def)

lemma implicit_dir_Nil [simp]: "implicit_dir []"
  by (simp add: implicit_dir_def)

lemma implicit_dir_snoc [simp]: "plain_name n \<Longrightarrow> \<not> implicit_dir (p @ [n])"
  by (auto simp: implicit_dir_def plain_name_def)

lemma fs_get_update:
  "\<not> implicit_dir k \<Longrightarrow>
     fs_get (AList.update k v f) p = (if p = k then Some v else fs_get f p)"
  by (simp add: fs_get_def AList.update_conv')

lemma fs_get_delete:
  "\<not> implicit_dir k \<Longrightarrow>
     fs_get (AList.delete k f) p = (if p = k then None else fs_get f p)"
  by (simp add: fs_get_def AList.delete_conv')

lemma fs_get_None_key: "\<not> implicit_dir p \<Longrightarrow> fs_get f p = None \<longleftrightarrow> p \<notin> fst ` set f"
  by (simp add: fs_get_def map_of_eq_None_iff)

lemma keys_delete: "fst ` set (AList.delete k f) = fst ` set f - {k}"
proof -
  have "fst ` set (AList.delete k f) = set (map fst (AList.delete k f))" by simp
  also have "\<dots> = fst ` set f - {k}" by (simp add: AList.delete_keys)
  finally show ?thesis .
qed

lemma set_dir_names: "n \<in> set (dir_names f d) \<longleftrightarrow> d @ [n] \<in> fst ` set f"
proof -
  have "n \<in> set (dir_names f d) \<longleftrightarrow> (\<exists>k\<in>fst ` set f. k \<noteq> [] \<and> butlast k = d \<and> last k = n)"
    by (auto simp: dir_names_def)
  also have "\<dots> \<longleftrightarrow> d @ [n] \<in> fst ` set f"
    by (metis append_butlast_last_id butlast_snoc last_snoc snoc_eq_iff_butlast)
  finally show ?thesis .
qed

lemma sorted_dir_names: "sorted (dir_names f d)"
  by (simp add: dir_names_def)

lemma distinct_dir_names: "distinct (dir_names f d)"
  by (simp add: dir_names_def)

lemma dir_names_get:
  "fs_wf f \<Longrightarrow> n \<in> set (dir_names f d) \<Longrightarrow> plain_name n \<and> fs_get f (d @ [n]) \<noteq> None"
  unfolding set_dir_names fs_wf_def by (metis fs_get_None_key last_snoc)

lemma dir_names_plain: "fs_wf f \<Longrightarrow> n \<in> set (dir_names f d) \<Longrightarrow> plain_name n"
  using dir_names_get by blast

lemma dir_names_iff:
  "fs_wf f \<Longrightarrow> plain_name n \<Longrightarrow> n \<in> set (dir_names f d) \<longleftrightarrow> fs_get f (d @ [n]) \<noteq> None"
  by (simp add: set_dir_names fs_get_None_key)

lemma is_dir_implicit [simp]: "implicit_dir p \<Longrightarrow> is_dir_at f p"
  by (simp add: is_dir_at_def)

lemma is_dir_update:
  "\<not> implicit_dir k \<Longrightarrow> is_dir_at (AList.update k v f) p =
     (if p = k then (case v of DirN _ \<Rightarrow> True | FileN _ _ \<Rightarrow> False) else is_dir_at f p)"
  by (simp add: is_dir_at_def fs_get_update split: node.splits)

lemma is_dir_delete:
  "\<not> implicit_dir k \<Longrightarrow> is_dir_at (AList.delete k f) p = (p \<noteq> k \<and> is_dir_at f p)"
  by (simp add: is_dir_at_def fs_get_delete)

section \<open>Well-formed trees\<close>

lemma fs_wf_Nil [simp]: "fs_wf []"
  by (simp add: fs_wf_def)

lemma fs_wf_update_file:
  assumes "fs_wf f" "\<not> implicit_dir k" "plain_name (last k)" "parent_is_dir f k"
    "\<not> is_dir_at f k"
  shows "fs_wf (AList.update k (FileN d m) f)"
  using assms by (auto simp: fs_wf_def AList.dom_update parent_is_dir_def is_dir_update)

lemma fs_wf_update_dir:
  assumes "fs_wf f" "\<not> implicit_dir k" "plain_name (last k)" "parent_is_dir f k"
  shows "fs_wf (AList.update k (DirN m) f)"
  using assms by (auto simp: fs_wf_def AList.dom_update parent_is_dir_def is_dir_update)

lemma fs_wf_delete_file:
  "fs_wf f \<Longrightarrow> \<not> is_dir_at f k \<Longrightarrow> fs_wf (AList.delete k f)"
  by (cases "implicit_dir k")
     (auto simp: fs_wf_def keys_delete parent_is_dir_def is_dir_delete)

lemma dir_names_Nil: "dir_names f p = [] \<Longrightarrow> k \<in> fst ` set f \<Longrightarrow> k \<noteq> [] \<Longrightarrow> butlast k \<noteq> p"
  using set_dir_names [of "last k" f p] by force

lemma fs_wf_key_nonempty: "fs_wf f \<Longrightarrow> k \<in> fst ` set f \<Longrightarrow> k \<noteq> []"
  by (auto simp: fs_wf_def)

lemma fs_wf_delete_empty_dir:
  assumes "fs_wf f" "dir_names f k = []" "\<not> implicit_dir k"
  shows "fs_wf (AList.delete k f)"
proof -
  have "butlast q \<noteq> k" if "q \<in> fst ` set f" for q
    using dir_names_Nil [OF assms(2) that] fs_wf_key_nonempty [OF assms(1) that] by simp
  then show ?thesis
    using assms by (auto simp: fs_wf_def keys_delete parent_is_dir_def is_dir_delete)
qed

lemma fs_get_Some_wf:
  assumes "fs_wf f" "fs_get f k = Some nd" "\<not> implicit_dir k"
  shows "plain_name (last k)" "parent_is_dir f k"
  using assms fs_get_None_key [OF assms(3), of f] by (auto simp: fs_wf_def)

lemma implicit_dir_take: "implicit_dir p \<Longrightarrow> implicit_dir (take i p)"
  by (cases i) (auto simp: implicit_dir_def list_all_iff dest: in_set_takeD)

lemma wf_prefix_dir:
  assumes "fs_wf f" "is_dir_at f p"
  shows "is_dir_at f (take i p)"
  using assms(2)
proof (induction "length p" arbitrary: p)
  case 0
  then show ?case by simp
next
  case (Suc n)
  show ?case
  proof (cases "implicit_dir p \<or> length p \<le> i")
    case True
    with Suc.prems show ?thesis using implicit_dir_take by fastforce
  next
    case False
    then obtain nd where "fs_get f p = Some nd"
      using Suc.prems by (auto simp: is_dir_at_def split: option.splits)
    then have "is_dir_at f (butlast p)"
      using fs_get_Some_wf [OF assms(1)] False by (simp add: parent_is_dir_def)
    then have "is_dir_at f (take i (butlast p))" using Suc by (intro Suc.hyps) auto
    with False show ?thesis by (simp add: take_butlast)
  qed
qed

text \<open>A name that is missing in an existing directory is reported as \<open>ENOENT\<close>.\<close>

lemma missing_ENOENT:
  "(\<And>i. i < length p \<Longrightarrow> is_dir_at f (take i p)) \<Longrightarrow> missing f p = ENOENT"
  by (auto simp: missing_def list_ex_iff is_file_at_def is_dir_at_def
      split: option.splits node.splits) fastforce

lemma missing_in_dir:
  assumes "fs_wf f" "is_dir_at f d"
  shows "missing f (d @ [n]) = ENOENT"
proof (rule missing_ENOENT)
  fix i assume "i < length (d @ [n])"
  then show "is_dir_at f (take i (d @ [n]))" using wf_prefix_dir [OF assms, of i] by simp
qed

subsection \<open>Every operation keeps the tree well-formed\<close>

lemma is_file_not_implicit: "fs_get f k = Some (FileN d m) \<Longrightarrow> \<not> implicit_dir k"
  by (auto simp: fs_get_def split: if_splits)

lemma file_not_dir: "fs_get f k = Some (FileN d m) \<Longrightarrow> \<not> is_dir_at f k"
  by (simp add: is_dir_at_def)

lemma fs_write_wf: "fs_wf f \<Longrightarrow> fs_write p d f = Inr (x, f') \<Longrightarrow> fs_wf f'"
  by (auto simp: fs_write_def split: option.splits node.splits
      intro!: fs_wf_update_file dest: is_file_not_implicit file_not_dir
      intro: fs_get_Some_wf)

lemma fs_chmod_wf: "fs_wf f \<Longrightarrow> fs_chmod p m f = Inr (x, f') \<Longrightarrow> fs_wf f'"
  by (auto simp: fs_chmod_def is_dir_at_def fs_get_def split: option.splits node.splits if_splits
      intro!: fs_wf_update_file fs_wf_update_dir intro: fs_get_Some_wf [of _ _ "DirN _"]
      fs_get_Some_wf [of _ _ "FileN _ _"])

lemma fs_remove_wf: "fs_wf f \<Longrightarrow> fs_remove p f = Inr (x, f') \<Longrightarrow> fs_wf f'"
  by (auto simp: fs_remove_def is_dir_at_def fs_get_def split: option.splits node.splits if_splits
      intro: fs_wf_delete_file fs_wf_delete_empty_dir)

lemma fs_rename_wf:
  assumes "fs_wf f" "fs_rename old new f = Inr (x, f')" "plain_name (last new)"
  shows "fs_wf f'"
proof -
  obtain d m where old: "fs_get f old = Some (FileN d m)" and new: "\<not> is_dir_at f new"
    "parent_is_dir f new" and f': "f' = AList.update new (FileN d m) (AList.delete old f)"
    using assms(2) by (auto simp: fs_rename_def split: option.splits node.splits if_splits)
  have ni: "\<not> implicit_dir old" and nd: "\<not> is_dir_at f old"
    using old is_file_not_implicit file_not_dir by blast+
  have "fs_wf (AList.delete old f)" using assms(1) nd by (rule fs_wf_delete_file)
  moreover have "\<not> implicit_dir new" using new(1) by auto
  moreover have "parent_is_dir (AList.delete old f) new"
    using new(2) nd ni by (auto simp: parent_is_dir_def is_dir_delete)
  moreover have "\<not> is_dir_at (AList.delete old f) new" using new ni by (simp add: is_dir_delete)
  ultimately show ?thesis unfolding f' using assms(3) by (intro fs_wf_update_file)
qed

lemma fs_mkdir_wf:
  assumes "fs_wf f" "fs_mkdir perm p f = Inr (x, f')" "implicit_dir p \<or> plain_name (last p)"
  shows "fs_wf f'"
  using assms
  by (auto simp: fs_mkdir_def split: option.splits node.splits if_splits intro!: fs_wf_update_dir)

text \<open>What is read after a successful operation.\<close>

lemma fs_remove_get:
  "fs_remove p f = Inr (x, f') \<Longrightarrow>
     \<not> implicit_dir p \<and> (\<forall>q. fs_get f' q = (if q = p then None else fs_get f q))"
  by (auto simp: fs_remove_def fs_get_delete split: option.splits node.splits if_splits)

lemma fs_write_get:
  "fs_write p d f = Inr (x, f') \<Longrightarrow>
     \<not> implicit_dir p \<and> (\<exists>m. \<forall>q. fs_get f' q = (if q = p then Some (FileN d m) else fs_get f q))"
  by (auto simp: fs_write_def split: option.splits node.splits
      dest: is_file_not_implicit) (metis fs_get_update is_file_not_implicit)

lemma temp_name_plain [simp]: "plain_name (temp_name k)"
proof -
  have "slash \<notin> set (show_nat k)" using show_nat_digits digit_not_special by blast
  then show ?thesis by (simp add: temp_name_def plain_name_def)
qed

lemma temp_name_inject [simp]: "temp_name j = temp_name k \<longleftrightarrow> j = k"
  by (simp add: temp_name_def show_nat_inject)

lemma fresh_temp_Some:
  "fresh_temp s d f = Some n \<Longrightarrow> fs_get f (d @ [n]) = None \<and> (\<exists>k. n = temp_name k)"
  unfolding fresh_temp_def by (drule find_SomeD) auto

text \<open>A free temporary name always exists: there are more candidates than entries.\<close>

lemma fresh_temp_exists: "fresh_temp s d f \<noteq> None"
proof
  assume none: "fresh_temp s d f = None"
  let ?ks = "[s..<s + Suc (length f)]"
  let ?paths = "(\<lambda>k. d @ [temp_name k]) ` set ?ks"
  have "\<not> (\<exists>n. n \<in> temp_name ` set ?ks \<and> fs_get f (d @ [n]) = None)"
    using none unfolding fresh_temp_def by (simp only: find_None_iff set_map simp_thms)
  then have taken: "n \<in> temp_name ` set ?ks \<Longrightarrow> fs_get f (d @ [n]) \<noteq> None" for n
    by iprover
  have "d @ [temp_name k] \<in> fst ` set f" if "k \<in> set ?ks" for k
    using taken [OF imageI [OF that]] fs_get_None_key [OF implicit_dir_snoc [OF temp_name_plain]]
    by metis
  then have "?paths \<subseteq> fst ` set f"
    by (rule image_subsetI)
  then have "card ?paths \<le> card (fst ` set f)" by (intro card_mono) auto
  also have "\<dots> \<le> length f" by (metis card_length length_map list.set_map)
  moreover have "card ?paths = card (set ?ks)"
    by (rule card_image) (auto simp: inj_on_def)
  then have "card ?paths = Suc (length f)" by simp
  ultimately show False by simp
qed

lemma fs_create_temp_wf:
  assumes "fs_wf f" "fs_create_temp s d f = Inr (n, f')"
  shows "fs_wf f'"
proof -
  have d: "is_dir_at f d" "fresh_temp s d f = Some n"
    "f' = AList.update (d @ [n]) (FileN [] 384) f"
    using assms(2) by (auto simp: fs_create_temp_def split: option.splits if_splits)
  then have "fs_get f (d @ [n]) = None" "plain_name n"
    using fresh_temp_Some [OF d(2)] by auto
  then show ?thesis unfolding d(3) using assms(1) d(1)
    by (intro fs_wf_update_file) (simp_all add: parent_is_dir_def is_dir_at_def)
qed

subsection \<open>Prefixes of resolved paths\<close>

lemma ok_stack_last:
  assumes "ok_stack r (rev cs)" "i \<le> length cs" "0 < i"
  shows "plain_name (last (take i cs)) \<or> (\<forall>x\<in>set (take i cs). x = ''..'') \<or>
     slash \<in> set (last (take i cs))"
proof -
  have "rev cs = rev (drop i cs) @ rev (take i cs)"
    by (metis append_take_drop_id rev_append)
  with assms(1) have ok: "ok_stack r (rev (take i cs))" using ok_stack_append by metis
  obtain t ts where t: "rev (take i cs) = t # ts"
    using assms(2,3) by (cases "rev (take i cs)") auto
  then have "take i cs = rev ts @ [t]" by (metis rev.simps(2) rev_rev_ident)
  then have l: "last (take i cs) = t" "set (take i cs) = insert t (set ts)" by auto
  from ok t have "t \<noteq> []" "t \<noteq> ''.''" "t = ''..'' \<longrightarrow> (\<forall>x\<in>set ts. x = ''..'')" by auto
  then show ?thesis unfolding l by (auto simp: plain_name_def)
qed

lemma ok_stack_mem:
  "ok_stack r st \<Longrightarrow> x \<in> set st \<Longrightarrow> x \<noteq> [] \<and> x \<noteq> ''.'' \<and> (r \<longrightarrow> x \<noteq> ''..'')"
  by (induction st) auto

lemma clean_comps_rooted_plain: "is_rooted p \<Longrightarrow> c \<in> set (clean_comps p) \<Longrightarrow> plain_name c"
  using ok_stack_mem [OF clean_comps_ok, of c p] clean_comps_no_slash
  by (auto simp: plain_name_def)

lemma resolve_prefix:
  assumes "i \<le> length (resolve p)" "0 < i"
  shows "implicit_dir (take i (resolve p)) \<or> plain_name (last (take i (resolve p)))"
proof (cases "is_rooted p")
  case True
  then obtain j where j: "i = Suc j" "take i (resolve p) = [slash] # take j (clean_comps p)"
    using assms by (cases i) (auto simp: resolve_def)
  show ?thesis
  proof (cases "take j (clean_comps p) = []")
    case True
    with j show ?thesis by (simp add: implicit_dir_def)
  next
    case False
    then have "last (take j (clean_comps p)) \<in> set (clean_comps p)"
      by (meson in_set_takeD last_in_set)
    with False j True show ?thesis by (simp add: clean_comps_rooted_plain)
  qed
next
  case False
  then have r: "resolve p = clean_comps p" by (simp add: resolve_def)
  have "last (take i (clean_comps p)) \<in> set (clean_comps p)"
    using assms r by (metis in_set_takeD last_in_set length_greater_0_conv list.size(3)
        not_less take_eq_Nil)
  then have "slash \<notin> set (last (take i (clean_comps p)))" by (rule clean_comps_no_slash)
  with ok_stack_last [OF clean_comps_ok, of i p] assms r
  show ?thesis by (auto simp: implicit_dir_def list_all_iff)
qed

section \<open>What a call can change\<close>

text \<open>A relation between file systems, lifted to states, is a frame condition. Three are used
  throughout: the tree stays well-formed; only locations in a set change; only directories
  are added.\<close>

definition fs_rel :: "(fsys \<Rightarrow> fsys \<Rightarrow> bool) \<Rightarrow> 'z os_scheme \<Rightarrow> 'z os_scheme \<Rightarrow> bool" where
  "fs_rel P w w' = P (fs w) (fs w')"

definition keeps_wf :: "fsys \<Rightarrow> fsys \<Rightarrow> bool" where
  "keeps_wf f f' \<longleftrightarrow> (fs_wf f \<longrightarrow> fs_wf f')"

definition changes_only :: "fpath set \<Rightarrow> fsys \<Rightarrow> fsys \<Rightarrow> bool" where
  "changes_only S f f' \<longleftrightarrow> (\<forall>p. p \<notin> S \<longrightarrow> fs_get f' p = fs_get f p)"

definition adds_dirs :: "fsys \<Rightarrow> fsys \<Rightarrow> bool" where
  "adds_dirs f f' \<longleftrightarrow> (\<forall>p. fs_get f' p = fs_get f p \<or> (fs_get f p = None \<and> is_dir_at f' p))"

locale fs_frame =
  fixes P :: "fsys \<Rightarrow> fsys \<Rightarrow> bool"
  assumes P_refl: "P f f"
    and P_trans: "P f g \<Longrightarrow> P g h \<Longrightarrow> P f h"
begin

lemma frame: "effect_frame (fs_rel P)"
  by unfold_locales (auto simp: fs_rel_def intro: P_refl P_trans)

lemma framed_syscall:
  "(\<And>f x f'. op f = Inr (x, f') \<Longrightarrow> P f f') \<Longrightarrow> framed (fs_rel P) (syscall op)"
  by (auto simp: framed_def fs_rel_def syscall_def Let_def P_refl
      split: option.splits sum.splits)

lemma framed_at_path:
  "(\<And>f x f'. op (resolve p) f = Inr (x, f') \<Longrightarrow> P f f') \<Longrightarrow> framed (fs_rel P) (at_path p op)"
  unfolding at_path_def by (rule framed_syscall) (auto split: if_splits)

lemma framed_stat: "framed (fs_rel P) (os_stat p)"
  unfolding os_stat_def
  by (rule framed_at_path) (auto simp: fs_stat_def P_refl split: option.splits)

lemma framed_read_file: "framed (fs_rel P) (os_read_file p)"
  unfolding os_read_file_def
  by (rule framed_at_path) (auto simp: fs_read_def P_refl split: option.splits node.splits)

lemma framed_read_dir: "framed (fs_rel P) (os_read_dir p)"
  unfolding os_read_dir_def
  by (rule framed_at_path) (auto simp: fs_read_dir_def P_refl split: option.splits node.splits)

lemma framed_close: "framed (fs_rel P) os_close"
  unfolding os_close_def by (rule framed_syscall) (auto simp: P_refl)

lemmas framed_reads = framed_stat framed_read_file framed_read_dir framed_close

lemmas frame_intros =
  effect_frame.framed_ret [OF frame] effect_frame.framed_throw [OF frame]
  effect_frame.framed_bindE [OF frame] effect_frame.framed_attempt [OF frame]
  effect_frame.framed_on_error [OF frame] effect_frame.framed_for_each [OF frame]
  effect_frame.framed_collect_errors [OF frame]

lemmas frame_elim = effect_frame.framed_elim [OF frame]

end

interpretation wf: fs_frame keeps_wf
  by unfold_locales (auto simp: keeps_wf_def)

interpretation only: fs_frame "changes_only S" for S
  by unfold_locales (auto simp: changes_only_def)

interpretation dirs: fs_frame adds_dirs
proof
  fix f g h assume "adds_dirs f g" "adds_dirs g h"
  then show "adds_dirs f h"
    unfolding adds_dirs_def is_dir_at_def by (metis option.distinct(1))
qed (simp add: adds_dirs_def)

lemma framed_read_dir_only_reads: "os_read_dir p w = (r, w') \<Longrightarrow> fs w' = fs w"
  by (auto simp: os_read_dir_def at_path_def syscall_def fs_read_dir_def Let_def
      split: option.splits sum.splits node.splits if_splits prod.splits)

lemma walk_fs:
  shows "fs (snd (walk_dir n fn p isd c w)) = fs w"
    and "fs (snd (walk_list n fn p es c w)) = fs w"
proof (induction n fn p isd c w and n fn p es c w rule: walk_dir_walk_list.induct)
  case (2 n fn path isd c w)
  then show ?case
    by (auto split: prod.splits sum.splits dest: framed_read_dir_only_reads)
next
  case (4 n fn path name isd es c w)
  obtain r c1 w1 where s: "walk_dir n fn (path_join [path, name]) isd c w = ((r, c1), w1)"
    by (metis surj_pair)
  with 4 show ?case by (cases "r = WContinue") auto
qed auto

lemma os_stat_fs: "os_stat p w = (r, w') \<Longrightarrow> fs w' = fs w"
  by (auto simp: os_stat_def at_path_def syscall_def fs_stat_def Let_def
      split: option.splits sum.splits if_splits prod.splits)

lemma path_walk_dir_fs: "path_walk_dir fn root c w = (r, w') \<Longrightarrow> fs w' = fs w"
proof -
  assume a: "path_walk_dir fn root c w = (r, w')"
  obtain r1 w1 where s: "os_stat root w = (r1, w1)" by (cases "os_stat root w")
  have f1: "fs w1 = fs w" using s by (rule os_stat_fs)
  have f2: "fs (snd (walk_dir n fn root isd c w1)) = fs w" for n isd by (simp add: walk_fs f1)
  show ?thesis
  proof (cases r1)
    case (Inl e)
    with a s f1 show ?thesis
      by (auto simp: path_walk_dir_def split: prod.splits walk_ctl.splits)
  next
    case (Inr nd)
    with a s show ?thesis
      using f2 [of "Suc (Suc (tree_depth (fs w)))" "is_dir_at (fs w) (resolve root)"]
      by (auto simp: path_walk_dir_def split: prod.splits walk_ctl.splits)
  qed
qed

context fs_frame
begin

lemma framed_walk: "framed (fs_rel P) (path_walk_dir fn root c)"
  unfolding framed_def fs_rel_def by (metis P_refl path_walk_dir_fs prod.collapse)

end

subsection \<open>The calls that write\<close>

lemma wf_framed_writes:
  "framed (fs_rel keeps_wf) (os_remove p)"
  "framed (fs_rel keeps_wf) (os_chmod p m)"
  "framed (fs_rel keeps_wf) (os_write p d)"
  unfolding os_remove_def os_chmod_def os_write_def
  by (rule wf.framed_at_path,
      auto simp: keeps_wf_def dest: fs_remove_wf fs_chmod_wf fs_write_wf)+

lemma wf_framed_create_temp: "framed (fs_rel keeps_wf) (os_create_temp d)"
proof -
  have "framed (fs_rel keeps_wf) (at_path d (fs_create_temp s))" for s
    by (rule wf.framed_at_path) (auto simp: keeps_wf_def dest: fs_create_temp_wf)
  then have "framed (fs_rel keeps_wf) (\<lambda>w. at_path d (fs_create_temp (seed w)) w)"
    unfolding framed_def by blast
  then show ?thesis unfolding os_create_temp_def by (intro wf.frame_intros)
qed

lemma wf_framed_rename:
  "plain_name (last (resolve new)) \<Longrightarrow> framed (fs_rel keeps_wf) (os_rename old new)"
  unfolding os_rename_def
  by (rule wf.framed_at_path) (auto simp: keeps_wf_def dest: fs_rename_wf)

lemma wf_framed_mkdir_all: "framed (fs_rel keeps_wf) (os_mkdir_all p perm)"
proof -
  have "framed (fs_rel keeps_wf) (syscall (fs_mkdir perm q))"
    if pre: "q \<in> set (path_prefixes (resolve p))" for q
  proof (rule wf.framed_syscall)
    fix f x f' assume "fs_mkdir perm q f = Inr (x, f')"
    moreover obtain i where "q = take i (resolve p)" "0 < i" "i \<le> length (resolve p)"
      using pre unfolding path_prefixes_def by fastforce
    then have "implicit_dir q \<or> plain_name (last q)" using resolve_prefix by blast
    ultimately show "keeps_wf f f'" by (auto simp: keeps_wf_def intro: fs_mkdir_wf)
  qed
  then show ?thesis by (auto simp: os_mkdir_all_def intro!: wf.frame_intros)
qed

lemma dirs_framed_mkdir_all: "framed (fs_rel adds_dirs) (os_mkdir_all p perm)"
proof -
  have "framed (fs_rel adds_dirs) (syscall (fs_mkdir perm q))" for q
  proof (rule dirs.framed_syscall)
    fix f x f' assume "fs_mkdir perm q f = Inr (x, f')"
    moreover have "\<not> implicit_dir q" if "fs_get f q = None" using that by auto
    ultimately show "adds_dirs f f'"
      by (auto simp: adds_dirs_def fs_mkdir_def fs_get_update is_dir_update
          split: option.splits node.splits if_splits)
  qed
  then show ?thesis by (auto simp: os_mkdir_all_def intro!: dirs.frame_intros)
qed

section \<open>Calls without injected faults\<close>

abbreviation quiet :: "'z os_scheme \<Rightarrow> bool" where "quiet w \<equiv> faults w = []"

lemma syscall_quiet:
  "quiet w \<Longrightarrow> syscall op w =
     (case op (fs w) of Inl e \<Rightarrow> (Inl (PathError e), w) | Inr (x, f') \<Rightarrow> (Inr x, w\<lparr>fs := f'\<rparr>))"
  by (auto simp: syscall_def next_fault_def split: sum.splits)

lemma at_path_quiet:
  "quiet w \<Longrightarrow> p \<noteq> [] \<Longrightarrow> at_path p op w =
     (case op (resolve p) (fs w) of
        Inl e \<Rightarrow> (Inl (PathError e), w) | Inr (x, f') \<Rightarrow> (Inr x, w\<lparr>fs := f'\<rparr>))"
  by (simp add: at_path_def syscall_quiet)

lemma os_stat_quiet:
  "quiet w \<Longrightarrow> p \<noteq> [] \<Longrightarrow> os_stat p w =
     (case fs_get (fs w) (resolve p) of
        None \<Rightarrow> (Inl (PathError (missing (fs w) (resolve p))), w) | Some n \<Rightarrow> (Inr n, w))"
  by (simp add: os_stat_def at_path_quiet fs_stat_def split: option.splits)

lemma os_read_file_quiet:
  "quiet w \<Longrightarrow> p \<noteq> [] \<Longrightarrow> file_content (fs w) (resolve p) = Some d \<Longrightarrow>
     os_read_file p w = (Inr d, w)"
  by (auto simp: os_read_file_def at_path_quiet fs_read_def file_content_def
      split: option.splits node.splits)

lemma os_read_file_missing:
  "quiet w \<Longrightarrow> p \<noteq> [] \<Longrightarrow> fs_get (fs w) (resolve p) = None \<Longrightarrow>
     os_read_file p w = (Inl (PathError (missing (fs w) (resolve p))), w)"
  by (simp add: os_read_file_def at_path_quiet fs_read_def)

lemma file_content_file:
  "file_content f p = Some d \<longleftrightarrow> (\<exists>m. fs_get f p = Some (FileN d m))"
  by (auto simp: file_content_def split: option.splits node.splits)

lemma os_remove_quiet:
  assumes "quiet w" "p \<noteq> []" "is_file_at (fs w) (resolve p)"
  shows "os_remove p w = (Inr (), w\<lparr>fs := AList.delete (resolve p) (fs w)\<rparr>)"
proof -
  obtain d m where g: "fs_get (fs w) (resolve p) = Some (FileN d m)"
    using assms(3) by (auto simp: is_file_at_def split: option.splits node.splits)
  then have "\<not> implicit_dir (resolve p)" by (rule is_file_not_implicit)
  with g show ?thesis using assms
    by (simp add: os_remove_def at_path_quiet fs_remove_def fs_get_def)
qed

text \<open>No call makes faults appear.\<close>

definition stays_quiet :: "'z os_scheme \<Rightarrow> 'z os_scheme \<Rightarrow> bool" where
  "stays_quiet w w' \<longleftrightarrow> (quiet w \<longrightarrow> quiet w')"

interpretation calm: effect_frame stays_quiet
  by unfold_locales (auto simp: stays_quiet_def)

lemma calm_syscall: "framed stays_quiet (syscall op)"
  by (auto simp: framed_def stays_quiet_def syscall_def Let_def split: option.splits sum.splits)

lemma calm_at_path: "framed stays_quiet (at_path p op)"
  by (simp add: at_path_def calm_syscall)

lemma calm_calls:
  "framed stays_quiet (os_stat p)" "framed stays_quiet (os_read_file p)"
  "framed stays_quiet (os_remove p)" "framed stays_quiet (os_chmod p m)"
  "framed stays_quiet (os_rename p q)" "framed stays_quiet (os_read_dir p)"
  "framed stays_quiet (os_write p d)" "framed stays_quiet os_close"
  by (simp_all add: os_stat_def os_read_file_def os_remove_def os_chmod_def os_rename_def
      os_read_dir_def os_write_def os_close_def calm_at_path calm_syscall)

lemma os_read_dir_quiet:
  "quiet w \<Longrightarrow> p \<noteq> [] \<Longrightarrow> is_dir_at (fs w) (resolve p) \<Longrightarrow>
     os_read_dir p w =
       (Inr (map (\<lambda>n. (n, is_dir_at (fs w) (resolve p @ [n]))) (dir_names (fs w) (resolve p))), w)"
  by (auto simp: os_read_dir_def at_path_quiet fs_read_dir_def is_dir_at_def
      split: option.splits node.splits)

section \<open>Walking a directory whose subdirectories are skipped\<close>

fun visit :: "'c walk_fn \<Rightarrow> string list \<Rightarrow> 'c \<Rightarrow> walk_ctl \<times> 'c" where
  "visit fn [] c = (WContinue, c)"
| "visit fn (p # ps) c =
     (case fn p False None c of (r, c1) \<Rightarrow> if r = WContinue then visit fn ps c1 else (r, c1))"

definition dir_files :: "fsys \<Rightarrow> fpath \<Rightarrow> string list" where
  "dir_files f d = filter (\<lambda>n. \<not> is_dir_at f (d @ [n])) (dir_names f d)"

lemma walk_list_shallow:
  assumes "\<And>n c. (n, True) \<in> set es \<Longrightarrow> fn (path_join [root, n]) True None c = (WSkipDir, c)"
    and "\<And>p c. fst (fn p False None c) \<noteq> WSkipDir"
  shows "walk_list (Suc k) fn root es c w =
     (visit fn (map (\<lambda>(n, _). path_join [root, n]) (filter (\<lambda>(n, isd). \<not> isd) es)) c, w)"
  using assms(1)
proof (induction es arbitrary: c)
  case (Cons e es)
  obtain n isd where e: "e = (n, isd)" by (cases e)
  show ?case
  proof (cases isd)
    case True
    with Cons e show ?thesis by simp
  next
    case False
    obtain r c1 where r: "fn (path_join [root, n]) False None c = (r, c1)" by fastforce
    then have "r \<noteq> WSkipDir" using assms(2) [of "path_join [root, n]" c] by simp
    with Cons e False r show ?thesis by (cases "r = WContinue") auto
  qed
qed simp

lemma filter_is_dir_map:
  "map (\<lambda>(n, _). path_join [root, n])
     (filter (\<lambda>(n, isd). \<not> isd) (map (\<lambda>n. (n, P n)) ns)) =
   map (\<lambda>n. path_join [root, n]) (filter (\<lambda>n. \<not> P n) ns)"
  by (induction ns) auto

lemma path_walk_shallow:
  assumes "quiet w" "root \<noteq> []" "is_dir_at (fs w) (resolve root)"
    and "fn root True None c = (WContinue, c)"
    and "\<And>n c. n \<in> set (dir_names (fs w) (resolve root)) \<Longrightarrow>
           fn (path_join [root, n]) True None c = (WSkipDir, c)"
    and "\<And>p c. fst (fn p False None c) \<noteq> WSkipDir"
  shows "path_walk_dir fn root c w =
     (case visit fn (map (\<lambda>n. path_join [root, n]) (dir_files (fs w) (resolve root))) c of
        (WErr e, c') \<Rightarrow> (Inl e, w) | (_, c') \<Rightarrow> (Inr c', w))"
proof -
  let ?ns = "dir_names (fs w) (resolve root)"
  let ?es = "map (\<lambda>n. (n, is_dir_at (fs w) (resolve root @ [n]))) ?ns"
  obtain m where "fs_get (fs w) (resolve root) = Some (DirN m)"
    using assms(3) by (auto simp: is_dir_at_def split: option.splits node.splits)
  then have st: "os_stat root w = (Inr (DirN m), w)"
    using assms(1,2) by (simp add: os_stat_quiet)
  have rd: "os_read_dir root w = (Inr ?es, w)"
    using assms(1,2,3) by (rule os_read_dir_quiet)
  have wl: "walk_list (Suc k) fn root ?es c w =
     (visit fn (map (\<lambda>n. path_join [root, n]) (dir_files (fs w) (resolve root))) c, w)" for k
    using walk_list_shallow [of ?es fn root k c w] assms(5,6)
    by (auto simp: filter_is_dir_map dir_files_def)
  show ?thesis
    by (simp add: path_walk_dir_def st rd assms(3,4) wl split: prod.splits)
qed

end
