(* ===== verification/Fileutils.thy ===== *)
theory Fileutils
  imports Go_Os_Facts
begin

text \<open>
  The package \<open>common/fileutils\<close>: atomic file writes through a temporary file and a rename,
  reading a file with the error logged away, and conversion of byte units. Logging has no
  effect on the state and is left out. The JSON helpers are in the theory of the JSON model.
\<close>

section \<open>Atomic writes\<close>

text \<open>What the deferred function of \<open>atomicWrite\<close> returns: the error so far, unless removing
  the temporary file fails for another reason than that it is gone.\<close>

definition outcome :: "go_error + 'a \<Rightarrow> ('s, 'a) io" where
  "outcome r = (case r of Inl e \<Rightarrow> throw e | Inr x \<Rightarrow> ret x)"

definition atomicWrite_body :: "string \<Rightarrow> string \<Rightarrow> string \<Rightarrow> nat \<Rightarrow> ('z os_scheme, unit) io" where
  "atomicWrite_body tmp path data filePerm =
     bindE (on_error (\<lambda>_. Errorf ''could not write to temporary file'') (os_write tmp data)) (\<lambda>_.
     bindE (on_error (\<lambda>_. Errorf ''could not close temporary file'') os_close) (\<lambda>_.
     bindE (on_error (\<lambda>_. Errorf ''could not rename temporary file'') (os_rename tmp path)) (\<lambda>_.
       if filePerm \<noteq> 0
       then on_error (\<lambda>_. Errorf ''could not set permissions on file'') (os_chmod path filePerm)
       else ret ())))"

definition atomicWrite :: "string \<Rightarrow> string \<Rightarrow> nat \<Rightarrow> ('z os_scheme, unit) io" where
  "atomicWrite path data filePerm =
     bindE (on_error (\<lambda>_. Errorf ''could not create temporary file'')
              (os_create_temp (path_dir path))) (\<lambda>tmp.
     attempt (atomicWrite_body tmp path data filePerm) (\<lambda>r.
     attempt os_close (\<lambda>_.
     attempt (os_remove tmp) (\<lambda>rm.
       case rm of
         Inl e \<Rightarrow> if os_is_not_exist e then outcome r
                 else throw (Errorf ''failed to remove temporary file'')
       | Inr _ \<Rightarrow> outcome r))))"

definition AtomicWrite :: "string \<Rightarrow> string \<Rightarrow> ('z os_scheme, unit) io" where
  "AtomicWrite path data = atomicWrite path data 0"

definition AtomicWriteWithPerm ::
    "string \<Rightarrow> string \<Rightarrow> nat \<Rightarrow> nat \<Rightarrow> ('z os_scheme, unit) io" where
  "AtomicWriteWithPerm path data dirPerm filePerm =
     bindE (on_error (\<lambda>_. Errorf ''could not create directory'')
              (os_mkdir_all (path_dir path) dirPerm))
       (\<lambda>_. atomicWrite path data filePerm)"

section \<open>Reading with the error logged\<close>

definition ReadFileLog :: "string \<Rightarrow> 'z os_scheme \<Rightarrow> string \<times> 'z os_scheme" where
  "ReadFileLog path w =
     (case os_read_file path w of
        (Inl _, w') \<Rightarrow> ([], w')
      | (Inr f, w') \<Rightarrow> (trim_space f, w'))"

definition ReadFileLogError :: "string \<Rightarrow> 'z os_scheme \<Rightarrow> string \<times> 'z os_scheme" where
  "ReadFileLogError path w = ReadFileLog path w"

section \<open>Byte units\<close>

text \<open>The generic functions at type \<open>int64\<close>: multiplication wraps, division truncates
  towards zero.\<close>

definition go_div :: "int \<Rightarrow> int \<Rightarrow> int" where
  "go_div a b = sgn a * sgn b * (\<bar>a\<bar> div \<bar>b\<bar>)"

definition ConvertUnitToBytes :: "string \<Rightarrow> int \<Rightarrow> int \<times> go_error option" where
  "ConvertUnitToBytes unit value =
     (let u = to_lower unit in
      if u = '''' \<or> u = ''b'' then (value, None)
      else if u = ''k'' \<or> u = ''kb'' \<or> u = ''kib'' then (wrap_i64 (value * 1024), None)
      else if u = ''m'' \<or> u = ''mb'' \<or> u = ''mib'' then
        (wrap_i64 (wrap_i64 (value * 1024) * 1024), None)
      else if u = ''g'' \<or> u = ''gb'' \<or> u = ''gib'' then
        (wrap_i64 (wrap_i64 (wrap_i64 (value * 1024) * 1024) * 1024), None)
      else if u = ''t'' \<or> u = ''tb'' \<or> u = ''tib'' then
        (wrap_i64 (wrap_i64 (wrap_i64 (wrap_i64 (value * 1024) * 1024) * 1024) * 1024), None)
      else (value, Some (Errorf ''unrecognized bytes unit'')))"

definition ConvertUnitToStandard :: "string \<Rightarrow> int \<Rightarrow> int \<times> go_error option" where
  "ConvertUnitToStandard unit value =
     (case ConvertUnitToBytes unit value of
        (v, Some e) \<Rightarrow> (v, Some e)
      | (v, None) \<Rightarrow> (go_div (go_div v 1024) 1024, None))"

text \<open>The factor the unit names stand for.\<close>

definition unit_scale :: "string \<Rightarrow> int option" where
  "unit_scale u =
     (if u \<in> {[], ''b''} then Some 1
      else if u \<in> {''k'', ''kb'', ''kib''} then Some (2 ^ 10)
      else if u \<in> {''m'', ''mb'', ''mib''} then Some (2 ^ 20)
      else if u \<in> {''g'', ''gb'', ''gib''} then Some (2 ^ 30)
      else if u \<in> {''t'', ''tb'', ''tib''} then Some (2 ^ 40) else None)"

section \<open>Facts\<close>

subsection \<open>Arithmetic\<close>

lemma wrap_i64_mult: "wrap_i64 (wrap_i64 a * b) = wrap_i64 (a * b)"
proof -
  have "wrap_i64 a mod 2 ^ 64 = a mod 2 ^ 64"
    by (simp add: wrap_i64_def mod_diff_left_eq)
  then have "(wrap_i64 a * b) mod 2 ^ 64 = (a * b) mod 2 ^ 64" by (metis mod_mult_left_eq)
  then have "(wrap_i64 a * b + 2 ^ 63) mod 2 ^ 64 = (a * b + 2 ^ 63) mod 2 ^ 64"
    by (metis mod_add_left_eq)
  then show ?thesis by (simp only: wrap_i64_def)
qed

lemma go_div_div: "go_div (go_div a 1024) 1024 = go_div a (2 ^ 20)"
proof -
  have z: "x div 1024 div 1024 = x div (2 ^ 20)" for x :: int
    by (simp add: zdiv_zmult2_eq [symmetric])
  consider "0 < a" | "a = 0" | "a < 0" by linarith
  then show ?thesis
  proof cases
    case 1
    moreover have "0 \<le> a div 1024" using 1 by simp
    ultimately show ?thesis using z [of a]
      by (cases "a div 1024 = 0") (simp_all add: go_div_def)
  next
    case 3
    moreover have "0 \<le> (- a) div 1024" using 3 by simp
    ultimately show ?thesis using z [of "- a"]
      by (cases "(- a) div 1024 = 0") (simp_all add: go_div_def)
  qed (simp add: go_div_def)
qed

subsection \<open>Outcomes of single calls\<close>

lemma syscall_cases:
  assumes "syscall op w = (r, w')"
  obtains e where "r = Inl (PathError e)" "fs w' = fs w"
  | x f' where "r = Inr x" "op (fs w) = Inr (x, f')" "fs w' = f'"
  using assms
  by (auto simp: syscall_def Let_def split: option.splits sum.splits)

lemma at_path_cases:
  assumes "at_path p op w = (r, w')"
  obtains e where "r = Inl (PathError e)" "fs w' = fs w"
  | x f' where "r = Inr x" "op (resolve p) (fs w) = Inr (x, f')" "fs w' = f'"
  using assms unfolding at_path_def
  by (cases "p = []") (auto elim!: syscall_cases)

lemma path_join_nonempty: "plain_name n \<Longrightarrow> path_join [d, n] \<noteq> []"
  by (auto simp: path_join2 plain_name_def)

lemma os_create_temp_cases:
  assumes "os_create_temp d w = (r, w')"
  obtains e where "r = Inl (PathError e)" "fs w' = fs w"
  | k where "r = Inr (path_join [d, temp_name k])" "is_dir_at (fs w) (resolve d)"
      "fs_get (fs w) (resolve d @ [temp_name k]) = None"
      "fs w' = AList.update (resolve d @ [temp_name k]) (FileN [] 384) (fs w)"
proof -
  obtain r1 w1 where a: "at_path d (fs_create_temp (seed w)) w = (r1, w1)" by fastforce
  then show thesis
  proof (cases rule: at_path_cases)
    case (1 e)
    with a assms that(1) show ?thesis by (auto simp: os_create_temp_def bindE_def)
  next
    case (2 n f1)
    then have "is_dir_at (fs w) (resolve d)" and fr: "fresh_temp (seed w) (resolve d) (fs w) = Some n"
      and "fs w1 = AList.update (resolve d @ [n]) (FileN [] 384) (fs w)"
      by (auto simp: fs_create_temp_def split: if_splits option.splits)
    moreover obtain k where "n = temp_name k" "fs_get (fs w) (resolve d @ [n]) = None"
      using fresh_temp_Some [OF fr] by blast
    ultimately show ?thesis
      using a assms 2 that(2) by (auto simp: os_create_temp_def bindE_def)
  qed
qed

subsection \<open>An atomic write without faults\<close>

definition not_temp :: "string \<Rightarrow> bool" where
  "not_temp n \<longleftrightarrow> \<not> has_suffix n ''.tmp''"

lemma not_temp_neq: "not_temp n \<Longrightarrow> n \<noteq> temp_name k"
proof -
  have "has_suffix (temp_name k) ''.tmp''"
    unfolding temp_name_def using has_suffix_append [of "''tmp-'' @ show_nat k" "''.tmp''"] by simp
  then show "not_temp n \<Longrightarrow> n \<noteq> temp_name k" by (auto simp: not_temp_def)
qed

lemma path_dir_nonempty [simp]: "path_dir p \<noteq> []"
  by (simp add: path_dir_def)

lemma os_create_temp_quiet:
  assumes "quiet w" "d \<noteq> []" "is_dir_at (fs w) (resolve d)"
  obtains k where "fs_get (fs w) (resolve d @ [temp_name k]) = None"
    "os_create_temp d w = (Inr (path_join [d, temp_name k]),
       w\<lparr>fs := AList.update (resolve d @ [temp_name k]) (FileN [] 384) (fs w)\<rparr>)"
proof -
  obtain n where fr: "fresh_temp (seed w) (resolve d) (fs w) = Some n"
    using fresh_temp_exists by fast
  from fresh_temp_Some [OF fr] obtain k where "n = temp_name k"
    "fs_get (fs w) (resolve d @ [n]) = None" by blast
  then show thesis using assms fr that
    by (simp add: os_create_temp_def bindE_def at_path_quiet fs_create_temp_def)
qed

text \<open>The mode a written file ends with: that of the temporary file, unless one is asked for.\<close>

definition file_mode :: "nat \<Rightarrow> nat" where
  "file_mode perm = (if perm = 0 then 384 else perm)"

text \<open>The states a fault-free atomic write passes through.\<close>

lemma atomicWrite_body_quiet:
  assumes "quiet w" "tmp \<noteq> []" "path \<noteq> []" "resolve tmp = T" "resolve path = Q" "T \<noteq> Q"
    and T: "fs_get (fs w) T = Some (FileN [] 384)"
    and Q: "\<not> is_dir_at (fs w) Q" "parent_is_dir (fs w) Q"
  shows "\<exists>f'. atomicWrite_body tmp path data perm w = (Inr (), w\<lparr>fs := f'\<rparr>) \<and>
     (\<forall>q. fs_get f' q = (if q = Q then Some (FileN data (file_mode perm)) else if q = T then None
        else fs_get (fs w) q))"
proof -
  have nT: "\<not> implicit_dir T" using T by (rule is_file_not_implicit)
  have nQ: "\<not> implicit_dir Q" using Q by auto
  let ?f2 = "AList.update T (FileN data 384) (fs w)"
  let ?f3 = "AList.update Q (FileN data 384) (AList.delete T ?f2)"
  let ?f4 = "if perm = 0 then ?f3 else AList.update Q (FileN data perm) ?f3"
  have wr: "os_write tmp data w = (Inr (), w\<lparr>fs := ?f2\<rparr>)"
    using assms by (simp add: os_write_def at_path_quiet fs_write_def)
  have cl: "os_close (w\<lparr>fs := ?f2\<rparr>) = (Inr (), w\<lparr>fs := ?f2\<rparr>)"
    using assms(1) by (simp add: os_close_def syscall_quiet)
  have "is_dir_at ?f2 Q = False" "parent_is_dir ?f2 Q"
    using Q nT T by (auto simp: parent_is_dir_def is_dir_update file_not_dir)
  then have rn: "os_rename tmp path (w\<lparr>fs := ?f2\<rparr>) = (Inr (), w\<lparr>fs := ?f3\<rparr>)"
    using assms nT by (simp add: os_rename_def at_path_quiet fs_rename_def fs_get_update)
  have ch: "perm \<noteq> 0 \<Longrightarrow> os_chmod path perm (w\<lparr>fs := ?f3\<rparr>) =
      (Inr (), w\<lparr>fs := AList.update Q (FileN data perm) ?f3\<rparr>)"
    using assms nQ by (simp add: os_chmod_def at_path_quiet fs_chmod_def AList.update_conv')
  have "atomicWrite_body tmp path data perm w = (Inr (), w\<lparr>fs := ?f4\<rparr>)"
    by (simp add: atomicWrite_body_def bindE_def on_error_def wr cl rn ch)
  moreover have "fs_get ?f4 q = (if q = Q then Some (FileN data (file_mode perm)) else if q = T then None
        else fs_get (fs w) q)" for q
    using nT nQ by (simp add: file_mode_def fs_get_update fs_get_delete)
  ultimately show ?thesis by blast
qed

lemma atomicWrite_quiet:
  assumes w: "quiet w" and n: "plain_name n" "not_temp n"
    and wf: "fs_wf (fs w)"
    and D: "is_dir_at (fs w) (resolve d)" "\<not> is_dir_at (fs w) (resolve d @ [n])"
  shows "\<exists>f'. atomicWrite (path_join [d, n]) data perm w = (Inr (), w\<lparr>fs := f'\<rparr>) \<and>
     (\<forall>q. fs_get f' q = (if q = resolve d @ [n] then Some (FileN data (file_mode perm)) else fs_get (fs w) q))"
proof -
  let ?p = "path_join [d, n]" and ?D = "resolve d"
  have rd: "resolve (path_dir ?p) = ?D" using n(1) by (rule path_dir_join_plain)
  obtain k where k: "fs_get (fs w) (?D @ [temp_name k]) = None"
    and ct: "os_create_temp (path_dir ?p) w = (Inr (path_join [path_dir ?p, temp_name k]),
       w\<lparr>fs := AList.update (?D @ [temp_name k]) (FileN [] 384) (fs w)\<rparr>)"
    using os_create_temp_quiet [OF w path_dir_nonempty, of ?p] D rd by auto
  define T where "T = ?D @ [temp_name k]"
  define tmp where "tmp = path_join [path_dir ?p, temp_name k]"
  define w1 where "w1 = w\<lparr>fs := AList.update T (FileN [] 384) (fs w)\<rparr>"
  have tmp: "tmp \<noteq> []" "resolve tmp = T"
    by (simp_all add: tmp_def T_def path_join_nonempty resolve_join_plain rd)
  have nT: "\<not> implicit_dir T" by (simp add: T_def)
  have TQ: "T \<noteq> ?D @ [n]" using not_temp_neq [OF n(2)] by (auto simp: T_def)
  have g1: "fs_get (fs w1) q = (if q = T then Some (FileN [] 384) else fs_get (fs w) q)" for q
    using nT by (simp add: w1_def fs_get_update)
  have "\<exists>f'. atomicWrite_body tmp ?p data perm w1 = (Inr (), w1\<lparr>fs := f'\<rparr>) \<and>
     (\<forall>q. fs_get f' q = (if q = ?D @ [n] then Some (FileN data (file_mode perm)) else if q = T then None
        else fs_get (fs w1) q))"
    using tmp n TQ D w g1
    by (intro atomicWrite_body_quiet)
       (auto simp: path_join_nonempty resolve_join_plain w1_def parent_is_dir_def is_dir_at_def T_def)
  then obtain f' where body: "atomicWrite_body tmp ?p data perm w1 = (Inr (), w1\<lparr>fs := f'\<rparr>)"
    and g: "\<And>q. fs_get f' q = (if q = ?D @ [n] then Some (FileN data (file_mode perm)) else if q = T then None
        else fs_get (fs w1) q)" by blast
  have dirs: "is_dir_at f' (take i ?D)" for i
    using wf_prefix_dir [OF wf D(1), of i] g1 g by (auto simp: is_dir_at_def T_def)
  have "missing f' T = ENOENT"
    unfolding T_def using dirs by (intro missing_ENOENT) simp
  moreover have "map_of f' T = None" using g [of T] TQ nT by (simp add: fs_get_def)
  ultimately have rm: "os_remove tmp (w\<lparr>fs := f'\<rparr>) = (Inl (PathError ENOENT), w\<lparr>fs := f'\<rparr>)"
    using w tmp nT by (simp add: os_remove_def at_path_quiet fs_remove_def)
  have "atomicWrite ?p data perm w = (Inr (), w\<lparr>fs := f'\<rparr>)"
    using ct body w rm
    by (simp add: atomicWrite_def bindE_def on_error_def attempt_def w1_def T_def tmp_def
        os_close_def syscall_quiet os_is_not_exist_def outcome_def)
  moreover have "fs_get f' q = (if q = ?D @ [n] then Some (FileN data (file_mode perm)) else fs_get (fs w) q)" for q
    using g g1 k by (auto simp: T_def)
  ultimately show ?thesis by blast
qed

subsection \<open>Atomicity under arbitrary faults\<close>

text \<open>
  \<open>replaced Q D data f f'\<close>: between the two file systems only the target \<open>Q\<close> and temporary
  files of the directory \<open>D\<close> differ, and the target has either its old state or the whole
  new content.
\<close>

definition replaced :: "fpath \<Rightarrow> fpath \<Rightarrow> string \<Rightarrow> fsys \<Rightarrow> fsys \<Rightarrow> bool" where
  "replaced Q D data f f' \<longleftrightarrow>
     (\<forall>q. fs_get f' q = fs_get f q \<or> (q = Q \<and> (\<exists>m. fs_get f' q = Some (FileN data m)))
        \<or> (\<exists>k. q = D @ [temp_name k]))"

interpretation repl: fs_frame "replaced Q D data" for Q D data
proof
  fix f g h assume "replaced Q D data f g" "replaced Q D data g h"
  then show "replaced Q D data f h" unfolding replaced_def by metis
qed (simp add: replaced_def)

lemma replaced_temp:
  "\<not> implicit_dir (D @ [temp_name k]) \<Longrightarrow>
     replaced Q D data f (AList.update (D @ [temp_name k]) v f)"
  "\<not> implicit_dir (D @ [temp_name k]) \<Longrightarrow>
     replaced Q D data f (AList.delete (D @ [temp_name k]) f)"
  by (auto simp: replaced_def fs_get_update fs_get_delete)

lemma repl_write: "resolve tmp = D @ [temp_name k] \<Longrightarrow> framed (fs_rel (replaced Q D data)) (os_write tmp d)"
  unfolding os_write_def
  by (rule repl.framed_at_path)
     (auto simp: fs_write_def intro!: replaced_temp split: option.splits node.splits)

lemma repl_remove: "resolve tmp = D @ [temp_name k] \<Longrightarrow> framed (fs_rel (replaced Q D data)) (os_remove tmp)"
  unfolding os_remove_def
  by (rule repl.framed_at_path)
     (auto simp: fs_remove_def intro!: replaced_temp split: option.splits node.splits if_splits)

lemma repl_create:
  assumes "resolve d = D"
  shows "framed (fs_rel (replaced Q D data)) (os_create_temp d)"
  unfolding framed_def fs_rel_def
proof
  fix w :: "'z os_scheme"
  obtain r w' where e: "os_create_temp d w = (r, w')" by fastforce
  then have "replaced Q D data (fs w) (fs w')"
    by (cases rule: os_create_temp_cases) (use assms in \<open>auto intro: repl.P_refl replaced_temp\<close>)
  with e show "replaced Q D data (fs w) (fs (snd (os_create_temp d w)))" by simp
qed

text \<open>Once the temporary file holds the data, renaming it and setting its mode keep the
  relation.\<close>

lemma repl_rename:
  assumes "os_rename tmp path w = (r, w')" "resolve tmp = D @ [temp_name k]" "resolve path = Q"
    "fs_get (fs w) (D @ [temp_name k]) = Some (FileN data m)" "Q \<noteq> D @ [temp_name k]"
  shows "replaced Q D data (fs w) (fs w')"
    and "r = Inr () \<Longrightarrow> fs_get (fs w') Q = Some (FileN data m) \<and> \<not> implicit_dir Q"
proof -
  have cases: "fs w' = fs w \<and> r \<noteq> Inr () \<or>
      (fs w' = AList.update Q (FileN data m) (AList.delete (D @ [temp_name k]) (fs w)) \<and>
       \<not> implicit_dir Q)"
    using assms unfolding os_rename_def
    by (elim at_path_cases) (auto simp: fs_rename_def split: if_splits)
  then show "replaced Q D data (fs w) (fs w')"
    by (auto simp: replaced_def fs_get_update fs_get_delete split: if_splits)
  show "fs_get (fs w') Q = Some (FileN data m) \<and> \<not> implicit_dir Q" if "r = Inr ()"
    using cases that by (auto simp: fs_get_update)
qed

lemma repl_chmod:
  assumes "os_chmod path p w = (r, w')" "resolve path = Q"
    "fs_get (fs w) Q = Some (FileN data m)"
  shows "\<exists>m'. fs_get (fs w') Q = Some (FileN data m')"
    and "replaced Q D data (fs w) (fs w')"
proof -
  have nQ: "\<not> implicit_dir Q" using assms(3) by (rule is_file_not_implicit)
  then have "map_of (fs w) Q = Some (FileN data m)" using assms(3) by (simp add: fs_get_def)
  then have cases: "fs w' = fs w \<or> fs w' = AList.update Q (FileN data p) (fs w)"
    using assms nQ unfolding os_chmod_def by (elim at_path_cases) (auto simp: fs_chmod_def)
  then show "\<exists>m'. fs_get (fs w') Q = Some (FileN data m')"
    using assms(3) nQ by (auto simp: fs_get_update)
  show "replaced Q D data (fs w) (fs w')"
    using cases nQ by (auto simp: replaced_def fs_get_update)
qed

lemma os_write_content:
  "os_write p d w = (Inr x, w') \<Longrightarrow> \<exists>m. fs_get (fs w') (resolve p) = Some (FileN d m)"
  unfolding os_write_def
  by (erule at_path_cases) (auto dest: fs_write_get)

lemma atomicWrite_body_atomic:
  assumes b: "atomicWrite_body tmp path data perm w = (r, w')"
    and tmp: "resolve tmp = D @ [temp_name k]" and path: "resolve path = Q"
    and ne: "Q \<noteq> D @ [temp_name k]"
  shows "replaced Q D data (fs w) (fs w') \<and>
     (r = Inr () \<longrightarrow> (\<exists>m. fs_get (fs w') Q = Some (FileN data m)))"
proof -
  let ?R = "\<lambda>u v :: 'a os_scheme. replaced Q D data (fs u) (fs v)"
  obtain r1 w1 where w1: "os_write tmp data w = (r1, w1)" by fastforce
  have R1: "?R w w1" using repl.frame_elim [OF repl_write [OF tmp] w1] by (simp add: fs_rel_def)
  obtain r2 w2 where w2: "os_close w1 = (r2, w2)" by fastforce
  have f2: "fs w2 = fs w1" using w2 unfolding os_close_def by (elim syscall_cases) auto
  obtain r3 w3 where w3: "os_rename tmp path w2 = (r3, w3)" by fastforce
  obtain r4 w4 where w4: "os_chmod path perm w3 = (r4, w4)" by fastforce
  show ?thesis
  proof (cases r1)
    case (Inl e)
    with b w1 R1 show ?thesis by (auto simp: atomicWrite_body_def bindE_def on_error_def)
  next
    case i1: (Inr u1)
    then obtain m where m: "fs_get (fs w2) (D @ [temp_name k]) = Some (FileN data m)"
      using os_write_content w1 tmp f2 by metis
    have R3: "?R w w3" using repl_rename(1) [OF w3 tmp path m ne] R1 f2 repl.P_trans by metis
    have c3: "r3 = Inr () \<Longrightarrow> fs_get (fs w3) Q = Some (FileN data m)"
      using repl_rename(2) [OF w3 tmp path m ne] by blast
    show ?thesis
    proof (cases "r2 \<noteq> Inr () \<or> r3 \<noteq> Inr ()")
      case True
      with b w1 w2 w3 i1 R1 R3 f2 show ?thesis
        by (auto simp: atomicWrite_body_def bindE_def on_error_def split: sum.splits)
    next
      case False
      then have i23: "r2 = Inr ()" "r3 = Inr ()" by auto
      have R4: "?R w w4" "\<exists>m'. fs_get (fs w4) Q = Some (FileN data m')"
        using repl_chmod [OF w4 path c3 [OF i23(2)]] R3 repl.P_trans by metis+
      show ?thesis using b w1 w2 w3 w4 i1 i23 R3 R4 c3
        by (cases r4; cases "perm = 0")
           (auto simp: atomicWrite_body_def bindE_def on_error_def)
    qed
  qed
qed

lemma atomicWrite_atomic:
  assumes "plain_name n" "not_temp n"
    and a: "atomicWrite (path_join [d, n]) data perm w = (r, w')"
  shows "replaced (resolve d @ [n]) (resolve d) data (fs w) (fs w')"
    and "r = Inr () \<Longrightarrow> \<exists>m. fs_get (fs w') (resolve d @ [n]) = Some (FileN data m)"
proof -
  let ?p = "path_join [d, n]" and ?D = "resolve d" and ?Q = "resolve d @ [n]"
  let ?R = "\<lambda>u v :: 'a os_scheme. replaced ?Q ?D data (fs u) (fs v)"
  have rd: "resolve (path_dir ?p) = ?D" using assms(1) by (rule path_dir_join_plain)
  obtain r1 w1 where w1: "os_create_temp (path_dir ?p) w = (r1, w1)" by fastforce
  have R1: "?R w w1" using repl.frame_elim [OF repl_create [OF rd] w1] by (simp add: fs_rel_def)
  have "?R w w' \<and> (r = Inr () \<longrightarrow> (\<exists>m. fs_get (fs w') ?Q = Some (FileN data m)))"
  proof (cases r1)
    case (Inl e)
    with a w1 R1 show ?thesis by (auto simp: atomicWrite_def bindE_def on_error_def)
  next
    case (Inr tmp)
    with w1 rd obtain k where t: "tmp = path_join [path_dir ?p, temp_name k]"
      by (auto elim: os_create_temp_cases)
    then have tmp: "resolve tmp = ?D @ [temp_name k]" by (simp add: resolve_join_plain rd)
    have ne: "?Q \<noteq> ?D @ [temp_name k]" using not_temp_neq [OF assms(2)] by simp
    obtain r2 w2 where w2: "atomicWrite_body tmp ?p data perm w1 = (r2, w2)" by fastforce
    obtain r3 w3 where w3: "os_close w2 = (r3, w3)" by fastforce
    obtain r4 w4 where w4: "os_remove tmp w3 = (r4, w4)" by fastforce
    have b: "?R w1 w2" "r2 = Inr () \<longrightarrow> (\<exists>m. fs_get (fs w2) ?Q = Some (FileN data m))"
      using atomicWrite_body_atomic [OF w2 tmp resolve_join_plain [OF assms(1)] ne] by auto
    have f3: "fs w3 = fs w2" using w3 unfolding os_close_def by (elim syscall_cases) auto
    have "fs_get (fs w4) ?Q = fs_get (fs w3) ?Q"
      using w4 ne tmp unfolding os_remove_def
      by (elim at_path_cases) (auto dest!: fs_remove_get)
    moreover have "?R w3 w4"
      using repl.frame_elim [OF repl_remove [OF tmp] w4] by (simp add: fs_rel_def)
    moreover have "w' = w4 \<and> (r = Inr () \<longrightarrow> r2 = Inr ())"
      using a w1 Inr w2 w3 w4
      by (auto simp: atomicWrite_def bindE_def on_error_def attempt_def outcome_def
          split: sum.splits if_splits)
    ultimately show ?thesis using R1 b f3 repl.P_trans by metis
  qed
  then show "?R w w'" and "r = Inr () \<Longrightarrow> \<exists>m. fs_get (fs w') ?Q = Some (FileN data m)" by auto
qed

lemma wf_framed_atomicWrite:
  assumes "plain_name n"
  shows "framed (fs_rel keeps_wf) (atomicWrite (path_join [d, n]) data perm)"
proof -
  have "plain_name (last (resolve (path_join [d, n])))"
    using assms by (simp add: resolve_join_plain)
  then show ?thesis
    unfolding atomicWrite_def atomicWrite_body_def outcome_def
    by (auto intro!: wf.frame_intros wf_framed_create_temp wf_framed_writes wf_framed_rename
        wf.framed_reads split: sum.splits)
qed

subsection \<open>Creating the directory first\<close>

text \<open>A directory path that can be made: no file stands in its way.\<close>

definition creatable :: "fsys \<Rightarrow> fpath \<Rightarrow> bool" where
  "creatable f p \<longleftrightarrow> (\<forall>i. \<not> is_file_at f (take i p))"

lemma creatable_code [code]:
  "creatable f p \<longleftrightarrow> list_all (\<lambda>i. \<not> is_file_at f (take i p)) [0..<Suc (length p)]"
  unfolding creatable_def list_all_iff
  by (auto simp: less_Suc_eq_le) (metis linear take_all_iff order_refl)

lemma dir_not_file: "is_dir_at f p \<Longrightarrow> \<not> is_file_at f p"
  by (auto simp: is_file_at_def is_dir_at_def split: option.splits node.splits)

lemma dir_or_missing: "\<not> is_file_at f p \<Longrightarrow> is_dir_at f p \<or> fs_get f p = None"
  by (auto simp: is_file_at_def is_dir_at_def split: option.splits node.splits)

lemma fs_mkdir_creatable:
  assumes "\<not> is_file_at f q" "parent_is_dir f q"
  shows "\<exists>f'. fs_mkdir perm q f = Inr ((), f') \<and> is_dir_at f' q \<and> adds_dirs f f' \<and>
    (\<forall>p. p \<noteq> q \<longrightarrow> fs_get f' p = fs_get f p)"
proof (cases "is_dir_at f q")
  case True
  then have "fs_mkdir perm q f = Inr ((), f)"
    by (auto simp: is_dir_at_def fs_mkdir_def split: option.splits node.splits)
  with True show ?thesis by (auto intro: dirs.P_refl)
next
  case False
  then have n: "fs_get f q = None" using assms(1) dir_or_missing by blast
  then have i: "\<not> implicit_dir q" by auto
  have "fs_mkdir perm q f = Inr ((), AList.update q (DirN perm) f)"
    using n assms(2) by (simp add: fs_mkdir_def)
  with n i show ?thesis
    by (auto simp: adds_dirs_def fs_get_update is_dir_update)
qed

lemma mkdir_prefixes_quiet:
  assumes "quiet w" "creatable (fs w) p" "i \<le> length p"
    "is_dir_at (fs w) (take i p)"
  shows "\<exists>f'. for_each (\<lambda>q. syscall (fs_mkdir perm q)) (map (\<lambda>i. take i p) [Suc i..<Suc (length p)]) w
      = (Inr (), w\<lparr>fs := f'\<rparr>) \<and> is_dir_at f' p \<and> adds_dirs (fs w) f' \<and>
      (\<forall>q. q \<notin> range (\<lambda>i. take i p) \<longrightarrow> fs_get f' q = fs_get (fs w) q)"
  using assms
proof (induction "length p - i" arbitrary: i w)
  case 0
  then show ?case by (auto intro!: exI [of _ "fs w"] dirs.P_refl)
next
  case (Suc k)
  let ?q = "take (Suc i) p"
  from Suc have i: "i < length p" by simp
  then have e: "[Suc i..<Suc (length p)] = Suc i # [Suc (Suc i)..<Suc (length p)]"
    by (simp add: upt_conv_Cons)
  have "butlast ?q = take i p" using i by (simp add: butlast_take)
  then have "parent_is_dir (fs w) ?q" using Suc.prems by (simp add: parent_is_dir_def)
  moreover have "\<not> is_file_at (fs w) ?q" using Suc.prems(2) by (auto simp: creatable_def)
  ultimately obtain f1 where f1: "fs_mkdir perm ?q (fs w) = Inr ((), f1)" "is_dir_at f1 ?q"
    "adds_dirs (fs w) f1" "\<forall>p. p \<noteq> ?q \<longrightarrow> fs_get f1 p = fs_get (fs w) p"
    using fs_mkdir_creatable by blast
  have c1: "creatable f1 p"
    unfolding creatable_def
  proof
    fix j
    show "\<not> is_file_at f1 (take j p)"
      using Suc.prems(2) f1(2,4) dir_not_file [of f1]
      by (cases "take j p = ?q") (auto simp: creatable_def is_file_at_def)
  qed
  have "\<exists>f'. for_each (\<lambda>q. syscall (fs_mkdir perm q))
       (map (\<lambda>i. take i p) [Suc (Suc i)..<Suc (length p)]) (w\<lparr>fs := f1\<rparr>)
      = (Inr (), w\<lparr>fs := f1\<rparr>\<lparr>fs := f'\<rparr>) \<and> is_dir_at f' p \<and> adds_dirs f1 f' \<and>
      (\<forall>q. q \<notin> range (\<lambda>i. take i p) \<longrightarrow> fs_get f' q = fs_get f1 q)"
    using Suc.hyps(1) [of "Suc i" "w\<lparr>fs := f1\<rparr>"] Suc.hyps(2) Suc.prems c1 i f1(2) by simp
  then obtain f' where f': "for_each (\<lambda>q. syscall (fs_mkdir perm q))
       (map (\<lambda>i. take i p) [Suc (Suc i)..<Suc (length p)]) (w\<lparr>fs := f1\<rparr>)
      = (Inr (), w\<lparr>fs := f'\<rparr>)" "is_dir_at f' p" "adds_dirs f1 f'"
      "\<forall>q. q \<notin> range (\<lambda>i. take i p) \<longrightarrow> fs_get f' q = fs_get f1 q" by auto
  have "syscall (fs_mkdir perm ?q) w = (Inr (), w\<lparr>fs := f1\<rparr>)"
    using Suc.prems(1) f1(1) by (simp add: syscall_quiet)
  then have "for_each (\<lambda>q. syscall (fs_mkdir perm q))
      (map (\<lambda>i. take i p) [Suc i..<Suc (length p)]) w = (Inr (), w\<lparr>fs := f'\<rparr>)"
    using f'(1) by (simp only: e list.map for_each.simps bindE_Inr)
  moreover have "\<forall>q. q \<notin> range (\<lambda>i. take i p) \<longrightarrow> fs_get f' q = fs_get (fs w) q"
    using f'(4) f1(4) by (metis rangeI)
  ultimately show ?case using f'(2) dirs.P_trans [OF f1(3) f'(3)] by blast
qed

lemma os_mkdir_all_quiet:
  assumes "quiet w" "d \<noteq> []" "creatable (fs w) (resolve d)"
  shows "\<exists>f'. os_mkdir_all d perm w = (Inr (), w\<lparr>fs := f'\<rparr>) \<and> is_dir_at f' (resolve d) \<and>
    adds_dirs (fs w) f' \<and>
    (\<forall>q. q \<notin> range (\<lambda>i. take i (resolve d)) \<longrightarrow> fs_get f' q = fs_get (fs w) q)"
  using mkdir_prefixes_quiet [of w "resolve d" 0 perm] assms
  by (simp add: os_mkdir_all_def path_prefixes_def)

lemma adds_dirs_content:
  assumes "adds_dirs f f'"
  shows "file_content f' q = file_content f q"
proof (cases "fs_get f' q = fs_get f q")
  case True
  then show ?thesis by (simp add: file_content_def)
next
  case False
  then have "fs_get f q = None" "is_dir_at f' q" using assms by (auto simp: adds_dirs_def)
  then show ?thesis
    by (auto simp: file_content_def is_dir_at_def split: option.splits node.splits)
qed

lemma replaced_content:
  assumes "replaced Q D data f f'" "\<And>k. q \<noteq> D @ [temp_name k]"
  shows "file_content f' q = file_content f q \<or> q = Q \<and> file_content f' q = Some data"
  using assms unfolding replaced_def file_content_def by (metis node.case(2) option.case(2))

lemma AtomicWriteWithPerm_result:
  assumes n: "plain_name n" "not_temp n"
    and a: "AtomicWriteWithPerm (path_join [d, n]) data dp fp w = (r, w')"
  shows "r = Inr () \<Longrightarrow> file_content (fs w') (resolve d @ [n]) = Some data"
    and "(\<And>k. q \<noteq> resolve d @ [temp_name k]) \<Longrightarrow> file_content (fs w') q = file_content (fs w) q \<or>
      q = resolve d @ [n] \<and> file_content (fs w') q = Some data"
    and "fs_wf (fs w) \<Longrightarrow> fs_wf (fs w')"
proof -
  let ?mk = "os_mkdir_all (path_dir (path_join [d, n])) dp"
  obtain r1 w1 where m: "?mk w = (r1, w1)" by fastforce
  have d1: "adds_dirs (fs w) (fs w1)"
    using dirs.frame_elim [OF dirs_framed_mkdir_all m] by (simp add: fs_rel_def)
  have k1: "fs_wf (fs w) \<Longrightarrow> fs_wf (fs w1)"
    using wf.frame_elim [OF wf_framed_mkdir_all m] by (simp add: fs_rel_def keeps_wf_def)
  have c1: "file_content (fs w1) p = file_content (fs w) p" for p
    using d1 by (rule adds_dirs_content)
  have "(r = Inr () \<longrightarrow> file_content (fs w') (resolve d @ [n]) = Some data) \<and>
    ((\<forall>k. q \<noteq> resolve d @ [temp_name k]) \<longrightarrow> file_content (fs w') q = file_content (fs w) q \<or>
      q = resolve d @ [n] \<and> file_content (fs w') q = Some data) \<and>
    (fs_wf (fs w) \<longrightarrow> fs_wf (fs w'))"
  proof (cases r1)
    case (Inl e)
    with a m c1 k1 show ?thesis
      by (auto simp: AtomicWriteWithPerm_def bindE_def on_error_def)
  next
    case (Inr u)
    with a m have w: "atomicWrite (path_join [d, n]) data fp w1 = (r, w')"
      by (simp add: AtomicWriteWithPerm_def bindE_def on_error_def)
    have "fs_wf (fs w1) \<Longrightarrow> fs_wf (fs w')"
      using wf.frame_elim [OF wf_framed_atomicWrite [OF n(1)] w]
      by (simp add: fs_rel_def keeps_wf_def)
    with atomicWrite_atomic [OF n w] replaced_content k1 c1 show ?thesis
      by (metis file_content_file)
  qed
  then show "r = Inr () \<Longrightarrow> file_content (fs w') (resolve d @ [n]) = Some data"
    and "(\<And>k. q \<noteq> resolve d @ [temp_name k]) \<Longrightarrow> file_content (fs w') q = file_content (fs w) q \<or>
      q = resolve d @ [n] \<and> file_content (fs w') q = Some data"
    and "fs_wf (fs w) \<Longrightarrow> fs_wf (fs w')" by auto
qed

lemma AtomicWriteWithPerm_quiet:
  assumes w: "quiet w" and n: "plain_name n" "not_temp n" and wf: "fs_wf (fs w)"
    and c: "creatable (fs w) (resolve d)" and t: "\<not> is_dir_at (fs w) (resolve d @ [n])"
  shows "\<exists>f'. AtomicWriteWithPerm (path_join [d, n]) data dp fp w = (Inr (), w\<lparr>fs := f'\<rparr>)"
proof -
  let ?d = "path_dir (path_join [d, n])"
  have rd: "resolve ?d = resolve d" using n(1) by (rule path_dir_join_plain)
  obtain f1 where m: "os_mkdir_all ?d dp w = (Inr (), w\<lparr>fs := f1\<rparr>)"
    and f1: "is_dir_at f1 (resolve d)" "adds_dirs (fs w) f1"
    "\<forall>q. q \<notin> range (\<lambda>i. take i (resolve d)) \<longrightarrow> fs_get f1 q = fs_get (fs w) q"
    using os_mkdir_all_quiet [of w ?d dp] w c rd by auto
  have "fs_get f1 (resolve d @ [n]) = fs_get (fs w) (resolve d @ [n])"
    using f1(3) by (metis (no_types, lifting) imageE take_neq_snoc)
  then have "\<not> is_dir_at f1 (resolve d @ [n])" using t by (simp add: is_dir_at_def)
  moreover have "fs_wf f1"
    using wf.frame_elim [OF wf_framed_mkdir_all m] wf by (simp add: fs_rel_def keeps_wf_def)
  ultimately obtain f' where "atomicWrite (path_join [d, n]) data fp (w\<lparr>fs := f1\<rparr>) =
      (Inr (), w\<lparr>fs := f'\<rparr>)"
    using atomicWrite_quiet [of "w\<lparr>fs := f1\<rparr>" n d data fp] w n f1(1) by auto
  with m have "AtomicWriteWithPerm (path_join [d, n]) data dp fp w = (Inr (), w\<lparr>fs := f'\<rparr>)"
    by (simp add: AtomicWriteWithPerm_def bindE_def on_error_def)
  then show ?thesis by blast
qed

section \<open>Properties\<close>



text \<open>Converting a unit to bytes scales by the power of 1024 the unit stands for, without
  regard to case and wrapping as 64-bit arithmetic does, so an amount that fits is exact; an
  unknown unit is an error and leaves the value. The standard unit is the mebibyte, rounded
  towards zero.\<close>

theorem ConvertUnit_scales:
  assumes "in_i64 v"
  shows "(case unit_scale (to_lower u) of
      Some k \<Rightarrow> ConvertUnitToBytes u v = (wrap_i64 (v * k), None) \<and>
        ConvertUnitToStandard u v = (go_div (wrap_i64 (v * k)) (2 ^ 20), None)
    | None \<Rightarrow> (\<exists>e. ConvertUnitToBytes u v = (v, Some e) \<and> ConvertUnitToStandard u v = (v, Some e)))"
proof -
  have b: "case unit_scale (to_lower u) of
      Some k \<Rightarrow> ConvertUnitToBytes u v = (wrap_i64 (v * k), None)
    | None \<Rightarrow> ConvertUnitToBytes u v = (v, Some (Errorf ''unrecognized bytes unit''))"
    using assms by (auto simp: ConvertUnitToBytes_def unit_scale_def Let_def wrap_i64_id wrap_i64_mult mult.assoc)
  then show ?thesis
    by (auto simp: ConvertUnitToStandard_def go_div_div split: option.splits)
qed

theorem ConvertUnit_scales_witness:
  "ConvertUnitToBytes ''GiB'' 3 = (3221225472, None) \<and> ConvertUnitToStandard ''GiB'' 3 = (3072, None)"
proof -
  have "unit_scale (to_lower ''GiB'') = Some (2 ^ 30)" "in_i64 3"
    "wrap_i64 (3 * 2 ^ 30) = 3221225472" "go_div 3221225472 (2 ^ 20) = 3072" by code_simp+
  then show ?thesis using ConvertUnit_scales [of 3 "''GiB''"] by simp
qed

end
