(* ===== verification/Go_Json.thy ===== *)
theory Go_Json
  imports Go_Strings
begin

text \<open>
  The part of Go's \<open>encoding/json\<close> that the components rely on: the grammar that
  \<open>json.Valid\<close> and \<open>json.Unmarshal\<close> accept, as a recursive-descent reader, and look-up in a
  decoded object. Numbers keep their literal text. White space, string escapes (including
  surrogate pairs), control characters and the nesting limit of 10000 are those of Go;
  replacement of ill-formed UTF-8 in strings is not modelled.
\<close>

section \<open>Values and tokens\<close>

datatype json =
    JNull
  | JBool bool
  | JNum string
  | JStr string
  | JArr "json list"
  | JObj "(string \<times> json) list"

definition json_space :: "char \<Rightarrow> bool" where
  "json_space c = (c \<in> {CHR '' '', CHR 0x09, CHR 0x0A, CHR 0x0D})"

definition skip_ws :: "string \<Rightarrow> string" where
  "skip_ws s = dropWhile json_space s"

definition hex_val :: "char \<Rightarrow> nat option" where
  "hex_val c =
     (let n = of_char c :: nat in
      if 48 \<le> n \<and> n \<le> 57 then Some (n - 48)
      else if 97 \<le> n \<and> n \<le> 102 then Some (n - 87)
      else if 65 \<le> n \<and> n \<le> 70 then Some (n - 55)
      else None)"

definition hex4 :: "string \<Rightarrow> (nat \<times> string) option" where
  "hex4 s =
     (case s of
        a # b # c # d # rest \<Rightarrow>
          (case (hex_val a, hex_val b, hex_val c, hex_val d) of
             (Some w, Some x, Some y, Some z) \<Rightarrow> Some (((w * 16 + x) * 16 + y) * 16 + z, rest)
           | _ \<Rightarrow> None)
      | _ \<Rightarrow> None)"

definition utf8 :: "nat \<Rightarrow> string" where
  "utf8 r =
     (if r < 128 then [char_of r]
      else if r < 2048 then [char_of (192 + r div 64), char_of (128 + r mod 64)]
      else if r < 65536 then
        [char_of (224 + r div 4096), char_of (128 + r div 64 mod 64), char_of (128 + r mod 64)]
      else [char_of (240 + r div 262144), char_of (128 + r div 4096 mod 64),
            char_of (128 + r div 64 mod 64), char_of (128 + r mod 64)])"

text \<open>The rune of a \<open>\u\<close> escape whose first four digits are read: a high surrogate takes a
  following low one, a lone surrogate becomes U+FFFD.\<close>

definition escape_rune :: "nat \<Rightarrow> string \<Rightarrow> nat \<times> string" where
  "escape_rune r rest =
     (if 0xD800 \<le> r \<and> r < 0xE000 then
        (case rest of
           b # u # more \<Rightarrow>
             (if r < 0xDC00 \<and> b = CHR 0x5C \<and> u = CHR ''u'' then
                (case hex4 more of
                   Some (lo, rest') \<Rightarrow>
                     if 0xDC00 \<le> lo \<and> lo < 0xE000
                     then (0x10000 + (r - 0xD800) * 1024 + (lo - 0xDC00), rest')
                     else (0xFFFD, rest)
                 | None \<Rightarrow> (0xFFFD, rest))
              else (0xFFFD, rest))
         | _ \<Rightarrow> (0xFFFD, rest))
      else (r, rest))"

definition simple_escape :: "char \<Rightarrow> char option" where
  "simple_escape e =
     (if e = CHR 0x22 then Some (CHR 0x22) else if e = CHR 0x5C then Some (CHR 0x5C)
      else if e = CHR ''/'' then Some (CHR ''/'') else if e = CHR ''b'' then Some (CHR 0x08)
      else if e = CHR ''f'' then Some (CHR 0x0C) else if e = CHR ''n'' then Some (CHR 0x0A)
      else if e = CHR ''r'' then Some (CHR 0x0D) else if e = CHR ''t'' then Some (CHR 0x09)
      else None)"

lemma hex4_shorter: "hex4 s = Some (n, rest) \<Longrightarrow> length rest < length s"
  by (auto simp: hex4_def split: list.splits option.splits)

lemma escape_rune_shorter: "escape_rune r rest = (n, rest') \<Longrightarrow> length rest' \<le> length rest"
  by (auto simp: escape_rune_def split: list.splits option.splits if_splits
      dest!: hex4_shorter)

text \<open>The rest of a string literal after its opening quote.\<close>

function read_string :: "string \<Rightarrow> (string \<times> string) option" where
  "read_string s =
     (case s of
        [] \<Rightarrow> None
      | c # cs \<Rightarrow>
         if c = CHR 0x22 then Some ([], cs)
         else if c = CHR 0x5C then
           (case cs of
              [] \<Rightarrow> None
            | e # es \<Rightarrow>
               if e = CHR ''u'' then
                 (case hex4 es of
                    None \<Rightarrow> None
                  | Some (r, rest) \<Rightarrow>
                     (case escape_rune r rest of (rune, rest') \<Rightarrow>
                        map_option (apfst ((@) (utf8 rune))) (read_string rest')))
               else
                 (case simple_escape e of
                    None \<Rightarrow> None
                  | Some x \<Rightarrow> map_option (apfst ((#) x)) (read_string es)))
         else if (of_char c :: nat) < 32 then None
         else map_option (apfst ((#) c)) (read_string cs))"
  by pat_completeness auto
termination
proof (relation "measure length")
  fix s c cs e es r rest rune rest' x
  assume "s = c # cs" "cs = e # es" "hex4 es = Some x" "(r, rest) = x"
    "(rune, rest') = escape_rune r rest"
  then show "(rest', s) \<in> measure length"
    using hex4_shorter [of es r rest] escape_rune_shorter [of r rest rune rest'] by auto
qed auto

declare read_string.simps [simp del]

text \<open>Numbers: an optional minus, an integer part without leading zeros, an optional fraction
  and an optional exponent.\<close>

definition span_digits :: "string \<Rightarrow> string \<times> string" where
  "span_digits s = (takeWhile is_digit s, dropWhile is_digit s)"

definition read_int_part :: "string \<Rightarrow> (string \<times> string) option" where
  "read_int_part s =
     (case span_digits s of
        ([], _) \<Rightarrow> None
      | (d # ds, rest) \<Rightarrow>
          if d = CHR ''0'' then Some ([d], ds @ rest) else Some (d # ds, rest))"

definition read_frac :: "string \<Rightarrow> (string \<times> string) option" where
  "read_frac s =
     (case s of
        c # cs \<Rightarrow>
          if c = CHR ''.'' then
            (case span_digits cs of ([], _) \<Rightarrow> None | (ds, rest) \<Rightarrow> Some (c # ds, rest))
          else Some ([], s)
      | [] \<Rightarrow> Some ([], s))"

definition read_exp :: "string \<Rightarrow> (string \<times> string) option" where
  "read_exp s =
     (case s of
        c # cs \<Rightarrow>
          if c = CHR ''e'' \<or> c = CHR ''E'' then
            (let (sg, ds) = (case cs of x # xs \<Rightarrow> if x = CHR ''+'' \<or> x = CHR ''-'' then ([x], xs)
                               else ([], cs) | [] \<Rightarrow> ([], []))
             in case span_digits ds of ([], _) \<Rightarrow> None | (es, rest) \<Rightarrow> Some (c # sg @ es, rest))
          else Some ([], s)
      | [] \<Rightarrow> Some ([], s))"

definition read_number :: "string \<Rightarrow> (string \<times> string) option" where
  "read_number s =
     (let (sg, s1) = (case s of c # cs \<Rightarrow> if c = CHR ''-'' then ([c], cs) else ([], s) | [] \<Rightarrow> ([], []))
      in case read_int_part s1 of
           None \<Rightarrow> None
         | Some (i, s2) \<Rightarrow>
            (case read_frac s2 of
               None \<Rightarrow> None
             | Some (f, s3) \<Rightarrow>
                (case read_exp s3 of
                   None \<Rightarrow> None
                 | Some (e, s4) \<Rightarrow> Some (sg @ i @ f @ e, s4))))"

definition read_lit :: "string \<Rightarrow> json \<Rightarrow> string \<Rightarrow> (json \<times> string) option" where
  "read_lit l v s = (if has_prefix s l then Some (v, drop (length l) s) else None)"

section \<open>The reader\<close>

text \<open>
  One level of the recursive descent, the readers of the parts as parameters; \<open>d\<close> is the nesting
  still allowed. A part is always read from a shorter input, which the length tests make
  explicit.
\<close>

type_synonym 'a reader = "nat \<Rightarrow> string \<Rightarrow> ('a \<times> string) option"

definition value_body ::
    "(string \<times> json) list reader \<Rightarrow> json list reader \<Rightarrow> json reader" where
  "value_body members elems d s =
     (case skip_ws s of
        [] \<Rightarrow> None
      | c # cs \<Rightarrow>
         if c = CHR 0x7B then
           (if d = 0 then None
            else (case skip_ws cs of
                    [] \<Rightarrow> None
                  | x # xs \<Rightarrow>
                     if x = CHR 0x7D then Some (JObj [], xs)
                     else map_option (apfst JObj) (members (d - 1) cs)))
         else if c = CHR 0x5B then
           (if d = 0 then None
            else (case skip_ws cs of
                    [] \<Rightarrow> None
                  | x # xs \<Rightarrow>
                     if x = CHR 0x5D then Some (JArr [], xs)
                     else map_option (apfst JArr) (elems (d - 1) cs)))
         else if c = CHR 0x22 then map_option (apfst JStr) (read_string cs)
         else if c = CHR ''t'' then read_lit ''true'' (JBool True) (c # cs)
         else if c = CHR ''f'' then read_lit ''false'' (JBool False) (c # cs)
         else if c = CHR ''n'' then read_lit ''null'' JNull (c # cs)
         else map_option (apfst JNum) (read_number (c # cs)))"

definition elems_body :: "json reader \<Rightarrow> json list reader \<Rightarrow> json list reader" where
  "elems_body value elems d s =
     (case value d s of
        None \<Rightarrow> None
      | Some (v, rest) \<Rightarrow>
         (case skip_ws rest of
            [] \<Rightarrow> None
          | c # cs \<Rightarrow>
             if c = CHR 0x5D then Some ([v], cs)
             else if c = CHR '','' \<and> length cs < length s
               then map_option (apfst ((#) v)) (elems d cs)
             else None))"

definition members_body ::
    "json reader \<Rightarrow> (string \<times> json) list reader \<Rightarrow> (string \<times> json) list reader" where
  "members_body value members d s =
     (case skip_ws s of
        [] \<Rightarrow> None
      | c # cs \<Rightarrow>
         if c \<noteq> CHR 0x22 then None
         else (case read_string cs of
            None \<Rightarrow> None
          | Some (k, rest) \<Rightarrow>
             (case skip_ws rest of
                [] \<Rightarrow> None
              | c2 # cs2 \<Rightarrow>
                 if c2 = CHR '':'' \<and> length cs2 < length s
                 then (case value d cs2 of
                    None \<Rightarrow> None
                  | Some (v, rest2) \<Rightarrow>
                     (case skip_ws rest2 of
                        [] \<Rightarrow> None
                      | c3 # cs3 \<Rightarrow>
                         if c3 = CHR 0x7D then Some ([(k, v)], cs3)
                         else if c3 = CHR '','' \<and> length cs3 < length s
                           then map_option (apfst ((#) (k, v))) (members d cs3)
                         else None))
                 else None)))"

text \<open>The descent with fuel. Twice the length of the input, plus two, is enough (below).\<close>

fun read_value :: "nat \<Rightarrow> json reader"
  and read_elems :: "nat \<Rightarrow> json list reader"
  and read_members :: "nat \<Rightarrow> (string \<times> json) list reader" where
  "read_value 0 d s = None"
| "read_value (Suc n) d s = value_body (read_members n) (read_elems n) d s"
| "read_elems 0 d s = None"
| "read_elems (Suc n) d s = elems_body (read_value n) (read_elems n) d s"
| "read_members 0 d s = None"
| "read_members (Suc n) d s = members_body (read_value n) (read_members n) d s"

lemma skip_ws_Cons: "skip_ws s = c # cs \<Longrightarrow> length cs < length s"
  using length_dropWhile_le [of json_space s] by (simp add: skip_ws_def)

lemma value_body_cong:
  assumes "\<And>d t. length t < length s \<Longrightarrow> m d t = m' d t"
    and "\<And>d t. length t < length s \<Longrightarrow> e d t = e' d t"
  shows "value_body m e d s = value_body m' e' d s"
  unfolding value_body_def
  by (simp add: assms skip_ws_Cons cong: list.case_cong if_cong)

lemma elems_body_cong:
  assumes "v d s = v' d s"
    and "\<And>d t. length t < length s \<Longrightarrow> e d t = e' d t"
  shows "elems_body v e d s = elems_body v' e' d s"
  unfolding elems_body_def
  by (simp add: assms cong: list.case_cong option.case_cong prod.case_cong if_cong conj_cong)

lemma members_body_cong:
  assumes "\<And>d t. length t < length s \<Longrightarrow> v d t = v' d t"
    and "\<And>d t. length t < length s \<Longrightarrow> m d t = m' d t"
  shows "members_body v m d s = members_body v' m' d s"
  unfolding members_body_def
  by (simp add: assms cong: list.case_cong option.case_cong prod.case_cong if_cong conj_cong)

text \<open>More fuel than needed changes nothing: the readers with enough fuel are the readers
  without a bound.\<close>

lemma read_fuel:
  "(\<forall>d s k. 2 * length s + 1 \<le> n \<and> n \<le> k \<longrightarrow> read_value n d s = read_value k d s) \<and>
   (\<forall>d s k. 2 * length s + 2 \<le> n \<and> n \<le> k \<longrightarrow> read_elems n d s = read_elems k d s) \<and>
   (\<forall>d s k. 2 * length s + 2 \<le> n \<and> n \<le> k \<longrightarrow> read_members n d s = read_members k d s)"
proof (induction n)
  case (Suc n)
  have v: "read_value (Suc n) d s = read_value k d s"
    if "2 * length s + 1 \<le> Suc n" "Suc n \<le> k" for d s k
  proof -
    from that obtain k' where k: "k = Suc k'" "n \<le> k'" by (cases k) auto
    show ?thesis unfolding k read_value.simps
      by (rule value_body_cong) (use Suc that k in auto)
  qed
  have e: "read_elems (Suc n) d s = read_elems k d s"
    if "2 * length s + 2 \<le> Suc n" "Suc n \<le> k" for d s k
  proof -
    from that obtain k' where k: "k = Suc k'" "n \<le> k'" by (cases k) auto
    show ?thesis unfolding k read_elems.simps
      by (rule elems_body_cong) (use Suc that k in auto)
  qed
  have m: "read_members (Suc n) d s = read_members k d s"
    if "2 * length s + 2 \<le> Suc n" "Suc n \<le> k" for d s k
  proof -
    from that obtain k' where k: "k = Suc k'" "n \<le> k'" by (cases k) auto
    show ?thesis unfolding k read_members.simps
      by (rule members_body_cong) (use Suc that k in auto)
  qed
  from v e m show ?case by blast
qed simp

lemma read_value_fuel:
  "2 * length s + 2 \<le> k \<Longrightarrow> read_value (2 * length s + 2) d s = read_value k d s"
  using read_fuel [of "2 * length s + 2"] by simp

definition max_nesting :: nat where "max_nesting = 10000"

text \<open>\<open>json.Unmarshal\<close> and \<open>json.Valid\<close> want the whole input to be one value.\<close>

definition json_parse :: "string \<Rightarrow> json option" where
  "json_parse s =
     (case read_value (2 * length s + 2) max_nesting s of
        Some (v, rest) \<Rightarrow> if skip_ws rest = [] then Some v else None
      | None \<Rightarrow> None)"

definition json_valid :: "string \<Rightarrow> bool" where
  "json_valid s = (json_parse s \<noteq> None)"

text \<open>\<open>json.Decoder.Decode\<close> reads the first value and leaves the rest.\<close>

definition json_decode_first :: "string \<Rightarrow> json option" where
  "json_decode_first s = map_option fst (read_value (2 * length s + 2) max_nesting s)"

text \<open>\<open>json.Marshal\<close> of a string: the quotation mark, the reverse solidus and the control
  characters are escaped, and \<open><\<close>, \<open>>\<close> and \<open>&\<close> as well.\<close>

definition hex_digit :: "nat \<Rightarrow> char" where
  "hex_digit n = char_of (if n < 10 then 48 + n else 87 + n)"

definition escape_char :: "char \<Rightarrow> string" where
  "escape_char c =
     (let n = of_char c :: nat in
      if c = CHR 0x22 \<or> c = CHR 0x5C then [CHR 0x5C, c]
      else if n = 8 then [CHR 0x5C, CHR ''b''] else if n = 12 then [CHR 0x5C, CHR ''f'']
      else if n = 10 then [CHR 0x5C, CHR ''n''] else if n = 13 then [CHR 0x5C, CHR ''r'']
      else if n = 9 then [CHR 0x5C, CHR ''t'']
      else if n < 32 \<or> c = CHR ''<'' \<or> c = CHR ''>'' \<or> c = CHR ''&''
        then [CHR 0x5C, CHR ''u'', CHR ''0'', CHR ''0'', hex_digit (n div 16), hex_digit (n mod 16)]
      else [c])"

definition marshal_string :: "string \<Rightarrow> string" where
  "marshal_string s = [CHR 0x22] @ concat (map escape_char s) @ [CHR 0x22]"

fun marshal :: "json \<Rightarrow> string" where
  "marshal JNull = ''null''"
| "marshal (JBool b) = (if b then ''true'' else ''false'')"
| "marshal (JNum l) = l"
| "marshal (JStr s) = marshal_string s"
| "marshal (JArr xs) = ''['' @ join_with '','' (map marshal xs) @ '']''"
| "marshal (JObj kvs) =
     [CHR 0x7B] @ join_with '',''
       (map (\<lambda>kv. marshal_string (fst kv) @ '':'' @ marshal (snd kv)) kvs) @ [CHR 0x7D]"

text \<open>A document laid out with white space: \<open>nl k\<close> between the parts of a value nested \<open>k\<close> deep,
  \<open>sp\<close> after the colon. \<open>json.MarshalIndent\<close> with an empty prefix and two spaces is one such
  layout; empty arrays and objects stay on one line.\<close>

fun print_json :: "(nat \<Rightarrow> string) \<Rightarrow> string \<Rightarrow> nat \<Rightarrow> json \<Rightarrow> string" where
  "print_json nl sp k (JArr xs) =
     (if xs = [] then ''[]''
      else ''['' @ nl (Suc k) @ join_with ('','' @ nl (Suc k)) (map (print_json nl sp (Suc k)) xs) @ nl k @ '']'')"
| "print_json nl sp k (JObj kvs) =
     (if kvs = [] then [CHR 0x7B, CHR 0x7D]
      else [CHR 0x7B] @ nl (Suc k) @ join_with ('','' @ nl (Suc k))
        (map (\<lambda>kv. marshal_string (fst kv) @ '':'' @ sp @ print_json nl sp (Suc k) (snd kv)) kvs) @ nl k @ [CHR 0x7D])"
| "print_json nl sp k v = marshal v"

definition newline_indent :: "nat \<Rightarrow> string" where
  "newline_indent k = CHR 0x0A # replicate (2 * k) (CHR '' '')"

definition MarshalIndent :: "json \<Rightarrow> string" where
  "MarshalIndent v = print_json newline_indent '' '' 0 v"

text \<open>Decoding into a map: a later key wins.\<close>

definition obj_lookup :: "(string \<times> json) list \<Rightarrow> string \<Rightarrow> json option" where
  "obj_lookup kvs k = map_of (rev kvs) k"

lemma json_valid_empty [simp]: "\<not> json_valid []"
  by (simp add: json_valid_def json_parse_def value_body_def skip_ws_def numeral_2_eq_2)

end
