(* ===== verification/Constants.thy ===== *)
theory Constants
  imports Go_Path Go_Json
begin

text \<open>
  The packages \<open>insights/internal/constants\<close> and \<open>server/internal/common/constants\<close>: names of
  folders and files, limits, and the values computed when the packages are initialised. A
  panic is an error value.
\<close>

named_theorems const_defs \<open>definitions of the constants\<close>

section \<open>Client\<close>

definition CmdName :: string where [const_defs]: "CmdName = ''ubuntu-insights''"
definition DefaultAppFolder :: string where [const_defs]: "DefaultAppFolder = ''ubuntu-insights''"
definition LocalFolder :: string where [const_defs]: "LocalFolder = ''local''"
definition UploadedFolder :: string where [const_defs]: "UploadedFolder = ''uploaded''"

definition ConsentFilenameBase :: string where
  [const_defs]: "ConsentFilenameBase = ''consent.toml''"

definition ConsentFilenameSuffix :: string where
  [const_defs]: "ConsentFilenameSuffix = ''-'' @ ConsentFilenameBase"

definition SystemConfigFileName :: string where
  [const_defs]: "SystemConfigFileName = ''system-config.toml''"

definition ReportExt :: string where [const_defs]: "ReportExt = ''.json''"
definition MaxReports :: nat where [const_defs]: "MaxReports = 150"
definition DefaultPeriod :: nat where [const_defs]: "DefaultPeriod = 0"
definition DefaultMinAge :: nat where [const_defs]: "DefaultMinAge = 604800"

definition MaxConcurrentUploadsPerSource :: nat where
  [const_defs]: "MaxConcurrentUploadsPerSource = MaxReports"

definition MaxConcurrentSources :: nat where [const_defs]: "MaxConcurrentSources = 10"

text \<open>\<open>struct\<lbrace> OptOut bool \<rbrace>\<lbrace>true\<rbrace>\<close>, and what \<open>json.Marshal\<close> makes of it.\<close>

definition OptOutJSON :: json where
  [const_defs]: "OptOutJSON = JObj [(''OptOut'', JBool True)]"

definition OptOutPayload :: string where
  [const_defs]: "OptOutPayload = marshal OptOutJSON"

text \<open>\<open>runtime.GOOS\<close> on the platform modelled.\<close>

definition PlatformSource :: string where [const_defs]: "PlatformSource = ''linux''"

definition PlatformConsentFile :: string where
  [const_defs]: "PlatformConsentFile = PlatformSource @ ConsentFilenameSuffix"

subsection \<open>Default paths\<close>

definition systemConfigDir_linux :: string where
  "systemConfigDir_linux = ''/etc/'' @ DefaultAppFolder"

definition systemConfigDir_darwin :: string where
  "systemConfigDir_darwin = ''/Library/Application Support/'' @ DefaultAppFolder"

definition systemConfigDir_windows :: "string \<Rightarrow> go_error + string" where
  "systemConfigDir_windows programData =
     (if programData = [] then Inl (Errorf ''PROGRAMDATA environment variable is not set'')
      else Inr (path_join [programData, DefaultAppFolder]))"

record default_paths =
  DefaultConfigPath :: string
  DefaultCachePath :: string
  DefaultSystemConfigPath :: string

definition initializePaths ::
    "string \<Rightarrow> (go_error + string) \<Rightarrow> (go_error + string) \<Rightarrow> (go_error + string)
     \<Rightarrow> go_error + default_paths" where
  "initializePaths manGeneration userConfigDir userCacheDir systemConfigDir =
     (if manGeneration = ''true''
      then Inr \<lparr>DefaultConfigPath = [], DefaultCachePath = [], DefaultSystemConfigPath = []\<rparr>
      else case userConfigDir of
        Inl _ \<Rightarrow> Inl (Errorf ''Could not fetch config directory'')
      | Inr conf \<Rightarrow>
         (case userCacheDir of
            Inl _ \<Rightarrow> Inl (Errorf ''Could not fetch cache directory'')
          | Inr cache \<Rightarrow>
             (case systemConfigDir of
                Inl e \<Rightarrow> Inl e
              | Inr sys \<Rightarrow>
                 Inr \<lparr>DefaultConfigPath = path_join [conf, DefaultAppFolder],
                      DefaultCachePath = path_join [cache, DefaultAppFolder],
                      DefaultSystemConfigPath = sys\<rparr>)))"

section \<open>Server\<close>

definition WebServiceCmdName :: string where
  [const_defs]: "WebServiceCmdName = ''ubuntu-insights-web-service''"

definition IngestServiceCmdName :: string where
  [const_defs]: "IngestServiceCmdName = ''ubuntu-insights-ingest-service''"

definition DefaultServiceFolder :: string where
  [const_defs]: "DefaultServiceFolder = ''ubuntu-insights-services''"

definition DefaultServiceReportsFolder :: string where
  [const_defs]: "DefaultServiceReportsFolder = ''reports''"

definition LegacyReportTag :: string where [const_defs]: "LegacyReportTag = ''ubuntu-report''"

definition service_dirs :: "(go_error + string) \<Rightarrow> go_error + string \<times> string" where
  "service_dirs userCacheDir =
     (case userCacheDir of
        Inl _ \<Rightarrow> Inl (Errorf ''Could not fetch cache directory'')
      | Inr cache \<Rightarrow>
          (let data = path_join [cache, DefaultServiceFolder] in
           Inr (data, path_join [data, DefaultServiceReportsFolder])))"

section \<open>Facts\<close>

lemma OptOutPayload_text:
  "OptOutPayload = [CHR 0x7B, CHR 0x22] @ ''OptOut'' @ [CHR 0x22, CHR '':''] @ ''true'' @ [CHR 0x7D]"
  by code_simp

lemma folder_names_plain [simp]: "plain_name LocalFolder" "plain_name UploadedFolder"
  by (simp_all add: const_defs plain_name_def)

lemma folder_names_neq [simp]: "LocalFolder \<noteq> UploadedFolder" "UploadedFolder \<noteq> LocalFolder"
  by (simp_all add: const_defs)

end
