(* ===== verification/Systemconfig.thy ===== *)
theory Systemconfig
  imports Fileutils Constants
begin

text \<open>
  The package \<open>insights/internal/systemconfig\<close>: the system-wide opt-out, one TOML file that
  administrators write and everyone reads. The TOML codec is a third-party package: its decoder
  for the file's structure (None for a malformed document) and its encoder are arguments, and
  \<open>toml_codec\<close> states what is relied on, that an encoded value decodes to itself.
\<close>

definition toml_codec :: "('a \<Rightarrow> string option) \<Rightarrow> (string \<Rightarrow> 'a option) \<Rightarrow> bool" where
  "toml_codec enc dec \<longleftrightarrow> (\<forall>x. \<exists>d. enc x = Some d \<and> dec d = Some x)"

text \<open>An instance of the hypothesis: documents with one boolean key.\<close>

definition toml_bool :: "string \<Rightarrow> bool \<Rightarrow> string" where
  "toml_bool key b = key @ '' = '' @ (if b then ''true'' else ''false'') @ [CHR 0x0A]"

definition toml_bool_enc :: "string \<Rightarrow> ('a \<Rightarrow> bool) \<Rightarrow> 'a \<Rightarrow> string option" where
  "toml_bool_enc key get x = Some (toml_bool key (get x))"

definition toml_bool_dec :: "string \<Rightarrow> (bool \<Rightarrow> 'a) \<Rightarrow> string \<Rightarrow> 'a option" where
  "toml_bool_dec key mk d =
     (if d = toml_bool key True then Some (mk True)
      else if d = toml_bool key False then Some (mk False) else None)"

lemma toml_bool_neq: "toml_bool key True \<noteq> toml_bool key False"
  by (auto simp: toml_bool_def)

lemma toml_bool_codec:
  assumes "\<And>x. mk (get x) = x"
  shows "toml_codec (toml_bool_enc key get) (toml_bool_dec key mk)"
proof -
  have "toml_bool_dec key mk (toml_bool key (get x)) = Some x" for x
    using assms [of x] toml_bool_neq [of key] by (cases "get x") (auto simp: toml_bool_dec_def)
  then show ?thesis by (simp add: toml_codec_def toml_bool_enc_def)
qed

record sysconfig_manager =
  sc_path :: string

record sysconfig =
  SystemOptOut :: bool

text \<open>\<open>toml.DecodeFile\<close>: the path error of opening or reading the file, or a decoding error.\<close>

definition toml_decode_file :: "(string \<Rightarrow> 'a option) \<Rightarrow> string \<Rightarrow> ('z os_scheme, 'a) io" where
  "toml_decode_file dec p =
     bindE (os_read_file p) (\<lambda>d.
       case dec d of None \<Rightarrow> throw (Errorf ''toml: malformed'') | Some x \<Rightarrow> ret x)"

section \<open>Operations\<close>

definition sysconfig_New :: "string \<Rightarrow> sysconfig_manager" where
  "sysconfig_New path = \<lparr>sc_path = path\<rparr>"

definition sysconfig_getFile :: "sysconfig_manager \<Rightarrow> string" where
  "sysconfig_getFile m = path_join [sc_path m, SystemConfigFileName]"

definition IsOptedOut ::
    "(string \<Rightarrow> sysconfig option) \<Rightarrow> sysconfig_manager \<Rightarrow> ('z os_scheme, bool) io" where
  "IsOptedOut dec m =
     attempt (toml_decode_file dec (sysconfig_getFile m)) (\<lambda>r.
       case r of
         Inl err \<Rightarrow>
           if as_path_error err = Some ENOENT then ret False
           else throw (Errorf ''failed to read system config file'')
       | Inr f \<Rightarrow> ret (SystemOptOut f))"

definition sysconfig_write ::
    "(sysconfig \<Rightarrow> string option) \<Rightarrow> sysconfig \<Rightarrow> string \<Rightarrow> ('z os_scheme, unit) io" where
  "sysconfig_write enc f path =
     (case enc f of
        None \<Rightarrow> throw (Errorf ''could not encode system config file'')
      | Some buf \<Rightarrow> AtomicWriteWithPerm path buf 493 420)"

definition SetOptOut ::
    "(sysconfig \<Rightarrow> string option) \<Rightarrow> sysconfig_manager \<Rightarrow> bool \<Rightarrow> ('z os_scheme, unit) io" where
  "SetOptOut enc m state =
     on_error (ErrorfW ''could not set system opt-out state'')
       (sysconfig_write enc \<lparr>SystemOptOut = state\<rparr> (sysconfig_getFile m))"

section \<open>Facts\<close>

lemma sysconfig_name [simp]: "plain_name SystemConfigFileName" "not_temp SystemConfigFileName"
  by (simp_all add: const_defs plain_name_def not_temp_def has_suffix_def)

lemma sysconfig_getFile_resolve:
  "resolve (sysconfig_getFile m) = resolve (sc_path m) @ [SystemConfigFileName]"
  by (simp add: sysconfig_getFile_def resolve_join_plain)

lemma sysconfig_getFile_nonempty [simp]: "sysconfig_getFile m \<noteq> []"
  by (simp add: sysconfig_getFile_def path_join_nonempty)

abbreviation sysconfig_enc :: "sysconfig \<Rightarrow> string option" where
  "sysconfig_enc \<equiv> toml_bool_enc ''system_opt_out'' SystemOptOut"

abbreviation sysconfig_dec :: "string \<Rightarrow> sysconfig option" where
  "sysconfig_dec \<equiv> toml_bool_dec ''system_opt_out'' (\<lambda>b. \<lparr>SystemOptOut = b\<rparr>)"

lemma sysconfig_codec: "toml_codec sysconfig_enc sysconfig_dec"
  by (rule toml_bool_codec) simp_all

text \<open>Reading a TOML file leaves the file system alone, under every relation that is a frame.\<close>

context fs_frame
begin

lemma framed_toml: "framed (fs_rel P) (toml_decode_file dec p)"
  by (auto simp: toml_decode_file_def intro!: frame_intros framed_reads split: option.splits)

lemma framed_IsOptedOut: "framed (fs_rel P) (IsOptedOut dec' m)"
  by (auto simp: IsOptedOut_def intro!: frame_intros framed_toml split: sum.splits)

end

lemma toml_decode_file_content:
  "quiet w \<Longrightarrow> p \<noteq> [] \<Longrightarrow> file_content (fs w) (resolve p) = Some d \<Longrightarrow>
     toml_decode_file dec p w =
       (case dec d of None \<Rightarrow> (Inl (Errorf ''toml: malformed''), w) | Some x \<Rightarrow> (Inr x, w))"
  by (simp add: toml_decode_file_def bindE_Inr os_read_file_quiet split: option.splits)

lemma toml_decode_file_missing:
  "quiet w \<Longrightarrow> p \<noteq> [] \<Longrightarrow> fs_get (fs w) (resolve p) = None \<Longrightarrow>
     toml_decode_file dec p w = (Inl (PathError (missing (fs w) (resolve p))), w)"
  by (simp add: toml_decode_file_def bindE_def os_read_file_missing)

text \<open>The state of the opt-out, as a function of the file system.\<close>

definition opted_out :: "(string \<Rightarrow> sysconfig option) \<Rightarrow> sysconfig_manager \<Rightarrow> fsys \<Rightarrow> bool option" where
  "opted_out dec m f =
     (let p = resolve (sysconfig_getFile m) in
      case fs_get f p of
        None \<Rightarrow> if missing f p = ENOENT then Some False else None
      | Some (DirN _) \<Rightarrow> None
      | Some (FileN d _) \<Rightarrow> map_option SystemOptOut (dec d))"

lemma IsOptedOut_quiet:
  assumes "quiet w"
  shows "IsOptedOut dec m w =
    (case opted_out dec m (fs w) of
       Some b \<Rightarrow> (Inr b, w) | None \<Rightarrow> (Inl (Errorf ''failed to read system config file''), w))"
  using assms
  by (auto simp: IsOptedOut_def opted_out_def attempt_def toml_decode_file_def bindE_def
      os_read_file_def at_path_quiet fs_read_def Let_def split: option.splits node.splits)

end
