(* ===== verification/Consent.thy ===== *)
theory Consent
  imports Systemconfig
begin

text \<open>
  The package \<open>insights/internal/consent\<close>: one TOML file per source holds whether the user
  agrees to reports of that source; a manager made with the system configuration also honours
  the system-wide opt-out.
\<close>

record consent_manager =
  cm_path :: string
  optOut :: "sysconfig_manager option"

record CFile =
  ConsentState :: bool

section \<open>Operations\<close>

definition consent_New :: "string \<Rightarrow> consent_manager" where
  "consent_New path = \<lparr>cm_path = path, optOut = None\<rparr>"

definition NewWithSystemConfig :: "string \<Rightarrow> string \<Rightarrow> consent_manager" where
  "NewWithSystemConfig consentDir systemConfigDir =
     \<lparr>cm_path = consentDir, optOut = Some (sysconfig_New systemConfigDir)\<rparr>"

definition consent_getFile :: "consent_manager \<Rightarrow> string \<Rightarrow> string" where
  "consent_getFile cm source =
     (let source = (if source = [] then PlatformSource else source) in
      path_join [cm_path cm, source @ ConsentFilenameSuffix])"

definition readFile :: "(string \<Rightarrow> CFile option) \<Rightarrow> string \<Rightarrow> ('z os_scheme, CFile) io" where
  "readFile dec path = toml_decode_file dec path"

text \<open>The deferred function: a path error that says the file is not there is joined with
  \<open>ErrConsentFileNotFound\<close>.\<close>

definition mark_not_found :: "go_error \<Rightarrow> go_error" where
  "mark_not_found err =
     (if as_path_error err = Some ENOENT
      then Joined [Sentinel ErrConsentFileNotFound, err] else err)"

definition GetState ::
    "(string \<Rightarrow> sysconfig option) \<Rightarrow> (string \<Rightarrow> CFile option) \<Rightarrow> consent_manager \<Rightarrow> string
     \<Rightarrow> ('z os_scheme, bool) io" where
  "GetState decS decC cm source =
     on_error mark_not_found
       (bindE (case optOut cm of
                 None \<Rightarrow> ret False
               | Some m \<Rightarrow> on_error (\<lambda>_. Errorf ''failed to check system opt-out'') (IsOptedOut decS m))
         (\<lambda>optedOut.
            if optedOut then ret False
            else bindE (readFile decC (consent_getFile cm source))
                   (\<lambda>c. ret (ConsentState c))))"

definition CFile_write ::
    "(CFile \<Rightarrow> string option) \<Rightarrow> CFile \<Rightarrow> string \<Rightarrow> ('z os_scheme, unit) io" where
  "CFile_write enc cf path =
     (case enc cf of
        None \<Rightarrow> throw (Errorf ''could not encode consent file'')
      | Some buf \<Rightarrow> AtomicWriteWithPerm path buf 488 384)"

definition SetState ::
    "(CFile \<Rightarrow> string option) \<Rightarrow> consent_manager \<Rightarrow> string \<Rightarrow> bool \<Rightarrow> ('z os_scheme, unit) io" where
  "SetState enc cm source state =
     on_error (ErrorfW ''could not set consent state'')
       (CFile_write enc \<lparr>ConsentState = state\<rparr> (consent_getFile cm source))"

text \<open>The map of source names to files, as an association list whose later entries win.\<close>

definition getFiles :: "consent_manager \<Rightarrow> ('z os_scheme, (string \<times> string) list) io" where
  "getFiles cm =
     bindE (os_read_dir (cm_path cm)) (\<lambda>entries.
       ret (fold (\<lambda>(name, isd) m.
              if isd \<or> \<not> has_suffix name ConsentFilenameSuffix then m
              else AList.update (trim_suffix name ConsentFilenameSuffix)
                     (path_join [cm_path cm, name]) m) entries []))"

section \<open>The abstract state\<close>

text \<open>
  What the consent manager promises: a store of one state per source, with the empty source
  standing for the platform. A source is a name without a slash.
\<close>

definition source_key :: "string \<Rightarrow> string" where
  "source_key source = (if source = [] then PlatformSource else source)"

definition source_ok :: "string \<Rightarrow> bool" where
  "source_ok source \<longleftrightarrow> slash \<notin> set source"

definition consent_file :: "consent_manager \<Rightarrow> string \<Rightarrow> fpath" where
  "consent_file cm source = resolve (cm_path cm) @ [source_key source @ ConsentFilenameSuffix]"

definition consent_of :: "(string \<Rightarrow> CFile option) \<Rightarrow> consent_manager \<Rightarrow> fsys \<Rightarrow> string \<Rightarrow> bool option" where
  "consent_of dec cm f source =
     Option.bind (file_content f (consent_file cm source)) (\<lambda>d. map_option ConsentState (dec d))"

lemma consent_name:
  assumes "source_ok source"
  shows "plain_name (source_key source @ ConsentFilenameSuffix)"
    and "not_temp (source_key source @ ConsentFilenameSuffix)"
proof -
  have "slash \<notin> set (source_key source @ ConsentFilenameSuffix)"
    using assms by (auto simp: source_ok_def source_key_def const_defs)
  moreover have "2 < length (source_key source @ ConsentFilenameSuffix)"
    by (simp add: const_defs)
  ultimately show "plain_name (source_key source @ ConsentFilenameSuffix)"
    by (auto simp: plain_name_def dest: arg_cong [of _ _ length])
  have "\<not> has_suffix (xs @ ''toml'') ''.tmp''" for xs :: string
    by (simp add: has_suffix_def)
  from this [of "source_key source @ ''-consent.''"]
  show "not_temp (source_key source @ ConsentFilenameSuffix)"
    by (simp add: not_temp_def const_defs)
qed

lemma consent_getFile_eq:
  "consent_getFile cm source = path_join [cm_path cm, source_key source @ ConsentFilenameSuffix]"
  by (simp add: consent_getFile_def source_key_def Let_def)

lemma consent_getFile_resolve:
  "source_ok source \<Longrightarrow> resolve (consent_getFile cm source) = consent_file cm source"
  by (simp add: consent_getFile_eq consent_file_def resolve_join_plain consent_name)

lemma consent_getFile_nonempty: "source_ok source \<Longrightarrow> consent_getFile cm source \<noteq> []"
  by (simp add: consent_getFile_eq path_join_nonempty consent_name)

lemma consent_file_inject:
  "consent_file cm a = consent_file cm b \<longleftrightarrow> source_key a = source_key b"
  by (simp add: consent_file_def)

lemma consent_file_not_temp:
  "source_ok source \<Longrightarrow> consent_file cm source \<noteq> resolve (cm_path cm) @ [temp_name k]"
  using not_temp_neq [OF consent_name(2)] by (auto simp: consent_file_def)

section \<open>Facts\<close>

context fs_frame
begin

lemma framed_GetState: "framed (fs_rel P) (GetState decS decC cm source)"
  by (auto simp: GetState_def readFile_def intro!: frame_intros framed_toml framed_IsOptedOut
      split: option.splits)

end

lemma GetState_opted_out:
  "quiet w \<Longrightarrow> optOut cm = Some m \<Longrightarrow> opted_out decS m (fs w) = Some True \<Longrightarrow>
     GetState decS decC cm source w = (Inr False, w)"
  by (simp add: GetState_def on_error_def bindE_def IsOptedOut_quiet)

text \<open>Whether the system-wide opt-out lets the source files be consulted.\<close>

definition not_opted_out :: "(string \<Rightarrow> sysconfig option) \<Rightarrow> consent_manager \<Rightarrow> fsys \<Rightarrow> bool" where
  "not_opted_out decS cm f =
     (case optOut cm of None \<Rightarrow> True | Some m \<Rightarrow> opted_out decS m f = Some False)"

lemma GetState_quiet:
  assumes "quiet w" "not_opted_out decS cm (fs w)"
  shows "GetState decS decC cm source w =
    on_error mark_not_found (bindE (toml_decode_file decC (consent_getFile cm source))
      (\<lambda>c. ret (ConsentState c))) w"
  using assms
  by (auto simp: GetState_def readFile_def not_opted_out_def on_error_def bindE_def
      IsOptedOut_quiet split: option.splits)

lemma GetState_content:
  assumes "quiet w" "source_ok source" "not_opted_out decS cm (fs w)"
    and "file_content (fs w) (consent_file cm source) = Some d" "decC d = Some c"
  shows "GetState decS decC cm source w = (Inr (ConsentState c), w)"
  using assms
  by (simp add: GetState_quiet on_error_def bindE_def toml_decode_file_content
      consent_getFile_nonempty consent_getFile_resolve)

lemma SetState_shape:
  assumes "enc \<lparr>ConsentState = b\<rparr> = Some buf"
  shows "SetState enc cm source b w =
    on_error (ErrorfW ''could not set consent state'')
      (AtomicWriteWithPerm (path_join [cm_path cm, source_key source @ ConsentFilenameSuffix])
        buf 488 384) w"
  by (simp add: SetState_def CFile_write_def assms consent_getFile_eq)

lemma SetState_result:
  assumes "toml_codec enc dec" "source_ok s" "SetState enc cm s b w = (r, w')"
  shows "r = Inr () \<Longrightarrow> consent_of dec cm (fs w') s = Some b"
    and "source_ok t \<Longrightarrow> consent_of dec cm (fs w') t = consent_of dec cm (fs w) t \<or>
      source_key t = source_key s \<and> consent_of dec cm (fs w') t = Some b"
    and "fs_wf (fs w) \<Longrightarrow> fs_wf (fs w')"
proof -
  obtain buf where buf: "enc \<lparr>ConsentState = b\<rparr> = Some buf" "dec buf = Some \<lparr>ConsentState = b\<rparr>"
    using assms(1) by (auto simp: toml_codec_def)
  let ?n = "source_key s @ ConsentFilenameSuffix"
  obtain r1 where a: "AtomicWriteWithPerm (path_join [cm_path cm, ?n]) buf 488 384 w = (r1, w')"
    and r: "r = Inr () \<Longrightarrow> r1 = Inr ()"
    using assms(3) unfolding SetState_shape [of enc, OF buf(1)]
    by (auto simp: on_error_def split: prod.splits sum.splits)
  note res = AtomicWriteWithPerm_result [OF consent_name [OF assms(2)] a]
  show "r = Inr () \<Longrightarrow> consent_of dec cm (fs w') s = Some b"
    using res(1) r buf(2) by (simp add: consent_of_def consent_file_def)
  show "fs_wf (fs w) \<Longrightarrow> fs_wf (fs w')" by (rule res(3))
  show "consent_of dec cm (fs w') t = consent_of dec cm (fs w) t \<or>
      source_key t = source_key s \<and> consent_of dec cm (fs w') t = Some b" if "source_ok t"
    using res(2) [of "consent_file cm t"] consent_file_not_temp [OF that] buf(2)
    by (auto simp: consent_of_def consent_file_def)
qed

section \<open>A concrete instance\<close>

definition example_consent :: consent_manager where
  "example_consent = NewWithSystemConfig ''/home/conf'' ''/etc''"

definition example_world :: os where
  "example_world =
     \<lparr>fs = [([''/'', ''home''], DirN 493), ([''/'', ''etc''], DirN 493)], faults = [], seed = 7\<rparr>"

abbreviation CFile_enc :: "CFile \<Rightarrow> string option" where
  "CFile_enc \<equiv> toml_bool_enc ''consent_state'' ConsentState"

abbreviation CFile_dec :: "string \<Rightarrow> CFile option" where
  "CFile_dec \<equiv> toml_bool_dec ''consent_state'' (\<lambda>b. \<lparr>ConsentState = b\<rparr>)"

lemma CFile_codec: "toml_codec CFile_enc CFile_dec"
  by (rule toml_bool_codec) simp_all

section \<open>Properties\<close>

text \<open>C14: setting a consent state implements an update of the abstract store. Whatever system
  calls fail, the state of every other source stays as it was; when \<open>SetState\<close> returns no error
  the state of the source is the new one, otherwise it is the old or the new one.\<close>

theorem SetState_refines:
  assumes "toml_codec enc dec" "source_ok s" "source_ok t" "SetState enc cm s b w = (r, w')"
  shows "(source_key t \<noteq> source_key s \<longrightarrow>
      consent_of dec cm (fs w') t = consent_of dec cm (fs w) t) \<and>
    (source_key t = source_key s \<longrightarrow>
      consent_of dec cm (fs w') t \<in> {consent_of dec cm (fs w) t, Some b} \<and>
      (r = Inr () \<longrightarrow> consent_of dec cm (fs w') t = Some b))"
proof -
  have "consent_of dec cm (fs w') t = consent_of dec cm (fs w') s"
    if "source_key t = source_key s"
    using that by (simp add: consent_of_def consent_file_def)
  with SetState_result(1) [OF assms(1,2,4)] SetState_result(2) [OF assms(1,2,4,3)]
  show ?thesis by auto
qed

theorem SetState_refines_witness:
  "consent_of CFile_dec example_consent
     (fs (snd (SetState CFile_enc example_consent [] False example_world))) ''linux'' = Some False"
  using SetState_refines [OF CFile_codec, of "[]" "''linux''" example_consent False example_world
      "fst (SetState CFile_enc example_consent [] False example_world)"
      "snd (SetState CFile_enc example_consent [] False example_world)"]
  by code_simp

text \<open>What \<open>SetState\<close> stores, \<open>GetState\<close> returns, unless the system-wide opt-out is on.\<close>

theorem SetState_GetState:
  assumes "toml_codec enc dec" "source_ok s" "SetState enc cm s b w = (Inr (), w')"
    "quiet w'" "not_opted_out decS cm (fs w')"
  shows "GetState decS dec cm s w' = (Inr b, w')"
proof -
  have "consent_of dec cm (fs w') s = Some b"
    using SetState_result(1) [OF assms(1,2,3)] by simp
  then obtain d c where "file_content (fs w') (consent_file cm s) = Some d" "dec d = Some c"
    "ConsentState c = b"
    by (auto simp: consent_of_def bind_eq_Some_conv)
  with GetState_content [OF assms(4,2,5)] show ?thesis by blast
qed

theorem SetState_GetState_witness:
  "GetState sysconfig_dec CFile_dec example_consent ''wsl''
     (snd (SetState CFile_enc example_consent ''wsl'' True example_world)) =
   (Inr True, snd (SetState CFile_enc example_consent ''wsl'' True example_world))"
  by (rule SetState_GetState [OF CFile_codec, where w = example_world]) code_simp+

text \<open>Without faults, and with no file where a directory must be, \<open>SetState\<close> succeeds.\<close>

theorem SetState_succeeds:
  assumes "toml_codec enc dec" "source_ok s" "quiet w" "fs_wf (fs w)"
    "creatable (fs w) (resolve (cm_path cm))" "\<not> is_dir_at (fs w) (consent_file cm s)"
  shows "\<exists>f'. SetState enc cm s b w = (Inr (), w\<lparr>fs := f'\<rparr>)"
proof -
  obtain buf where buf: "enc \<lparr>ConsentState = b\<rparr> = Some buf"
    using assms(1) by (auto simp: toml_codec_def)
  obtain f' where "AtomicWriteWithPerm
      (path_join [cm_path cm, source_key s @ ConsentFilenameSuffix]) buf 488 384 w
      = (Inr (), w\<lparr>fs := f'\<rparr>)"
    using AtomicWriteWithPerm_quiet [OF assms(3) consent_name [OF assms(2)] assms(4,5)
      assms(6) [unfolded consent_file_def], of buf 488 384] by blast
  then show ?thesis by (auto simp: SetState_shape [of enc, OF buf] on_error_def)
qed

theorem SetState_succeeds_witness:
  "\<exists>f'. SetState CFile_enc example_consent ''wsl'' True example_world
     = (Inr (), example_world\<lparr>fs := f'\<rparr>)"
  by (rule SetState_succeeds [OF CFile_codec]) code_simp+

text \<open>A source without a consent file is reported as such: the error is recognised by
  \<open>errors.Is(err, ErrConsentFileNotFound)\<close>, and nothing changes.\<close>

theorem GetState_not_found:
  assumes "quiet w" "source_ok s" "fs_wf (fs w)" "not_opted_out decS cm (fs w)"
    "is_dir_at (fs w) (resolve (cm_path cm))" "fs_get (fs w) (consent_file cm s) = None"
  shows "\<exists>e. GetState decS decC cm s w = (Inl e, w) \<and> errors_is e ErrConsentFileNotFound"
proof -
  have "missing (fs w) (consent_file cm s) = ENOENT"
    unfolding consent_file_def using assms(3,5) by (rule missing_in_dir)
  with assms show ?thesis
    by (simp add: GetState_quiet on_error_def bindE_def toml_decode_file_missing
        consent_getFile_nonempty consent_getFile_resolve mark_not_found_def)
qed

theorem GetState_not_found_witness:
  "\<exists>e. GetState sysconfig_dec CFile_dec (consent_New ''/home'') ''wsl'' example_world
     = (Inl e, example_world) \<and> errors_is e ErrConsentFileNotFound"
  by (rule GetState_not_found) code_simp+



end
