(* ===== verification/Report.thy ===== *)
theory Report
  imports Consent "HOL-Library.Multiset"
begin

text \<open>
  The package \<open>insights/internal/report\<close>: report files are named by the second they stand for;
  the operations find, count, remove and move them.
\<close>

record reportStash =
  stash_Path :: string
  stash_Data :: string

record report =
  Path :: string
  Name :: string
  TimeStamp :: int
  stash :: reportStash

section \<open>Operations\<close>

definition getReportTime :: "string \<Rightarrow> go_error + int" where
  "getReportTime path =
     (let fileName = path_base path in
      case parse_int64 (trim_suffix fileName (path_ext fileName)) of
        None \<Rightarrow> Inl (ErrorfW ''strconv.ParseInt'' (Sentinel ErrInvalidReportName))
      | Some i \<Rightarrow> Inr i)"

definition no_stash :: reportStash where
  "no_stash = \<lparr>stash_Path = [], stash_Data = []\<rparr>"

definition report_New :: "string \<Rightarrow> go_error + report" where
  "report_New path =
     (if path_ext path \<noteq> ReportExt then Inl (Sentinel ErrInvalidReportExt)
      else case getReportTime (path_base path) of
        Inl err \<Rightarrow> Inl err
      | Inr rTime \<Rightarrow>
          Inr \<lparr>Path = path, Name = path_base path, TimeStamp = rTime, stash = no_stash\<rparr>)"

definition ReadJSON :: "report \<Rightarrow> ('z os_scheme, string) io" where
  "ReadJSON r =
     bindE (on_error (\<lambda>_. Errorf ''failed to read report file'') (os_read_file (Path r))) (\<lambda>data.
       if json_valid data then ret data
       else throw (Errorf ''invalid JSON data in report file''))"

definition MarkAsProcessed :: "report \<Rightarrow> string \<Rightarrow> string \<Rightarrow> ('z os_scheme, report) io" where
  "MarkAsProcessed r dest data =
     bindE (on_error (\<lambda>_. Errorf ''failed to read original report'') (ReadJSON r)) (\<lambda>origData.
     let newReport = \<lparr>Path = path_join [dest, Name r], Name = Name r, TimeStamp = TimeStamp r,
                      stash = \<lparr>stash_Path = Path r, stash_Data = origData\<rparr>\<rparr> in
     bindE (on_error (\<lambda>_. Errorf ''failed to write report'') (AtomicWrite (Path newReport) data)) (\<lambda>_.
     bindE (on_error (\<lambda>_. Errorf ''failed to remove report'') (os_remove (Path r))) (\<lambda>_.
       ret newReport)))"

definition UndoProcessed :: "report \<Rightarrow> ('z os_scheme, report) io" where
  "UndoProcessed r =
     (if stash_Path (stash r) = [] then throw (Errorf ''no stashed data to restore'')
      else
        bindE (on_error (\<lambda>_. Errorf ''failed to write report'')
                 (AtomicWrite (stash_Path (stash r)) (stash_Data (stash r)))) (\<lambda>_.
        bindE (on_error (\<lambda>_. Errorf ''failed to remove report'') (os_remove (Path r))) (\<lambda>_.
          ret \<lparr>Path = stash_Path (stash r), Name = Name r, TimeStamp = TimeStamp r,
               stash = no_stash\<rparr>)))"

definition GetPeriodStart :: "int \<Rightarrow> u32 \<Rightarrow> int" where
  "GetPeriodStart t period =
     (if period = 0 then t
      else if t < wrap_i64 (min_i64 + uint period) then min_i64
      else wrap_i64 (t - uint period))"

text \<open>The callback of \<open>walkReports\<close>: the reports found so far are threaded through.\<close>

definition walk_report_fn ::
    "string \<Rightarrow> int \<Rightarrow> int \<Rightarrow> (report list \<Rightarrow> bool) \<Rightarrow> report list walk_fn" where
  "walk_report_fn dir periodStart periodEnd earlyExitFn path isd err reports =
     (case err of
        Some _ \<Rightarrow> (WErr (Errorf ''failed to access path''), reports)
      | None \<Rightarrow>
         if isd then (if path \<noteq> dir then WSkipDir else WContinue, reports)
         else case report_New path of
           Inl _ \<Rightarrow> (WContinue, reports)
         | Inr r \<Rightarrow>
            if TimeStamp r < periodStart \<or> periodEnd < TimeStamp r then (WContinue, reports)
            else (if earlyExitFn (reports @ [r]) then WSkipAll else WContinue, reports @ [r]))"

definition walkReports ::
    "string \<Rightarrow> int \<Rightarrow> int \<Rightarrow> (report list \<Rightarrow> bool) \<Rightarrow> ('z os_scheme, report list) io" where
  "walkReports dir periodStart periodEnd earlyExitFn =
     path_walk_dir (walk_report_fn dir periodStart periodEnd earlyExitFn) dir []"

definition DuplicateExists :: "string \<Rightarrow> int \<Rightarrow> u32 \<Rightarrow> ('z os_scheme, bool) io" where
  "DuplicateExists dir t period =
     bindE (walkReports dir (GetPeriodStart t period) t (\<lambda>reports. 0 < length reports))
       (\<lambda>reports. ret (0 < length reports))"

definition GetAll :: "string \<Rightarrow> ('z os_scheme, report list) io" where
  "GetAll dir = walkReports dir min_i64 max_i64 (\<lambda>reports. False)"

text \<open>Removal whose failure is logged and forgotten.\<close>

definition remove_logged :: "report \<Rightarrow> ('z os_scheme, unit) io" where
  "remove_logged r = attempt (os_remove (Path r)) (\<lambda>_. ret ())"

definition ClearPeriod :: "string \<Rightarrow> int \<Rightarrow> u32 \<Rightarrow> bool \<Rightarrow> ('z os_scheme, unit) io" where
  "ClearPeriod dir t period dryRun =
     (let maxReports = wrap_i64 (uint period + 1) in
      bindE (walkReports dir (GetPeriodStart t period) t
               (\<lambda>reports. maxReports \<le> int (length reports)))
        (for_each (\<lambda>r. if dryRun then ret () else remove_logged r)))"

text \<open>
  \<open>slices.SortStableFunc\<close>, as the insertion sort it is on up to twenty elements; on more
  elements it merges sorted blocks, with the same result whenever the comparison is a
  consistent order.
\<close>

fun insert_back :: "('a \<Rightarrow> 'a \<Rightarrow> int) \<Rightarrow> 'a \<Rightarrow> 'a list \<Rightarrow> 'a list" where
  "insert_back cmp x [] = [x]"
| "insert_back cmp x (y # ys) = (if cmp x y < 0 then y # insert_back cmp x ys else x # y # ys)"

definition sort_stable_func :: "('a \<Rightarrow> 'a \<Rightarrow> int) \<Rightarrow> 'a list \<Rightarrow> 'a list" where
  "sort_stable_func cmp xs = rev (fold (insert_back cmp) xs [])"

definition report_cmp :: "report \<Rightarrow> report \<Rightarrow> int" where
  "report_cmp i j = wrap_i64 (TimeStamp i - TimeStamp j)"

definition Cleanup :: "string \<Rightarrow> u32 \<Rightarrow> ('z os_scheme, unit) io" where
  "Cleanup dir maxReports =
     (if 2 ^ 31 - 1 < uint maxReports
      then throw (Errorf ''maxReports is too large and would result in an overflow'')
      else
        bindE (GetAll dir) (\<lambda>reports.
          let m = unat maxReports in
          if length reports \<le> m then ret ()
          else for_each remove_logged
                 (take (length reports - m) (sort_stable_func report_cmp reports))))"

section \<open>Facts\<close>

subsection \<open>Names and times\<close>

text \<open>The canonical file name of a time.\<close>

definition report_name :: "int \<Rightarrow> string" where
  "report_name t = show_int t @ ReportExt"

lemma show_int_no_special: "slash \<notin> set (show_int t)" "CHR ''.'' \<notin> set (show_int t)"
  using show_int_chars digit_not_special by fastforce+

lemma report_name_plain [simp]: "plain_name (report_name t)"
  using show_int_no_special [of t]
  by (auto simp: report_name_def const_defs plain_name_def dest: arg_cong [of _ _ length])

lemma report_name_not_temp [simp]: "not_temp (report_name t)"
proof -
  have "\<not> has_suffix (xs @ ''json'') ''.tmp''" for xs :: string by (simp add: has_suffix_def)
  from this [of "show_int t @ ''.''"] show ?thesis
    by (simp add: not_temp_def report_name_def const_defs)
qed

lemma report_name_ext: "path_ext (report_name t) = ReportExt"
  using path_ext_dot [of "''json''" "show_int t"] show_int_no_special
  by (simp add: report_name_def const_defs)

lemma getReportTime_name: "in_i64 t \<Longrightarrow> getReportTime (report_name t) = Inr t"
  by (simp add: getReportTime_def report_name_ext)
     (simp add: report_name_def parse_int64_show_int)

lemma report_New_name:
  "in_i64 t \<Longrightarrow> report_New (path_join [dir, report_name t]) =
     Inr \<lparr>Path = path_join [dir, report_name t], Name = report_name t, TimeStamp = t, stash = no_stash\<rparr>"
  by (simp add: report_New_def report_name_ext getReportTime_name)

lemma report_New_Inr:
  assumes "report_New p = Inr r"
  shows "Path r = p" "Name r = path_base p" "in_i64 (TimeStamp r)" "stash r = no_stash"
    "path_ext p = ReportExt"
  using assms parse_int64_in_range
  by (auto simp: report_New_def getReportTime_def Let_def split: if_splits sum.splits option.splits)

lemma GetPeriodStart_eq:
  assumes "in_i64 t"
  shows "GetPeriodStart t period = max min_i64 (t - uint period)"
proof -
  have "in_i64 (min_i64 + uint period)"
    using uint_u32_bounds [of period] by (simp add: in_i64_def min_i64_def max_i64_def)
  then have "wrap_i64 (min_i64 + uint period) = min_i64 + uint period" by (rule wrap_i64_id)
  moreover have "wrap_i64 (t - uint period) = t - uint period"
    if "min_i64 + uint period \<le> t"
    using that assms uint_u32_bounds [of period]
    by (intro wrap_i64_id) (unfold in_i64_def, linarith)
  moreover have "period = 0 \<Longrightarrow> uint period = 0" by simp
  ultimately show ?thesis using assms
    by (auto simp: GetPeriodStart_def in_i64_def)
qed

subsection \<open>The stable sort\<close>

lemma mset_insert_back: "mset (insert_back cmp x ys) = add_mset x (mset ys)"
  by (induction ys) auto

lemma set_insert_back [simp]: "set (insert_back cmp x ys) = insert x (set ys)"
  by (induction ys) auto

lemma insert_back_sorted:
  fixes k :: "'a \<Rightarrow> 'b :: linorder"
  assumes "\<And>y. y \<in> set ys \<Longrightarrow> (cmp x y < 0) = (k x < k y)" "sorted (map k (rev ys))"
  shows "sorted (map k (rev (insert_back cmp x ys)))"
  using assms
proof (induction ys)
  case (Cons y ys)
  then show ?case
    by (auto simp: sorted_append)
qed simp

lemma sort_fold_sorted:
  fixes k :: "'a \<Rightarrow> 'b :: linorder"
  assumes "\<And>x y. x \<in> set xs \<Longrightarrow> y \<in> set xs \<union> set acc \<Longrightarrow> (cmp x y < 0) = (k x < k y)"
    "sorted (map k (rev acc))"
  shows "sorted (map k (rev (fold (insert_back cmp) xs acc)))"
  using assms
proof (induction xs arbitrary: acc)
  case (Cons x xs)
  have "sorted (map k (rev (insert_back cmp x acc)))"
    using Cons.prems by (intro insert_back_sorted) auto
  then show ?case using Cons.IH [of "insert_back cmp x acc"] Cons.prems(1) by simp
qed simp

lemma mset_sort_fold: "mset (fold (insert_back cmp) xs acc) = mset xs + mset acc"
  by (induction xs arbitrary: acc) (simp_all add: mset_insert_back)

lemma mset_sort_stable_func [simp]: "mset (sort_stable_func cmp xs) = mset xs"
  by (simp add: sort_stable_func_def mset_sort_fold)

lemma set_sort_stable_func [simp]: "set (sort_stable_func cmp xs) = set xs"
  by (metis mset_sort_stable_func set_mset_mset)

lemma length_sort_stable_func [simp]: "length (sort_stable_func cmp xs) = length xs"
  by (metis mset_sort_stable_func size_mset)

lemma sorted_sort_stable_func:
  fixes k :: "'a \<Rightarrow> 'b :: linorder"
  assumes "\<And>x y. x \<in> set xs \<Longrightarrow> y \<in> set xs \<Longrightarrow> (cmp x y < 0) = (k x < k y)"
  shows "sorted (map k (sort_stable_func cmp xs))"
  unfolding sort_stable_func_def using assms by (intro sort_fold_sorted) auto

subsection \<open>Walking a report directory\<close>

text \<open>The reports of a directory, in the order the walk finds them.\<close>

definition as_report :: "string \<Rightarrow> string \<Rightarrow> report option" where
  "as_report dir n = (case report_New (path_join [dir, n]) of Inl _ \<Rightarrow> None | Inr r \<Rightarrow> Some r)"

lemma as_report_Some: "as_report dir n = Some r \<longleftrightarrow> report_New (path_join [dir, n]) = Inr r"
  by (auto simp: as_report_def split: sum.splits)

definition reports_in :: "fsys \<Rightarrow> string \<Rightarrow> report list" where
  "reports_in f dir = List.map_filter (as_report dir) (dir_files f (resolve dir))"

definition in_window :: "int \<Rightarrow> int \<Rightarrow> report \<Rightarrow> bool" where
  "in_window a b r \<longleftrightarrow> a \<le> TimeStamp r \<and> TimeStamp r \<le> b"

lemma mem_map_filter: "y \<in> set (List.map_filter g xs) \<longleftrightarrow> (\<exists>x\<in>set xs. g x = Some y)"
  by (induction xs) (auto simp: List.map_filter_simps split: option.splits)

text \<open>What an early exit leaves of the list.\<close>

fun until :: "(report list \<Rightarrow> bool) \<Rightarrow> report list \<Rightarrow> report list \<Rightarrow> report list" where
  "until stop acc [] = acc"
| "until stop acc (r # rs) = (if stop (acc @ [r]) then acc @ [r] else until stop (acc @ [r]) rs)"

lemma until_never: "until (\<lambda>_. False) acc rs = acc @ rs"
  by (induction rs arbitrary: acc) auto

lemma until_length:
  assumes "\<And>rs. stop rs \<longleftrightarrow> k \<le> length rs"
  shows "length acc < k \<Longrightarrow> until stop acc rs = acc @ take (k - length acc) rs"
proof (induction rs arbitrary: acc)
  case (Cons r rs)
  then have "take (k - length acc) (r # rs) = r # take (k - Suc (length acc)) rs"
    by (simp add: take_Cons')
  with Cons show ?case by (auto simp: assms)
qed simp

lemma child_neq_dir: "plain_name n \<Longrightarrow> path_join [dir, n] \<noteq> dir"
  using resolve_join_plain [of n dir] by (metis append_self_conv list.distinct(1))

lemma visit_reports:
  "\<exists>r. visit (walk_report_fn dir a b stop) (map (\<lambda>n. path_join [dir, n]) ns) acc =
     (r, until stop acc (filter (in_window a b) (List.map_filter (as_report dir) ns))) \<and>
     r \<in> {WContinue, WSkipAll}"
proof (induction ns arbitrary: acc)
  case (Cons n ns)
  then show ?case
    by (cases "report_New (path_join [dir, n])")
       (auto simp: walk_report_fn_def as_report_def in_window_def List.map_filter_simps)
qed (simp add: List.map_filter_simps)

lemma walkReports_quiet:
  assumes "quiet w" "dir \<noteq> []" "fs_wf (fs w)" "is_dir_at (fs w) (resolve dir)"
  shows "walkReports dir a b stop w =
    (Inr (until stop [] (filter (in_window a b) (reports_in (fs w) dir))), w)"
proof -
  let ?fn = "walk_report_fn dir a b stop"
  obtain r where r: "visit ?fn (map (\<lambda>n. path_join [dir, n]) (dir_files (fs w) (resolve dir))) [] =
     (r, until stop [] (filter (in_window a b) (reports_in (fs w) dir)))" "r \<in> {WContinue, WSkipAll}"
    using visit_reports [of dir a b stop] unfolding reports_in_def by blast
  have "path_walk_dir ?fn dir [] w =
     (case visit ?fn (map (\<lambda>n. path_join [dir, n]) (dir_files (fs w) (resolve dir))) [] of
        (WErr e, c') \<Rightarrow> (Inl e, w) | (_, c') \<Rightarrow> (Inr c', w))"
    using assms
  proof (intro path_walk_shallow)
    fix n c assume "n \<in> set (dir_names (fs w) (resolve dir))"
    then have "plain_name n" using assms(3) dir_names_plain by blast
    then show "?fn (path_join [dir, n]) True None c = (WSkipDir, c)"
      by (simp add: walk_report_fn_def child_neq_dir)
  qed (auto simp: walk_report_fn_def split: sum.splits)
  with r show ?thesis by (auto simp: walkReports_def)
qed

lemma reports_in_iff:
  assumes "fs_wf f"
  shows "r \<in> set (reports_in f dir) \<longleftrightarrow>
    (\<exists>n. plain_name n \<and> is_file_at f (resolve dir @ [n]) \<and> report_New (path_join [dir, n]) = Inr r)"
proof -
  have "r \<in> set (reports_in f dir) \<longleftrightarrow>
     (\<exists>n \<in> set (dir_files f (resolve dir)). report_New (path_join [dir, n]) = Inr r)"
    by (auto simp: reports_in_def mem_map_filter as_report_Some)
  moreover have "n \<in> set (dir_files f (resolve dir)) \<longleftrightarrow>
      plain_name n \<and> is_file_at f (resolve dir @ [n])" for n
    using dir_names_get [OF assms, of n "resolve dir"] dir_names_iff [OF assms, of n "resolve dir"]
    by (auto simp: dir_files_def is_file_at_def is_dir_at_def split: option.splits node.splits)
  ultimately show ?thesis by blast
qed

lemma reports_in_path:
  assumes "fs_wf f" "r \<in> set (reports_in f dir)"
  shows "Path r \<noteq> []" "is_file_at f (resolve (Path r))" "resolve (Path r) = resolve dir @ [Name r]"
    "in_i64 (TimeStamp r)" "plain_name (Name r)"
proof -
  obtain n where n: "plain_name n" "is_file_at f (resolve dir @ [n])"
    "report_New (path_join [dir, n]) = Inr r"
    using assms by (auto simp: reports_in_iff)
  from report_New_Inr [OF n(3)] n(1,2)
  show "Path r \<noteq> []" "is_file_at f (resolve (Path r))" "resolve (Path r) = resolve dir @ [Name r]"
    "in_i64 (TimeStamp r)" "plain_name (Name r)"
    by (simp_all add: path_join_nonempty resolve_join_plain)
qed

lemma distinct_map_filter:
  assumes "distinct xs" "\<And>x y r. g x = Some r \<Longrightarrow> g y = Some r \<Longrightarrow> x \<in> set xs \<Longrightarrow> y \<in> set xs \<Longrightarrow> x = y"
  shows "distinct (List.map_filter g xs)"
  using assms
proof (induction xs)
  case (Cons x xs)
  then have "distinct (List.map_filter g xs)" by auto
  moreover have "r \<notin> set (List.map_filter g xs)" if "g x = Some r" for r
    using Cons.prems that by (fastforce simp: mem_map_filter)
  ultimately show ?case by (cases "g x") (simp_all add: List.map_filter_simps)
qed (simp add: List.map_filter_simps)

lemma distinct_reports_in:
  assumes "fs_wf f"
  shows "distinct (reports_in f dir)"
  unfolding reports_in_def
proof (rule distinct_map_filter)
  show "distinct (dir_files f (resolve dir))"
    by (simp add: dir_files_def distinct_dir_names)
  fix x y r
  assume m: "x \<in> set (dir_files f (resolve dir))" "y \<in> set (dir_files f (resolve dir))"
    and r: "as_report dir x = Some r" "as_report dir y = Some r"
  have "plain_name x" "plain_name y" using m dir_names_plain [OF assms] by (auto simp: dir_files_def)
  moreover have "path_join [dir, x] = path_join [dir, y]"
    using r report_New_Inr(1) by (metis as_report_Some)
  ultimately show "x = y" by (metis path_base_join)
qed

subsection \<open>Removing several reports\<close>

lemma remove_logged_quiet:
  assumes "quiet w" "Path r \<noteq> []"
    "is_file_at (fs w) (resolve (Path r)) \<or> fs_get (fs w) (resolve (Path r)) = None"
  shows "\<exists>f'. remove_logged r w = (Inr (), w\<lparr>fs := f'\<rparr>) \<and>
    (\<forall>q. fs_get f' q = (if q = resolve (Path r) then None else fs_get (fs w) q))"
proof (cases "is_file_at (fs w) (resolve (Path r))")
  case True
  let ?f = "AList.delete (resolve (Path r)) (fs w)"
  have "\<not> implicit_dir (resolve (Path r))"
    using True is_file_not_implicit by (auto simp: is_file_at_def split: option.splits node.splits)
  then have "\<forall>q. fs_get ?f q = (if q = resolve (Path r) then None else fs_get (fs w) q)"
    by (simp add: fs_get_delete)
  moreover have "remove_logged r w = (Inr (), w\<lparr>fs := ?f\<rparr>)"
    using os_remove_quiet [OF assms(1,2) True] by (simp add: remove_logged_def attempt_def)
  ultimately show ?thesis by blast
next
  case False
  with assms have n: "fs_get (fs w) (resolve (Path r)) = None" by simp
  then have "\<not> implicit_dir (resolve (Path r))" by auto
  then have "remove_logged r w = (Inr (), w\<lparr>fs := fs w\<rparr>)"
    using n assms(1,2)
    by (simp add: remove_logged_def attempt_def os_remove_def at_path_quiet fs_remove_def fs_get_def)
  with n show ?thesis by (intro exI [of _ "fs w"]) auto
qed

lemma remove_all_quiet:
  assumes "quiet w" "\<forall>r\<in>set rs. Path r \<noteq> [] \<and>
    (is_file_at (fs w) (resolve (Path r)) \<or> fs_get (fs w) (resolve (Path r)) = None)"
  shows "\<exists>f'. for_each remove_logged rs w = (Inr (), w\<lparr>fs := f'\<rparr>) \<and>
    (\<forall>q. fs_get f' q = (if q \<in> (resolve \<circ> Path) ` set rs then None else fs_get (fs w) q))"
  using assms
proof (induction rs arbitrary: w)
  case Nil
  then show ?case by (intro exI [of _ "fs w"]) simp
next
  case (Cons r rs)
  obtain f1 where f1: "remove_logged r w = (Inr (), w\<lparr>fs := f1\<rparr>)"
    "\<forall>q. fs_get f1 q = (if q = resolve (Path r) then None else fs_get (fs w) q)"
    using remove_logged_quiet [of w r] Cons.prems by auto
  have "\<exists>f'. for_each remove_logged rs (w\<lparr>fs := f1\<rparr>) = (Inr (), w\<lparr>fs := f1\<rparr>\<lparr>fs := f'\<rparr>) \<and>
    (\<forall>q. fs_get f' q = (if q \<in> (resolve \<circ> Path) ` set rs then None else fs_get f1 q))"
  proof -
    have "is_file_at f1 (resolve (Path r')) \<or> fs_get f1 (resolve (Path r')) = None"
      if "r' \<in> set rs" for r'
      using Cons.prems(2) f1(2) that
      by (cases "resolve (Path r') = resolve (Path r)") (auto simp: is_file_at_def)
    then show ?thesis using Cons.IH [of "w\<lparr>fs := f1\<rparr>"] Cons.prems by (simp cong: if_cong)
  qed
  then obtain f' where "for_each remove_logged rs (w\<lparr>fs := f1\<rparr>) = (Inr (), w\<lparr>fs := f'\<rparr>)"
    "\<forall>q. fs_get f' q = (if q \<in> (resolve \<circ> Path) ` set rs then None else fs_get f1 q)"
    by auto
  then have "for_each remove_logged (r # rs) w = (Inr (), w\<lparr>fs := f'\<rparr>) \<and>
    (\<forall>q. fs_get f' q = (if q \<in> (resolve \<circ> Path) ` set (r # rs) then None else fs_get (fs w) q))"
    using f1 by (simp add: bindE_def)
  then show ?case by blast
qed

subsection \<open>Behaviour of the operations without faults\<close>

text \<open>A report directory: it exists in a well-formed tree, and no fault is pending.\<close>

definition report_dir :: "'z os_scheme \<Rightarrow> string \<Rightarrow> bool" where
  "report_dir w dir \<longleftrightarrow> quiet w \<and> dir \<noteq> [] \<and> fs_wf (fs w) \<and> is_dir_at (fs w) (resolve dir)"

lemma walkReports_dir:
  "report_dir w dir \<Longrightarrow> walkReports dir a b stop w =
    (Inr (until stop [] (filter (in_window a b) (reports_in (fs w) dir))), w)"
  unfolding report_dir_def by (blast intro: walkReports_quiet)

lemma GetAll_quiet:
  assumes "report_dir w dir"
  shows "GetAll dir w = (Inr (reports_in (fs w) dir), w)"
proof -
  have "filter (in_window min_i64 max_i64) (reports_in (fs w) dir) = reports_in (fs w) dir"
    using assms reports_in_path(4) unfolding report_dir_def
    by (intro filter_True) (auto simp: in_window_def in_i64_def)
  then show ?thesis by (simp add: GetAll_def walkReports_dir [OF assms] until_never)
qed

lemma DuplicateExists_quiet:
  assumes "report_dir w dir"
  shows "DuplicateExists dir t period w =
    (Inr (\<exists>r\<in>set (reports_in (fs w) dir). in_window (GetPeriodStart t period) t r), w)"
proof -
  let ?rs = "filter (in_window (GetPeriodStart t period) t) (reports_in (fs w) dir)"
  have "until (\<lambda>reports. 0 < length reports) [] ?rs = take 1 ?rs"
    using until_length [of "\<lambda>reports. 0 < length reports" 1 "[]" ?rs] by (simp add: Suc_le_eq)
  moreover have "0 < length (take 1 ?rs) \<longleftrightarrow> (\<exists>r\<in>set ?rs. True)"
    by (cases ?rs) auto
  moreover have "(\<exists>r\<in>set ?rs. True) \<longleftrightarrow>
      (\<exists>r\<in>set (reports_in (fs w) dir). in_window (GetPeriodStart t period) t r)" by auto
  ultimately show ?thesis
    by (simp only: DuplicateExists_def bindE_def walkReports_dir [OF assms] ret_apply prod.case sum.case)
qed

text \<open>Reports whose files have the names the collector gives them.\<close>

definition canonical :: "report list \<Rightarrow> bool" where
  "canonical rs \<longleftrightarrow> list_all (\<lambda>r. Name r = report_name (TimeStamp r)) rs"

lemma window_small:
  assumes "fs_wf f" "canonical (reports_in f dir)"
  shows "length (filter (in_window a b) (reports_in f dir)) \<le> nat (b - a + 1)"
proof -
  let ?rs = "filter (in_window a b) (reports_in f dir)"
  have "inj_on TimeStamp (set ?rs)"
  proof (rule inj_onI)
    fix x y assume xy: "x \<in> set ?rs" "y \<in> set ?rs" "TimeStamp x = TimeStamp y"
    then have "Name x = Name y" using assms(2) by (simp add: canonical_def list_all_iff)
    moreover have mem: "x \<in> set (reports_in f dir)" "y \<in> set (reports_in f dir)" using xy by auto
    moreover obtain n m where "report_New (path_join [dir, n]) = Inr x" "plain_name n"
      "report_New (path_join [dir, m]) = Inr y" "plain_name m"
      using mem assms(1) by (auto simp: reports_in_iff)
    ultimately show "x = y" using report_New_Inr(2) path_base_join by (metis Inr_inject)
  qed
  moreover have "distinct ?rs" using distinct_reports_in [OF assms(1)] by simp
  ultimately have "length ?rs = card (TimeStamp ` set ?rs)"
    by (metis card_image distinct_card)
  also have "\<dots> \<le> card {a..b}"
    by (rule card_mono) (auto simp: in_window_def)
  finally show ?thesis by (simp add: algebra_simps)
qed

lemma for_each_ret: "for_each (\<lambda>x. ret ()) xs w = (Inr (), w)"
  by (induction xs) (simp_all add: bindE_def)

text \<open>The locations of the reports of a window.\<close>

definition window_paths :: "fsys \<Rightarrow> string \<Rightarrow> int \<Rightarrow> int \<Rightarrow> fpath set" where
  "window_paths f dir a b = (resolve \<circ> Path) ` set (filter (in_window a b) (reports_in f dir))"

lemma ClearPeriod_walk:
  assumes "report_dir w dir"
  shows "ClearPeriod dir t period dryRun w =
    for_each (\<lambda>r. if dryRun then ret () else remove_logged r)
      (take (Suc (unat period)) (filter (in_window (GetPeriodStart t period) t) (reports_in (fs w) dir))) w"
proof -
  have "wrap_i64 (uint period + 1) = int (Suc (unat period))"
    using uint_u32_bounds [of period]
    by (subst wrap_i64_id) (auto simp: in_i64_def min_i64_def max_i64_def)
  then have u: "until (\<lambda>reports. wrap_i64 (uint period + 1) \<le> int (length reports)) [] rs =
      take (Suc (unat period)) rs" for rs
    using until_length [of "\<lambda>reports. Suc (unat period) \<le> length reports"
        "Suc (unat period)" "[]" rs] by (simp only: of_nat_le_iff list.size diff_zero zero_less_Suc append_Nil)
  show ?thesis
    by (simp only: ClearPeriod_def bindE_def walkReports_dir [OF assms] u Let_def prod.case sum.case)
qed

lemma reports_removable:
  assumes "fs_wf f" "set rs \<subseteq> set (reports_in f dir)"
  shows "\<forall>r\<in>set rs. Path r \<noteq> [] \<and>
    (is_file_at f (resolve (Path r)) \<or> fs_get f (resolve (Path r)) = None)"
  using assms reports_in_path by blast

lemma report_cmp_consistent:
  assumes "in_i64 (TimeStamp x - TimeStamp y)"
  shows "(report_cmp x y < 0) = (TimeStamp x < TimeStamp y)"
  using assms by (simp add: report_cmp_def wrap_i64_id)

text \<open>Moving a report between two directories.\<close>

definition movable :: "'z os_scheme \<Rightarrow> report \<Rightarrow> string \<Rightarrow> string \<Rightarrow> bool" where
  "movable w r src dest \<longleftrightarrow>
     report_dir w src \<and> report_dir w dest \<and> resolve src \<noteq> resolve dest \<and>
     Path r = path_join [src, Name r] \<and> plain_name (Name r) \<and> not_temp (Name r) \<and>
     \<not> is_dir_at (fs w) (resolve dest @ [Name r])"

lemma ReadJSON_quiet:
  "quiet w \<Longrightarrow> Path r \<noteq> [] \<Longrightarrow> file_content (fs w) (resolve (Path r)) = Some d \<Longrightarrow> json_valid d \<Longrightarrow>
     ReadJSON r w = (Inr d, w)"
  by (simp add: ReadJSON_def bindE_def on_error_def os_read_file_quiet)

lemma AtomicWrite_quiet:
  assumes "quiet w" "plain_name n" "not_temp n" "fs_wf (fs w)"
    "is_dir_at (fs w) (resolve d)" "\<not> is_dir_at (fs w) (resolve d @ [n])"
  shows "\<exists>f'. AtomicWrite (path_join [d, n]) data w = (Inr (), w\<lparr>fs := f'\<rparr>) \<and> fs_wf f' \<and>
     (\<forall>q. fs_get f' q = (if q = resolve d @ [n] then Some (FileN data 384) else fs_get (fs w) q))"
proof -
  obtain f' where f': "atomicWrite (path_join [d, n]) data 0 w = (Inr (), w\<lparr>fs := f'\<rparr>)"
    "\<forall>q. fs_get f' q = (if q = resolve d @ [n] then Some (FileN data 384) else fs_get (fs w) q)"
    using atomicWrite_quiet [OF assms, of data 0] by (auto simp: file_mode_def)
  moreover have "fs_wf f'"
    using wf.frame_elim [OF wf_framed_atomicWrite [OF assms(2)] f'(1)] assms(4)
    by (simp add: fs_rel_def keeps_wf_def)
  ultimately show ?thesis by (auto simp: AtomicWrite_def)
qed

text \<open>Write one file, then remove another: what both moves do.\<close>

lemma write_then_remove:
  assumes w: "quiet w" "fs_wf (fs w)" and n: "plain_name n" "not_temp n"
    and d: "is_dir_at (fs w) (resolve d)" "\<not> is_dir_at (fs w) (resolve d @ [n])"
    and p: "p \<noteq> []" "is_file_at (fs w) (resolve p)" "resolve p \<noteq> resolve d @ [n]"
  shows "\<exists>f1 f'. AtomicWrite (path_join [d, n]) data w = (Inr (), w\<lparr>fs := f1\<rparr>) \<and>
     os_remove p (w\<lparr>fs := f1\<rparr>) = (Inr (), w\<lparr>fs := f'\<rparr>) \<and> fs_wf f' \<and>
     (\<forall>q. fs_get f' q = (if q = resolve d @ [n] then Some (FileN data 384)
        else if q = resolve p then None else fs_get (fs w) q))"
proof -
  obtain f1 where f1: "AtomicWrite (path_join [d, n]) data w = (Inr (), w\<lparr>fs := f1\<rparr>)" "fs_wf f1"
    "\<forall>q. fs_get f1 q = (if q = resolve d @ [n] then Some (FileN data 384) else fs_get (fs w) q)"
    using AtomicWrite_quiet [OF w(1) n w(2) d, of data] by blast
  let ?f = "AList.delete (resolve p) f1"
  have fp: "is_file_at f1 (resolve p)" using p f1(3) by (simp add: is_file_at_def)
  then have ni: "\<not> implicit_dir (resolve p)"
    using is_file_not_implicit by (auto simp: is_file_at_def split: option.splits node.splits)
  have rm: "os_remove p (w\<lparr>fs := f1\<rparr>) = (Inr (), w\<lparr>fs := ?f\<rparr>)"
    using os_remove_quiet [of "w\<lparr>fs := f1\<rparr>" p] w p(1) fp by simp
  have "fs_wf ?f"
    using wf.frame_elim [OF wf_framed_writes(1) rm] f1(2) by (simp add: fs_rel_def keeps_wf_def)
  moreover have "\<forall>q. fs_get ?f q = (if q = resolve d @ [n] then Some (FileN data 384)
        else if q = resolve p then None else fs_get (fs w) q)"
    using ni f1(3) p(3) by (simp add: fs_get_delete)
  ultimately show ?thesis using f1(1) rm by blast
qed

text \<open>The report that \<open>MarkAsProcessed\<close> returns.\<close>

definition processed :: "report \<Rightarrow> string \<Rightarrow> string \<Rightarrow> report" where
  "processed r dest d =
     \<lparr>Path = path_join [dest, Name r], Name = Name r, TimeStamp = TimeStamp r,
      stash = \<lparr>stash_Path = Path r, stash_Data = d\<rparr>\<rparr>"

lemma mark_quiet:
  assumes "movable w r src dest" "file_content (fs w) (resolve (Path r)) = Some d" "json_valid d"
  shows "\<exists>f1. MarkAsProcessed r dest data w = (Inr (processed r dest d), w\<lparr>fs := f1\<rparr>) \<and>
    fs_wf f1 \<and>
    (\<forall>q. fs_get f1 q = (if q = resolve dest @ [Name r] then Some (FileN data 384)
        else if q = resolve src @ [Name r] then None else fs_get (fs w) q))"
proof -
  let ?S = "resolve src @ [Name r]" and ?D = "resolve dest @ [Name r]"
  from assms(1) have w: "quiet w" "fs_wf (fs w)" and p: "Path r = path_join [src, Name r]"
    and n: "plain_name (Name r)" "not_temp (Name r)" and ne: "?S \<noteq> ?D"
    and dirs: "is_dir_at (fs w) (resolve dest)" "\<not> is_dir_at (fs w) ?D"
    by (auto simp: movable_def report_dir_def)
  have rs: "resolve (Path r) = ?S" "Path r \<noteq> []"
    using n(1) by (simp_all add: p resolve_join_plain path_join_nonempty)
  have S: "is_file_at (fs w) ?S" using assms(2) rs(1) by (auto simp: file_content_file is_file_at_def)
  obtain f0 f1 where m: "AtomicWrite (path_join [dest, Name r]) data w = (Inr (), w\<lparr>fs := f0\<rparr>)"
    "os_remove (Path r) (w\<lparr>fs := f0\<rparr>) = (Inr (), w\<lparr>fs := f1\<rparr>)" "fs_wf f1"
    "\<forall>q. fs_get f1 q = (if q = ?D then Some (FileN data 384)
        else if q = ?S then None else fs_get (fs w) q)"
    using write_then_remove [OF w n dirs, of "Path r" data] rs S ne by auto
  moreover have "MarkAsProcessed r dest data w = (Inr (processed r dest d), w\<lparr>fs := f1\<rparr>)"
    using m ReadJSON_quiet [OF w(1) rs(2) assms(2,3)]
    by (simp add: MarkAsProcessed_def bindE_def on_error_def Let_def processed_def)
  ultimately show ?thesis by blast
qed

lemma undo_quiet:
  assumes w: "quiet w" "fs_wf (fs w)" and p: "Path r = path_join [src, Name r]"
    and n: "plain_name (Name r)" "not_temp (Name r)"
    and d: "is_dir_at (fs w) (resolve src)" "fs_get (fs w) (resolve src @ [Name r]) = None"
    and f: "is_file_at (fs w) (resolve dest @ [Name r])"
    and ne: "resolve src @ [Name r] \<noteq> resolve dest @ [Name r]"
  shows "\<exists>f2. UndoProcessed (processed r dest d) w = (Inr (r\<lparr>stash := no_stash\<rparr>), w\<lparr>fs := f2\<rparr>) \<and>
    (\<forall>q. fs_get f2 q = (if q = resolve src @ [Name r] then Some (FileN d 384)
        else if q = resolve dest @ [Name r] then None else fs_get (fs w) q))"
proof -
  have rs: "Path r \<noteq> []" "resolve (path_join [dest, Name r]) = resolve dest @ [Name r]"
    "path_join [dest, Name r] \<noteq> []"
    using n(1) by (simp_all add: p resolve_join_plain path_join_nonempty)
  obtain f3 f2 where u: "AtomicWrite (Path r) d w = (Inr (), w\<lparr>fs := f3\<rparr>)"
    "os_remove (path_join [dest, Name r]) (w\<lparr>fs := f3\<rparr>) = (Inr (), w\<lparr>fs := f2\<rparr>)"
    and "\<forall>q. fs_get f2 q = (if q = resolve src @ [Name r] then Some (FileN d 384)
        else if q = resolve dest @ [Name r] then None else fs_get (fs w) q)"
    using write_then_remove [OF w n d(1), of "path_join [dest, Name r]" d] d(2) rs f ne p
    by (auto simp: is_dir_at_def)
  moreover have "UndoProcessed (processed r dest d) w = (Inr (r\<lparr>stash := no_stash\<rparr>), w\<lparr>fs := f2\<rparr>)"
    using u rs(1) by (simp add: UndoProcessed_def bindE_def on_error_def processed_def)
  ultimately show ?thesis by blast
qed

text \<open>What a successful call guarantees, whatever faults there are.\<close>

lemma ReadJSON_Inr:
  assumes "ReadJSON r w = (Inr d, w')"
  shows "file_content (fs w) (resolve (Path r)) = Some d \<and> json_valid d \<and> fs w' = fs w"
proof -
  obtain w1 where "os_read_file (Path r) w = (Inr d, w1)" "json_valid d" "w' = w1"
    using assms by (auto simp: ReadJSON_def bindE_eq_Inr on_error_eq_Inr split: if_splits)
  then show ?thesis unfolding os_read_file_def
    by (auto elim!: at_path_cases simp: fs_read_def file_content_def split: option.splits node.splits)
qed

lemma mark_Inr:
  assumes m: "MarkAsProcessed r dest data w = (Inr r', w')"
    and p: "Path r = path_join [src, Name r]" "plain_name (Name r)" "not_temp (Name r)"
      "resolve src \<noteq> resolve dest"
  shows "\<exists>d. r' = processed r dest d \<and> file_content (fs w) (resolve (Path r)) = Some d \<and> json_valid d"
    and "fs_get (fs w') (resolve (Path r)) = None"
    and "file_content (fs w') (resolve dest @ [Name r]) = Some data"
proof -
  obtain d w1 w2 where rd: "ReadJSON r w = (Inr d, w1)"
    and aw: "AtomicWrite (path_join [dest, Name r]) data w1 = (Inr (), w2)"
    and rm: "os_remove (Path r) w2 = (Inr (), w')" and r': "r' = processed r dest d"
    using m by (auto simp: MarkAsProcessed_def bindE_eq_Inr on_error_eq_Inr Let_def processed_def)
  have rs: "resolve (Path r) = resolve src @ [Name r]" using p by (simp add: resolve_join_plain)
  have c: "file_content (fs w2) (resolve dest @ [Name r]) = Some data"
    using atomicWrite_atomic(2) [OF p(2,3) aw [unfolded AtomicWrite_def] refl]
    by (simp add: file_content_file)
  have op: "fs_remove (resolve (Path r)) (fs w2) = Inr ((), fs w')"
    using rm unfolding os_remove_def by (auto elim!: at_path_cases)
  from fs_remove_get [OF op] rs p(4) c
  show "fs_get (fs w') (resolve (Path r)) = None"
    "file_content (fs w') (resolve dest @ [Name r]) = Some data"
    by (auto simp: file_content_def)
  show "\<exists>d. r' = processed r dest d \<and> file_content (fs w) (resolve (Path r)) = Some d \<and> json_valid d"
    using r' ReadJSON_Inr [OF rd] by blast
qed

section \<open>Properties\<close>

text \<open>The name the collector gives a report determines its time: \<open>New\<close> on the path built
  from any 64-bit time returns that time, and two names are equal only for the same time.\<close>

theorem report_name_roundtrip:
  assumes "in_i64 t"
  shows "\<exists>r. report_New (path_join [dir, report_name t]) = Inr r \<and> TimeStamp r = t \<and>
    Name r = report_name t \<and> Path r = path_join [dir, report_name t]"
  using report_New_name [OF assms, of dir] by simp

theorem report_name_roundtrip_witness:
  "\<exists>r. report_New (path_join [''/c'', report_name (- 12)]) = Inr r \<and> TimeStamp r = - 12 \<and>
    Name r = report_name (- 12) \<and> Path r = path_join [''/c'', report_name (- 12)]"
  by (rule report_name_roundtrip) code_simp

text \<open>The start of a period never lies after its end nor outside the 64-bit range: it is
  the difference, pinned to the least 64-bit integer.\<close>

theorem GetPeriodStart_saturates:
  assumes "in_i64 t"
  shows "GetPeriodStart t period = max min_i64 (t - uint period) \<and>
    in_i64 (GetPeriodStart t period) \<and> GetPeriodStart t period \<le> t"
  using GetPeriodStart_eq [OF assms] assms uint_u32_bounds [of period]
  unfolding in_i64_def max_def by (auto simp: not_le intro: order_trans [of _ t])

theorem GetPeriodStart_saturates_witness:
  "GetPeriodStart (min_i64 + 5) 100 = min_i64"
  using GetPeriodStart_saturates [of "min_i64 + 5" 100] by (simp add: in_i64_def min_i64_def max_i64_def)

text \<open>\<open>DuplicateExists\<close> answers whether a report file of the directory has a time in the
  window that ends at \<open>t\<close>, and changes nothing.\<close>

theorem DuplicateExists_correct:
  assumes "report_dir w dir" "in_i64 t"
  shows "DuplicateExists dir t period w =
    (Inr (\<exists>n r. plain_name n \<and> is_file_at (fs w) (resolve dir @ [n]) \<and>
      report_New (path_join [dir, n]) = Inr r \<and>
      t - uint period \<le> TimeStamp r \<and> TimeStamp r \<le> t), w)"
proof -
  have wf: "fs_wf (fs w)" using assms(1) by (simp add: report_dir_def)
  have "in_window (GetPeriodStart t period) t r \<longleftrightarrow> t - uint period \<le> TimeStamp r \<and> TimeStamp r \<le> t"
    if "in_i64 (TimeStamp r)" for r
    using that by (auto simp: in_window_def GetPeriodStart_eq [OF assms(2)] in_i64_def)
  then have "(\<exists>r\<in>set (reports_in (fs w) dir). in_window (GetPeriodStart t period) t r) \<longleftrightarrow>
     (\<exists>n r. plain_name n \<and> is_file_at (fs w) (resolve dir @ [n]) \<and>
      report_New (path_join [dir, n]) = Inr r \<and>
      t - uint period \<le> TimeStamp r \<and> TimeStamp r \<le> t)"
    using reports_in_iff [OF wf] report_New_Inr(3) by blast
  then show ?thesis by (simp add: DuplicateExists_quiet [OF assms(1)])
qed

definition example_reports :: os where
  "example_reports =
     \<lparr>fs = [([''/'', ''c''], DirN 493), ([''/'', ''d''], DirN 493),
            ([''/'', ''c'', ''5.json''], FileN ''{}'' 384), ([''/'', ''c'', ''9.json''], FileN ''[1]'' 384),
            ([''/'', ''c'', ''notes''], FileN [] 384), ([''/'', ''c'', ''sub''], DirN 493)],
      faults = [], seed = 0\<rparr>"

theorem DuplicateExists_correct_witness:
  "(\<exists>n r. plain_name n \<and> is_file_at (fs example_reports) (resolve ''/c'' @ [n]) \<and>
      report_New (path_join [''/c'', n]) = Inr r \<and>
      11 - uint (3 :: u32) \<le> TimeStamp r \<and> TimeStamp r \<le> 11) \<and>
   DuplicateExists ''/c'' 11 3 example_reports = (Inr True, example_reports)"
proof -
  have d: "DuplicateExists ''/c'' 11 3 example_reports = (Inr True, example_reports)" by code_simp
  have "report_dir example_reports ''/c''" "in_i64 11" by code_simp+
  from DuplicateExists_correct [OF this, of 3] d show ?thesis by simp
qed

text \<open>C13: \<open>ClearPeriod\<close> removes exactly the reports of the window when their files have
  canonical names (the early exit of the walk can then not leave one out), and in a dry run
  nothing changes.\<close>

theorem ClearPeriod_clears:
  assumes "report_dir w dir" "canonical (reports_in (fs w) dir)" "in_i64 t"
  shows "\<exists>f'. ClearPeriod dir t period dryRun w = (Inr (), w\<lparr>fs := f'\<rparr>) \<and>
    (\<forall>q. fs_get f' q =
       (if \<not> dryRun \<and> q \<in> window_paths (fs w) dir (GetPeriodStart t period) t
        then None else fs_get (fs w) q))"
proof -
  let ?rs = "filter (in_window (GetPeriodStart t period) t) (reports_in (fs w) dir)"
  have wf: "fs_wf (fs w)" and q: "quiet w" using assms(1) by (auto simp: report_dir_def)
  have "nat (t - GetPeriodStart t period + 1) \<le> Suc (unat period)"
    using GetPeriodStart_eq [OF assms(3), of period] by (simp add: nat_le_iff)
  then have "take (Suc (unat period)) ?rs = ?rs"
    using window_small [OF wf assms(2), of "GetPeriodStart t period" t] by simp
  then have c: "ClearPeriod dir t period dryRun w =
      for_each (\<lambda>r. if dryRun then ret () else remove_logged r) ?rs w"
    by (simp only: ClearPeriod_walk [OF assms(1)])
  show ?thesis
  proof (cases dryRun)
    case True
    then show ?thesis using c by (intro exI [of _ "fs w"]) (simp add: for_each_ret)
  next
    case False
    obtain f' where "for_each remove_logged ?rs w = (Inr (), w\<lparr>fs := f'\<rparr>)"
      "\<forall>q. fs_get f' q = (if q \<in> (resolve \<circ> Path) ` set ?rs then None else fs_get (fs w) q)"
      using remove_all_quiet [OF q, of ?rs] reports_removable [OF wf, of ?rs dir] by auto
    with False c show ?thesis unfolding window_paths_def by auto
  qed
qed

theorem ClearPeriod_clears_witness:
  "\<exists>f'. ClearPeriod ''/c'' 11 3 False example_reports = (Inr (), example_reports\<lparr>fs := f'\<rparr>) \<and>
    (\<forall>q. fs_get f' q =
       (if \<not> False \<and> q \<in> window_paths (fs example_reports) ''/c'' (GetPeriodStart 11 3) 11
        then None else fs_get (fs example_reports) q))"
  by (rule ClearPeriod_clears) code_simp+

text \<open>C12: \<open>Cleanup\<close> keeps the most recent reports: when no two times are further apart than a
  64-bit difference holds, exactly the surplus is removed, no removed report is newer than a
  kept one, and every other file stays. A limit above \<open>MaxInt32\<close> is an error.\<close>

theorem Cleanup_keeps_newest:
  assumes "report_dir w dir"
    "\<forall>x\<in>set (reports_in (fs w) dir). \<forall>y\<in>set (reports_in (fs w) dir). in_i64 (TimeStamp x - TimeStamp y)"
  shows "(2 ^ 31 \<le> uint m \<longrightarrow> (\<exists>e. Cleanup dir m w = (Inl e, w))) \<and>
    (uint m < 2 ^ 31 \<longrightarrow> (\<exists>R f'. Cleanup dir m w = (Inr (), w\<lparr>fs := f'\<rparr>) \<and>
       R \<subseteq> set (reports_in (fs w) dir) \<and> card R = length (reports_in (fs w) dir) - unat m \<and>
       (\<forall>r\<in>R. \<forall>k\<in>set (reports_in (fs w) dir) - R. TimeStamp r \<le> TimeStamp k) \<and>
       (\<forall>q. fs_get f' q = (if q \<in> (resolve \<circ> Path) ` R then None else fs_get (fs w) q))))"
proof -
  let ?rs = "reports_in (fs w) dir"
  let ?ss = "sort_stable_func report_cmp ?rs"
  let ?old = "take (length ?rs - unat m) ?ss" and ?new = "drop (length ?rs - unat m) ?ss"
  have wf: "fs_wf (fs w)" and q: "quiet w" using assms(1) by (auto simp: report_dir_def)
  have sorted: "sorted (map TimeStamp ?ss)"
    using assms(2) report_cmp_consistent by (intro sorted_sort_stable_func) blast
  have "distinct ?ss"
    using distinct_reports_in [OF wf, of dir] by (metis mset_sort_stable_func mset_eq_imp_distinct_iff)
  then have d: "distinct ?old" "set ?old \<inter> set ?new = {}"
    by (simp, metis append_take_drop_id distinct_append)
  have u: "set ?old \<union> set ?new = set ?rs"
    by (metis append_take_drop_id set_append set_sort_stable_func)
  then have sub: "set ?old \<subseteq> set ?rs" by blast
  have "sorted (map TimeStamp ?old @ map TimeStamp ?new)"
    using sorted by (metis append_take_drop_id map_append)
  then have le: "\<forall>r\<in>set ?old. \<forall>k\<in>set ?new. TimeStamp r \<le> TimeStamp k"
    by (auto simp: sorted_append)
  obtain f' where f': "for_each remove_logged ?old w = (Inr (), w\<lparr>fs := f'\<rparr>)"
    "\<forall>q. fs_get f' q = (if q \<in> (resolve \<circ> Path) ` set ?old then None else fs_get (fs w) q)"
    using remove_all_quiet [OF q reports_removable [OF wf sub]] by blast
  have "card (set ?old) = length ?rs - unat m" using d(1) by (simp add: distinct_card)
  moreover have "Cleanup dir m w = (Inr (), w\<lparr>fs := f'\<rparr>)" if "uint m < 2 ^ 31"
    using that f'(1) by (auto simp: Cleanup_def bindE_def Let_def GetAll_quiet [OF assms(1)])
  moreover have "\<exists>e. Cleanup dir m w = (Inl e, w)" if "2 ^ 31 \<le> uint m"
    using that by (auto simp: Cleanup_def)
  moreover have "set ?rs - set ?old = set ?new" using u d(2) by blast
  ultimately show ?thesis using sub le f'(2)
    by (intro conjI impI exI [of _ "set ?old"] exI [of _ f']) simp_all
qed

theorem Cleanup_keeps_newest_witness:
  "\<exists>R f'. Cleanup ''/c'' 1 example_reports = (Inr (), example_reports\<lparr>fs := f'\<rparr>) \<and>
     R \<subseteq> set (reports_in (fs example_reports) ''/c'') \<and> card R = 1 \<and>
     (\<forall>r\<in>R. \<forall>k\<in>set (reports_in (fs example_reports) ''/c'') - R. TimeStamp r \<le> TimeStamp k)"
proof -
  have h: "report_dir example_reports ''/c''"
    "\<forall>x\<in>set (reports_in (fs example_reports) ''/c'').
       \<forall>y\<in>set (reports_in (fs example_reports) ''/c''). in_i64 (TimeStamp x - TimeStamp y)"
    "length (reports_in (fs example_reports) ''/c'') = 2" by code_simp+
  have "uint (1 :: u32) < 2 ^ 31" "unat (1 :: u32) = 1" by simp_all
  with Cleanup_keeps_newest [OF h(1,2), of 1] h(3) show ?thesis by auto
qed

text \<open>Without that condition the comparison wraps: of two reports at the ends of the 64-bit
  range the newer one is sorted first, and is the one that is removed.\<close>

lemma Cleanup_comparison_wraps:
  assumes "TimeStamp a = min_i64" "TimeStamp b = max_i64"
  shows "sort_stable_func report_cmp [a, b] = [b, a]"
  by (simp add: sort_stable_func_def report_cmp_def assms wrap_i64_def min_i64_def max_i64_def)

text \<open>With two names for one time, \<open>ClearPeriod\<close> stops before it has seen all reports of the
  window.\<close>

lemma ClearPeriod_misses_alias:
  "let w = \<lparr>fs = [([''c''], DirN 493), ([''c'', ''+5.json''], FileN [] 384),
       ([''c'', ''5.json''], FileN [] 384)], faults = [], seed = 0\<rparr> in
   fs (snd (ClearPeriod ''c'' 5 0 False w)) =
     [([''c''], DirN 493), ([''c'', ''5.json''], FileN [] 384)]"
  by code_simp

text \<open>Marking a report as processed moves it: the file of the source directory is gone and
  the destination holds the data given. Undoing it restores the original content under the
  original path and removes the processed file; every other file stays as it was throughout.\<close>

theorem MarkAsProcessed_UndoProcessed:
  assumes "movable w r src dest" "file_content (fs w) (resolve (Path r)) = Some d" "json_valid d"
  shows "\<exists>r' f1 r'' f2.
    MarkAsProcessed r dest data w = (Inr r', w\<lparr>fs := f1\<rparr>) \<and>
    UndoProcessed r' (w\<lparr>fs := f1\<rparr>) = (Inr r'', w\<lparr>fs := f2\<rparr>) \<and>
    Path r' = path_join [dest, Name r] \<and> TimeStamp r' = TimeStamp r \<and>
    r'' = r\<lparr>stash := no_stash\<rparr> \<and>
    (\<forall>q. file_content f1 q = (if q = resolve dest @ [Name r] then Some data
       else if q = resolve src @ [Name r] then None else file_content (fs w) q)) \<and>
    (\<forall>q. file_content f2 q = (if q = resolve dest @ [Name r] then None else file_content (fs w) q))"
proof -
  let ?S = "resolve src @ [Name r]" and ?D = "resolve dest @ [Name r]"
  from assms(1) have w: "quiet w" and p: "resolve (Path r) = ?S" "Path r = path_join [src, Name r]"
    and n: "plain_name (Name r)" "not_temp (Name r)" and ne: "?S \<noteq> ?D"
    and d: "is_dir_at (fs w) (resolve src)" "\<not> is_dir_at (fs w) ?D"
    by (auto simp: movable_def report_dir_def resolve_join_plain)
  obtain f1 where m: "MarkAsProcessed r dest data w = (Inr (processed r dest d), w\<lparr>fs := f1\<rparr>)"
    "fs_wf f1" and g1: "\<forall>q. fs_get f1 q = (if q = ?D then Some (FileN data 384)
        else if q = ?S then None else fs_get (fs w) q)"
    using mark_quiet [OF assms] by blast
  have "is_dir_at f1 (resolve src)" using d g1 by (auto simp: is_dir_at_def)
  moreover have "fs_get f1 ?S = None" "is_file_at f1 ?D" using g1 ne by (simp_all add: is_file_at_def)
  ultimately obtain f2 where u: "UndoProcessed (processed r dest d) (w\<lparr>fs := f1\<rparr>) =
      (Inr (r\<lparr>stash := no_stash\<rparr>), w\<lparr>fs := f2\<rparr>)"
    and g2: "\<forall>q. fs_get f2 q = (if q = ?S then Some (FileN d 384)
        else if q = ?D then None else fs_get f1 q)"
    using undo_quiet [of "w\<lparr>fs := f1\<rparr>" r src dest d] w m(2) n p(2) ne by (auto cong: if_cong)
  have c1: "file_content f1 q = (if q = ?D then Some data else if q = ?S then None
      else file_content (fs w) q)" for q
    using g1 by (simp add: file_content_def)
  have "file_content f2 q = (if q = ?D then None else file_content (fs w) q)" for q
    using g1 g2 ne assms(2) p(1) by (simp add: file_content_def)
  with m(1) u c1 show ?thesis by (fastforce simp: processed_def)
qed

theorem MarkAsProcessed_UndoProcessed_witness:
  "let r = \<lparr>Path = ''/c/5.json'', Name = ''5.json'', TimeStamp = 5, stash = no_stash\<rparr> in
   \<exists>r' f1 r'' f2.
    MarkAsProcessed r ''/d'' ''x'' example_reports = (Inr r', example_reports\<lparr>fs := f1\<rparr>) \<and>
    UndoProcessed r' (example_reports\<lparr>fs := f1\<rparr>) = (Inr r'', example_reports\<lparr>fs := f2\<rparr>) \<and> r'' = r"
proof -
  let ?r = "\<lparr>Path = ''/c/5.json'', Name = ''5.json'', TimeStamp = 5, stash = no_stash\<rparr>"
  have "movable example_reports ?r ''/c'' ''/d''"
    "file_content (fs example_reports) (resolve (Path ?r)) = Some ''{}''" "json_valid ''{}''"
    by code_simp+
  from MarkAsProcessed_UndoProcessed [OF this, of "''x''"] show ?thesis
    by (auto simp: Let_def)
qed

end
