(* ===== verification/Os_Frames.thy ===== *)
theory Os_Frames
  imports Report
begin

text \<open>
  Frame facts for the operations on files, whatever system calls fail: they leave the part of
  the state beyond the operating system alone, they make no faults appear, they keep the tree
  well-formed, and those that only read keep the file system.
\<close>

context effect_frame
begin

text \<open>Only the values a call can return matter for what follows it.\<close>

lemma framed_bindE_result:
  assumes "framed R m" and "\<And>x w w'. m w = (Inr x, w') \<Longrightarrow> framed R (k x)"
  shows "framed R (bindE m k)"
  unfolding framed_def
proof
  fix w
  obtain r w1 where m: "m w = (r, w1)" by fastforce
  then have "R w w1" using assms(1) framed_elim by blast
  moreover have "R w1 (snd (k x w1))" if "r = Inr x" for x
    using assms(2) m that by (simp add: framed_def)
  ultimately show "R w (snd (bindE m k w))"
    using m by (cases r) (auto simp: bindE_def intro: R_trans)
qed

end

section \<open>The part of the state beyond the operating system\<close>

definition same_more :: "'z os_scheme \<Rightarrow> 'z os_scheme \<Rightarrow> bool" where
  "same_more w w' \<longleftrightarrow> os.more w' = os.more w \<and> (quiet w \<longrightarrow> quiet w')"

interpretation more: effect_frame same_more
  by unfold_locales (auto simp: same_more_def)

lemmas more_intros = more.framed_ret more.framed_throw more.framed_bindE more.framed_attempt
  more.framed_on_error more.framed_for_each more.framed_collect_errors

lemma more_syscall: "framed same_more (syscall op)"
  by (auto simp: framed_def same_more_def syscall_def Let_def split: option.splits sum.splits)

lemma more_at_path: "framed same_more (at_path p op)"
  by (simp add: at_path_def more_syscall)

lemma more_create_temp: "framed same_more (os_create_temp d)"
proof -
  have "framed same_more (\<lambda>w. at_path d (fs_create_temp (seed w)) w)"
    using more_at_path unfolding framed_def by blast
  then show ?thesis unfolding os_create_temp_def by (intro more_intros)
qed

lemma more_mkdir_all: "framed same_more (os_mkdir_all p perm)"
  by (simp add: os_mkdir_all_def more_intros more_syscall)

lemma more_calls:
  "framed same_more (os_stat p)" "framed same_more (os_read_file p)"
  "framed same_more (os_remove p)" "framed same_more (os_chmod p m)"
  "framed same_more (os_rename p q)" "framed same_more (os_read_dir p)"
  "framed same_more (os_write p d)" "framed same_more os_close"
  by (simp_all add: os_stat_def os_read_file_def os_remove_def os_chmod_def os_rename_def
      os_read_dir_def os_write_def os_close_def more_at_path more_syscall)

lemma walk_more:
  shows "same_more w (snd (walk_dir n fn p isd c w))"
    and "same_more w (snd (walk_list n fn p es c w))"
proof (induction n fn p isd c w and n fn p es c w rule: walk_dir_walk_list.induct)
  case (2 n fn path isd c w)
  obtain r w1 where rd: "os_read_dir path w = (r, w1)" by fastforce
  then have "same_more w w1" using more.framed_elim [OF more_calls(6)] by blast
  moreover obtain a c1 where "fn path isd None c = (a, c1)" by fastforce
  ultimately show ?case
    using 2 rd more.R_refl more.R_trans [of w w1]
    by (cases r) (auto split: prod.splits)
next
  case (4 n fn path name isd es c w)
  obtain r c1 w1 where s: "walk_dir n fn (path_join [path, name]) isd c w = ((r, c1), w1)"
    by (metis surj_pair)
  with 4 show ?case by (cases "r = WContinue") (auto intro: more.R_trans)
qed (auto intro: more.R_refl)

lemma more_walk: "framed same_more (path_walk_dir fn root c)"
  unfolding framed_def
proof
  fix w :: "'a os_scheme"
  obtain r1 w1 where s: "os_stat root w = (r1, w1)" by fastforce
  then have "same_more w w1" using more.framed_elim [OF more_calls(1)] by blast
  let ?x = "case r1 of Inl e \<Rightarrow> (fn root False (Some e) c, w1)
    | Inr nd \<Rightarrow> walk_dir (Suc (Suc (tree_depth (fs w)))) fn root (is_dir_at (fs w) (resolve root)) c w1"
  have "same_more w1 (snd ?x)" by (cases r1) (simp_all only: sum.case snd_conv walk_more(1) more.R_refl)
  with \<open>same_more w w1\<close> have "same_more w (snd ?x)" by (rule more.R_trans)
  moreover obtain a c' w' where x: "?x = ((a, c'), w')" by (metis surj_pair)
  moreover have "snd (path_walk_dir fn root c w) = w'"
    using s x by (cases r1; cases a) (simp_all add: path_walk_dir_def del: walk_dir.simps)
  ultimately show "same_more w (snd (path_walk_dir fn root c w))" by simp
qed

section \<open>Whole operations\<close>

lemma more_outcome: "framed same_more (outcome r)"
  by (auto simp: outcome_def intro: more_intros split: sum.splits)

lemma more_atomicWrite: "framed same_more (atomicWrite path data perm)"
  unfolding atomicWrite_def atomicWrite_body_def
  by (auto intro!: more_intros more_create_temp more_calls more_outcome split: sum.splits)

lemma more_AtomicWrite: "framed same_more (AtomicWrite path data)"
  "framed same_more (AtomicWriteWithPerm path data dp fp)"
  by (auto simp: AtomicWrite_def AtomicWriteWithPerm_def
      intro!: more_intros more_mkdir_all more_atomicWrite)

lemma more_ReadJSON: "framed same_more (ReadJSON r)"
  by (auto simp: ReadJSON_def intro!: more_intros more_calls)

lemma more_remove_logged: "framed same_more (remove_logged r)"
  by (auto simp: remove_logged_def intro!: more_intros more_calls)

lemma more_reports:
  "framed same_more (MarkAsProcessed r dest data)" "framed same_more (UndoProcessed r)"
  "framed same_more (walkReports dir a b stop)" "framed same_more (GetAll dir)"
  "framed same_more (DuplicateExists dir t period)" "framed same_more (Cleanup dir m)"
  "framed same_more (ClearPeriod dir t period dry)"
  by (auto simp: MarkAsProcessed_def UndoProcessed_def walkReports_def GetAll_def
      DuplicateExists_def Cleanup_def ClearPeriod_def Let_def
      intro!: more_intros more_ReadJSON more_AtomicWrite more_calls more_walk more_remove_logged)

lemma more_toml: "framed same_more (toml_decode_file dec p)"
  by (auto simp: toml_decode_file_def intro!: more_intros more_calls split: option.splits)

lemma more_GetState: "framed same_more (GetState decS decC cm source)"
  by (auto simp: GetState_def IsOptedOut_def readFile_def intro!: more_intros more_toml
      split: option.splits sum.splits)

section \<open>Operations that only read\<close>

text \<open>The identity relation is a frame, so the reading operations keep the file system.\<close>

interpretation same: fs_frame "(=)"
  by unfold_locales auto

lemmas same_intros = same.frame_intros same.framed_reads same.framed_walk

lemma same_ReadJSON: "framed (fs_rel (=)) (ReadJSON r)"
  by (auto simp: ReadJSON_def intro!: same_intros)

lemma same_walkReports:
  "framed (fs_rel (=)) (walkReports dir a b stop)" "framed (fs_rel (=)) (GetAll dir)"
  "framed (fs_rel (=)) (DuplicateExists dir t period)"
  by (auto simp: walkReports_def GetAll_def DuplicateExists_def intro!: same_intros)

lemma framed_same: "framed (fs_rel (=)) m \<Longrightarrow> m w = (r, w') \<Longrightarrow> fs w' = fs w"
  using same.frame_elim by (fastforce simp: fs_rel_def)

end
