(* ===== verification/Go_Url.thy ===== *)
theory Go_Url
  imports Go_Path Go_Json
begin

text \<open>
  The part of Go's \<open>net/url\<close> that the uploader uses: \<open>url.Parse\<close>, replacing the path, and
  \<open>URL.String\<close>. User information and bracketed hosts, which no URL of the program has, are
  rejected rather than modelled.
\<close>

record url =
  Scheme :: string
  Opaque :: string
  Host :: string
  UPath :: string
  RawQuery :: "string option"
  Fragment :: "string option"

definition is_letter :: "char \<Rightarrow> bool" where
  "is_letter c =
     (let n = of_char c :: nat in (97 \<le> n \<and> n \<le> 122) \<or> (65 \<le> n \<and> n \<le> 90))"

definition is_ctl :: "char \<Rightarrow> bool" where
  "is_ctl c = (let n = of_char c :: nat in n < 32 \<or> n = 127)"

section \<open>Escaping\<close>

text \<open>\<open>shouldEscape(c, encodePath)\<close>.\<close>

definition path_safe :: "char \<Rightarrow> bool" where
  "path_safe c \<longleftrightarrow> is_letter c \<or> is_digit c \<or> c \<in> set ''-_.~$&+,/:;=@''"

definition upper_hex :: "nat \<Rightarrow> char" where
  "upper_hex n = char_of (if n < 10 then 48 + n else 55 + n)"

definition escape_path :: "string \<Rightarrow> string" where
  "escape_path s = concat (map (\<lambda>c. if path_safe c then [c]
     else let n = of_char c :: nat in [CHR ''%'', upper_hex (n div 16), upper_hex (n mod 16)]) s)"

fun unescape :: "string \<Rightarrow> string option" where
  "unescape [] = Some []"
| "unescape (c # cs) =
     (if c = CHR ''%'' then
        (case cs of
           a # b # rest \<Rightarrow>
             (case (hex_val a, hex_val b) of
                (Some x, Some y) \<Rightarrow> map_option ((#) (char_of (16 * x + y))) (unescape rest)
              | _ \<Rightarrow> None)
         | _ \<Rightarrow> None)
      else map_option ((#) c) (unescape cs))"

section \<open>Parsing\<close>

text \<open>\<open>getScheme\<close>: the scheme and the rest; None when the scheme is missing before a colon.\<close>

fun get_scheme :: "string \<Rightarrow> string \<Rightarrow> string \<Rightarrow> (string \<times> string) option" where
  "get_scheme raw acc [] = Some ([], raw)"
| "get_scheme raw acc (c # cs) =
     (if is_letter c then get_scheme raw (acc @ [c]) cs
      else if is_digit c \<or> c \<in> set ''+-.'' then
        (if acc = [] then Some ([], raw) else get_scheme raw (acc @ [c]) cs)
      else if c = CHR '':'' then (if acc = [] then None else Some (acc, cs))
      else Some ([], raw))"

definition cut_opt :: "char \<Rightarrow> string \<Rightarrow> string \<times> string option" where
  "cut_opt c s =
     (if c \<in> set s then (takeWhile (\<lambda>x. x \<noteq> c) s, Some (tl (dropWhile (\<lambda>x. x \<noteq> c) s)))
      else (s, None))"

definition host_ok :: "string \<Rightarrow> bool" where
  "host_ok h \<longleftrightarrow> CHR ''@'' \<notin> set h \<and> CHR 0x5B \<notin> set h \<and> CHR ''%'' \<notin> set h \<and>
     list_all (\<lambda>c. path_safe c \<or> c \<in> set (''!*()<>'' @ [CHR 0x22, CHR 0x27])) h \<and>
     (case cut_opt (CHR '':'') (rev h) of
        (_, None) \<Rightarrow> True
      | (port, Some _) \<Rightarrow> list_all is_digit port)"

definition url_parse :: "string \<Rightarrow> url option" where
  "url_parse raw =
     (let (u, frag) = cut_opt (CHR ''#'') raw in
      if list_ex is_ctl u then None
      else case get_scheme u [] u of
        None \<Rightarrow> None
      | Some (sch, rest0) \<Rightarrow>
         (let (rest, query) = cut_opt (CHR ''?'') rest0;
              mk = (\<lambda>h p. \<lparr>Scheme = to_lower sch, Opaque = [], Host = h, UPath = p,
                          RawQuery = query, Fragment = frag\<rparr>) in
          if \<not> is_rooted rest \<and> sch \<noteq> [] then
            Some \<lparr>Scheme = to_lower sch, Opaque = rest, Host = [], UPath = [],
                  RawQuery = query, Fragment = frag\<rparr>
          else if \<not> is_rooted rest \<and> CHR '':'' \<in> set (takeWhile (\<lambda>x. x \<noteq> slash) rest) then None
          else if has_prefix rest ''//'' \<and> (sch \<noteq> [] \<or> \<not> has_prefix rest ''///'') then
            (let h = takeWhile (\<lambda>x. x \<noteq> slash) (drop 2 rest);
                 p = dropWhile (\<lambda>x. x \<noteq> slash) (drop 2 rest) in
             if host_ok h then map_option (mk h) (unescape p) else None)
          else map_option (mk []) (unescape rest)))"

definition url_string :: "url \<Rightarrow> string" where
  "url_string u =
     (if Scheme u \<noteq> [] then Scheme u @ '':'' else []) @
     (if Opaque u \<noteq> [] then Opaque u
      else
        (let p = escape_path (UPath u) in
         (if Host u \<noteq> [] \<or> (Scheme u \<noteq> [] \<and> has_prefix p ''//'') then ''//'' else []) @ Host u @
         (if p \<noteq> [] \<and> \<not> is_rooted p \<and> Host u \<noteq> [] then [slash] else []) @
         (if Scheme u = [] \<and> Host u = [] \<and> CHR '':'' \<in> set (takeWhile (\<lambda>x. x \<noteq> slash) p)
          then ''./'' else []) @ p)) @
     (case RawQuery u of None \<Rightarrow> [] | Some q \<Rightarrow> ''?'' @ q) @
     (case Fragment u of None \<Rightarrow> [] | Some f \<Rightarrow> if f = [] then [] else ''#'' @ f)"

section \<open>Facts\<close>

lemma escape_path_safe: "list_all path_safe s \<Longrightarrow> escape_path s = s"
  by (induction s) (auto simp: escape_path_def)

end
