(* ===== verification/Uploader.thy ===== *)
theory Uploader
  imports Os_Frames Go_Url
begin

text \<open>
  The package \<open>insights/internal/uploader\<close>. The state adds to the file system what else an
  upload meets: the clock, the draws of the random generator, the answers of the server in the
  order they arrive, the requests that left the machine and the pauses made.

  The reports of a source, and the sources, are uploaded by goroutines behind a semaphore; each
  works on the files of its own report. The order in which they run is an argument \<open>order\<close> of
  the operations, so a theorem for every order is a theorem for every such schedule. A
  semaphore of capacity zero blocks for ever, which the runtime reports as a deadlock.
\<close>

datatype http_outcome = HttpErr | HttpStatus nat

record request =
  req_url :: string
  req_body :: string
  req_outcome :: http_outcome

record client = os +
  clock :: int
  rands :: "int list"
  responses :: "http_outcome list"
  sent :: "request list"
  slept :: "int list"

type_synonym consent_fn = "string \<Rightarrow> (client, bool) io"

record uploader =
  minAge :: int
  dryRun :: bool
  cacheDir :: string
  baseServerURL :: string
  maxReports :: u32
  baseRetryPeriod :: int
  maxRetryPeriod :: int
  maxAttempts :: u32
  responseTimeout :: int
  maxConcurrentUploadsPerSource :: u32
  maxConcurrentSources :: u32

section \<open>Creation and configuration\<close>

definition second :: int where "second = 1000000000"

record upload_options =
  opt_baseServerURL :: string
  opt_maxReports :: u32
  opt_baseRetryPeriod :: int
  opt_maxRetryPeriod :: int
  opt_maxAttempts :: u32
  opt_responseTimeout :: int
  opt_maxConcurrentUploadsPerSource :: u32
  opt_maxConcurrentSources :: u32

definition defaultOptions :: upload_options where
  "defaultOptions =
     \<lparr>opt_baseServerURL = ''https://metrics.ubuntu.com'', opt_maxReports = of_nat MaxReports,
      opt_baseRetryPeriod = 30 * second, opt_maxRetryPeriod = 30 * 60 * second,
      opt_maxAttempts = 15, opt_responseTimeout = 10 * second,
      opt_maxConcurrentUploadsPerSource = of_nat Constants.MaxConcurrentUploadsPerSource,
      opt_maxConcurrentSources = of_nat MaxConcurrentSources\<rparr>"

definition uploader_New ::
    "string \<Rightarrow> u32 \<Rightarrow> bool \<Rightarrow> (upload_options \<Rightarrow> upload_options) list \<Rightarrow> uploader" where
  "uploader_New cachePath minA dryR args =
     (let opts = fold (\<lambda>opt o1. opt o1) args defaultOptions in
      \<lparr>minAge = wrap_i64 (uint minA * second), dryRun = dryR, cacheDir = cachePath,
       baseServerURL = opt_baseServerURL opts, maxReports = opt_maxReports opts,
       baseRetryPeriod = opt_baseRetryPeriod opts, maxRetryPeriod = opt_maxRetryPeriod opts,
       maxAttempts = opt_maxAttempts opts, responseTimeout = opt_responseTimeout opts,
       maxConcurrentUploadsPerSource = opt_maxConcurrentUploadsPerSource opts,
       maxConcurrentSources = opt_maxConcurrentSources opts\<rparr>)"

definition source_walk_fn :: "string \<Rightarrow> string list walk_fn" where
  "source_walk_fn dir path isd err sources =
     (case err of
        Some e \<Rightarrow> (WErr e, sources)
      | None \<Rightarrow>
         if \<not> isd then (WContinue, sources)
         else if path = dir then (WContinue, sources)
         else if path_dir path \<noteq> dir then (WSkipDir, sources)
         else (WContinue, sources @ [path_base path]))"

definition GetAllSources :: "string \<Rightarrow> ('z os_scheme, string list) io" where
  "GetAllSources dir = path_walk_dir (source_walk_fn dir) dir []"

record upload_config =
  Sources :: "string list"
  MinAge :: u32
  Force :: bool
  DryRun :: bool
  Retry :: bool

definition upload_Sanitize :: "upload_config \<Rightarrow> string \<Rightarrow> ('z os_scheme, upload_config) io" where
  "upload_Sanitize c cacheD =
     (if Sources c = [] then
        bindE (on_error (\<lambda>_. Errorf ''failed to get all sources'') (GetAllSources cacheD))
          (\<lambda>ss. ret (c\<lparr>Sources := ss\<rparr>))
      else ret c)"

section \<open>Sending\<close>

definition getURL :: "uploader \<Rightarrow> string \<Rightarrow> go_error + string" where
  "getURL um source =
     (case url_parse (baseServerURL um) of
        None \<Rightarrow> Inl (Errorf ''failed to parse base server URL'')
      | Some u \<Rightarrow> Inr (url_string (u\<lparr>UPath := path_join [UPath u, ''upload'', source]\<rparr>)))"

text \<open>The next answer of the server; when none is listed the connection fails.\<close>

definition send :: "uploader \<Rightarrow> string \<Rightarrow> string \<Rightarrow> (client, unit) io" where
  "send um u data = (\<lambda>w.
     if url_parse u = None then (Inl (Errorf ''failed to create request''), w)
     else
       (let out = (case responses w of [] \<Rightarrow> HttpErr | x # _ \<Rightarrow> x);
            w' = w\<lparr>responses := tl (responses w),
                   sent := sent w @ [\<lparr>req_url = u, req_body = data, req_outcome = out\<rparr>]\<rparr> in
        case out of
          HttpErr \<Rightarrow>
            (Inl (Joined [Sentinel ErrSendFailure, Errorf ''failed to send HTTP request'']), w')
        | HttpStatus code \<Rightarrow>
            if code \<noteq> 202
            then (Inl (Joined [Sentinel ErrSendFailure, Errorf ''unexpected status code'']), w')
            else (Inr (), w')))"

definition makeDirs :: "string \<Rightarrow> string \<Rightarrow> ('z os_scheme, unit) io" where
  "makeDirs collectedDir uploadedDir =
     bindE (on_error (\<lambda>_. Errorf ''failed to create collected directory'')
              (os_mkdir_all collectedDir 488))
       (\<lambda>_. on_error (\<lambda>_. Errorf ''failed to create uploaded directory'')
              (os_mkdir_all uploadedDir 488))"

text \<open>\<open>Now().Add(-minAge).Before(time.Unix(ts, 0))\<close>: both instants are compared in whole
  seconds since year one; \<open>time.Unix\<close> adds the offset of 1970 with wrap-around.\<close>

definition unix_offset :: int where "unix_offset = 62135596800"

definition not_mature :: "uploader \<Rightarrow> int \<Rightarrow> int \<Rightarrow> bool" where
  "not_mature um now ts \<longleftrightarrow>
     (now - minAge um) div second + unix_offset < wrap_i64 (ts + unix_offset)"

text \<open>Send what has been marked as processed; when that fails, restore the report.\<close>

definition send_processed :: "uploader \<Rightarrow> string \<Rightarrow> string \<Rightarrow> report \<Rightarrow> (client, unit) io" where
  "send_processed um u data r =
     attempt (send um u data) (\<lambda>sendRes.
       case sendRes of
         Inr _ \<Rightarrow> ret ()
       | Inl sendErr \<Rightarrow>
           attempt (UndoProcessed r) (\<lambda>undo.
             case undo of
               Inl _ \<Rightarrow> throw (Joined [sendErr, Errorf ''failed to restore the original report''])
             | Inr _ \<Rightarrow> throw sendErr))"

text \<open>The upload of a report whose age does not matter or suffices.\<close>

definition upload_mature ::
    "uploader \<Rightarrow> report \<Rightarrow> string \<Rightarrow> string \<Rightarrow> bool \<Rightarrow> bool \<Rightarrow> (client, unit) io" where
  "upload_mature um r uploadedDir u consent force =
     attempt (os_stat (path_join [uploadedDir, Name r])) (\<lambda>st.
       if (case st of Inl e \<Rightarrow> \<not> os_is_not_exist e | Inr _ \<Rightarrow> False)
       then throw (Errorf ''failed to check if report has already been uploaded'')
       else if (case st of Inl _ \<Rightarrow> False | Inr _ \<Rightarrow> \<not> force)
       then throw (Errorf ''report has already been uploaded'')
       else
         bindE (on_error (\<lambda>_. Errorf ''failed to read report'') (ReadJSON r)) (\<lambda>origData.
         let data = (if consent then origData else OptOutPayload) in
         if dryRun um then ret ()
         else
           bindE (on_error (\<lambda>_. Errorf ''failed to mark report as processed'')
                    (MarkAsProcessed r uploadedDir data)) (send_processed um u data)))"

definition upload ::
    "uploader \<Rightarrow> report \<Rightarrow> string \<Rightarrow> string \<Rightarrow> bool \<Rightarrow> bool \<Rightarrow> (client, unit) io" where
  "upload um r uploadedDir u consent force = (\<lambda>w.
     if not_mature um (clock w) (TimeStamp r) \<and> \<not> force
     then throw (Sentinel ErrReportNotMature) w
     else upload_mature um r uploadedDir u consent force w)"

section \<open>Uploading sources\<close>

text \<open>Errors are joined as they come in.\<close>

definition join_all :: "go_error option list \<Rightarrow> go_error option" where
  "join_all es = fold (\<lambda>e acc. case e of None \<Rightarrow> acc | Some x \<Rightarrow> errors_join [acc, Some x]) es None"

definition return_error :: "go_error option \<Rightarrow> ('s, unit) io" where
  "return_error e = (case e of None \<Rightarrow> ret () | Some x \<Rightarrow> throw x)"

text \<open>The error a finished goroutine adds.\<close>

definition report_upload_error :: "string \<Rightarrow> go_error + unit \<Rightarrow> go_error option" where
  "report_upload_error source res =
     (case res of
        Inr _ \<Rightarrow> None
      | Inl e \<Rightarrow> if errors_is e ErrReportNotMature then None
                 else Some (ErrorfW (source @ '' upload failed for report'') e))"

definition Upload ::
    "consent_fn \<Rightarrow> (report list \<Rightarrow> report list) \<Rightarrow> uploader \<Rightarrow> string \<Rightarrow> bool \<Rightarrow> (client, unit) io" where
  "Upload cons order um source force =
     (if source = [] then throw (Errorf ''source cannot be an empty string'')
      else
        let collectedDir = path_join [cacheDir um, source, LocalFolder];
            uploadedDir = path_join [cacheDir um, source, UploadedFolder] in
        bindE (makeDirs collectedDir uploadedDir) (\<lambda>_.
        bindE (on_error (ErrorfW ''upload failed to get consent state'') (cons source)) (\<lambda>consent.
        bindE (on_error (\<lambda>_. Errorf ''failed to get reports'') (GetAll collectedDir)) (\<lambda>reports.
        case getURL um source of
          Inl _ \<Rightarrow> throw (Errorf ''failed to get URL'')
        | Inr u \<Rightarrow>
           if reports \<noteq> [] \<and> maxConcurrentUploadsPerSource um = 0 then throw (Errorf ''deadlock'')
           else
             bindE (collect_errors (\<lambda>r.
                attempt (upload um r uploadedDir u consent force)
                  (\<lambda>res. ret (report_upload_error source res))) (order reports)) (\<lambda>errs.
             let uploadError = join_all errs in
             if dryRun um then return_error uploadError
             else attempt (Cleanup uploadedDir (maxReports um)) (\<lambda>c.
                return_error (errors_join
                  [case c of Inl e \<Rightarrow> Some e | Inr _ \<Rightarrow> None, uploadError])))))))"

subsection \<open>Retrying with back-off\<close>

text \<open>\<open>min(attempts, 62)\<close> as a shift, the capped exponential, and a draw below it.\<close>

definition backoff_exp :: "uploader \<Rightarrow> u32 \<Rightarrow> int" where
  "backoff_exp um attempts =
     (let factor = 2 ^ min (unat attempts) 62 in
      if baseRetryPeriod um \<le> max_i64 div factor
      then min (wrap_i64 (baseRetryPeriod um * factor)) (maxRetryPeriod um)
      else maxRetryPeriod um)"

definition draw :: "int \<Rightarrow> client \<Rightarrow> int \<times> client" where
  "draw n w =
     (case rands w of [] \<Rightarrow> (0, w) | x # xs \<Rightarrow> (x mod n, w\<lparr>rands := xs\<rparr>))"

definition sleep :: "int \<Rightarrow> client \<Rightarrow> client" where
  "sleep d w = w\<lparr>clock := clock w + d, slept := slept w @ [d]\<rparr>"

text \<open>The loop; None when it never ends. The count of attempts is a 32-bit integer.\<close>

partial_function (option) backoff_loop ::
    "uploader \<Rightarrow> (client, unit) io \<Rightarrow> u32 \<Rightarrow> client \<Rightarrow> ((go_error + unit) \<times> client) option" where
  "backoff_loop um once attempts w =
     (case once w of
        (Inr x, w1) \<Rightarrow> Some (Inr x, w1)
      | (Inl err, w1) \<Rightarrow>
         if \<not> errors_is err ErrSendFailure then Some (Inl err, w1)
         else (case draw (max (backoff_exp um attempts) 1) w1 of (wait, w2) \<Rightarrow>
           if maxAttempts um < attempts + 1 then Some (Inl err, w2)
           else backoff_loop um once (attempts + 1) (sleep wait w2)))"

definition BackoffUpload ::
    "consent_fn \<Rightarrow> (report list \<Rightarrow> report list) \<Rightarrow> uploader \<Rightarrow> string \<Rightarrow> bool \<Rightarrow> client
     \<Rightarrow> ((go_error + unit) \<times> client) option" where
  "BackoffUpload cons order um source force w =
     backoff_loop um (Upload cons order um source force) 0 w"

text \<open>The error a finished source adds: a missing consent file is skipped.\<close>

definition source_upload_error :: "string \<Rightarrow> go_error + unit \<Rightarrow> go_error option" where
  "source_upload_error source res =
     (case res of
        Inr _ \<Rightarrow> None
      | Inl e \<Rightarrow> if errors_is e ErrConsentFileNotFound then None
                 else Some (Errorf (''failed to upload reports for source '' @ source)))"

definition upload_source ::
    "consent_fn \<Rightarrow> (report list \<Rightarrow> report list) \<Rightarrow> uploader \<Rightarrow> bool \<Rightarrow> bool \<Rightarrow> string \<Rightarrow> client
     \<Rightarrow> ((go_error + unit) \<times> client) option" where
  "upload_source cons order um force retry source w =
     (if retry then BackoffUpload cons order um source force w
      else Some (Upload cons order um source force w))"

fun upload_sources ::
    "(string \<Rightarrow> client \<Rightarrow> ((go_error + unit) \<times> client) option) \<Rightarrow> string list \<Rightarrow> client
     \<Rightarrow> (go_error option list \<times> client) option" where
  "upload_sources f [] w = Some ([], w)"
| "upload_sources f (s # ss) w =
     Option.bind (f s w) (\<lambda>(res, w1).
       map_option (apfst ((#) (source_upload_error s res))) (upload_sources f ss w1))"

definition UploadAll ::
    "consent_fn \<Rightarrow> (report list \<Rightarrow> report list) \<Rightarrow> (string list \<Rightarrow> string list) \<Rightarrow> uploader
     \<Rightarrow> string list \<Rightarrow> bool \<Rightarrow> bool \<Rightarrow> client \<Rightarrow> ((go_error + unit) \<times> client) option" where
  "UploadAll cons order orderS um sources force retry w =
     (if sources \<noteq> [] \<and> maxConcurrentSources um = 0 then Some (Inl (Errorf ''deadlock''), w)
      else map_option (\<lambda>(errs, w'). return_error (join_all errs) w')
             (upload_sources (upload_source cons order um force retry) (orderS sources) w))"

section \<open>Facts\<close>

subsection \<open>Frames of the client's state\<close>

text \<open>
  The retry loop and the loop over sources, against a relation between client states that
  does not mind the draws of the generator and the pauses.
\<close>

locale loop_frame = effect_frame R for R :: "client \<Rightarrow> client \<Rightarrow> bool" +
  assumes pause_ok: "sent w' = sent w \<Longrightarrow> fs w' = fs w \<Longrightarrow> R w w'"
begin

lemma draw_ok: "draw n w = (x, w') \<Longrightarrow> R w w'"
  by (rule pause_ok) (auto simp: draw_def split: list.splits)

lemma sleep_ok: "R w (sleep d w)"
  by (rule pause_ok) (simp_all add: sleep_def)

lemma backoff_loop_ok:
  assumes "framed R once" "backoff_loop um once a w = Some (res, w')"
  shows "R w w'"
proof -
  have "framed R once \<longrightarrow> R w (snd y)" if "backoff_loop um once a w = Some y" for a w y
    using that
  proof (rule backoff_loop.raw_induct [rotated], intro impI)
    fix f um once a w y
    assume 1: "\<And>um once a w y. f um once a w = Some y \<Longrightarrow> framed R once \<longrightarrow> R w (snd y)"
      and 2: "(case once w of
        (Inr x, w1) \<Rightarrow> Some (Inr x, w1)
      | (Inl err, w1) \<Rightarrow>
         if \<not> errors_is err ErrSendFailure then Some (Inl err, w1)
         else (case draw (max (backoff_exp um a) 1) w1 of (wait, w2) \<Rightarrow>
           if maxAttempts um < a + 1 then Some (Inl err, w2)
           else f um once (a + 1) (sleep wait w2))) = Some y"
      and 3: "framed R once"
    obtain r w1 where o1: "once w = (r, w1)" by fastforce
    have R1: "R w w1" using 3 o1 framed_elim by blast
    show "R w (snd y)"
    proof (cases r)
      case (Inr x)
      with 2 o1 R1 show ?thesis by auto
    next
      case (Inl e)
      obtain wait w2 where d: "draw (max (backoff_exp um a) 1) w1 = (wait, w2)" by fastforce
      have R2: "R w w2" using R1 draw_ok [OF d] R_trans by blast
      show ?thesis
      proof (cases "errors_is e ErrSendFailure \<and> \<not> maxAttempts um < a + 1")
        case True
        with 2 o1 Inl d have "f um once (a + 1) (sleep wait w2) = Some y" by simp
        then have "R (sleep wait w2) (snd y)" using 1 3 by blast
        then show ?thesis using R2 sleep_ok R_trans by blast
      next
        case False
        with 2 o1 Inl d have "y = (Inl e, w1) \<or> y = (Inl e, w2)"
          by (simp split: if_splits)
        with R1 R2 show ?thesis by auto
      qed
    qed
  qed
  with assms show ?thesis by fastforce
qed

lemma upload_sources_ok:
  assumes "\<And>s w res w'. s \<in> set ss \<Longrightarrow> f s w = Some (res, w') \<Longrightarrow> R w w'"
    and "upload_sources f ss w = Some (es, w')"
  shows "R w w'"
  using assms
proof (induction ss arbitrary: w es)
  case Nil
  then show ?case by (simp add: R_refl)
next
  case (Cons s ss)
  then obtain res w1 es1 where "f s w = Some (res, w1)" "upload_sources f ss w1 = Some (es1, w')"
    by (auto simp: bind_eq_Some_conv)
  with Cons show ?case by (metis R_trans list.set_intros)
qed

end

text \<open>
  A relation that looks at the requests only holds across every operation on files, since
  those leave the network alone.
\<close>

locale client_frame = effect_frame R for R :: "client \<Rightarrow> client \<Rightarrow> bool" +
  assumes env_ok: "sent w' = sent w \<Longrightarrow> R w w'"
begin

lemma framed_os: "framed same_more m \<Longrightarrow> framed R m"
  unfolding framed_def same_more_def
proof
  fix w
  assume "\<forall>w. os.more (snd (m w)) = os.more w \<and> (quiet w \<longrightarrow> quiet (snd (m w)))"
  then have "os.more (snd (m w)) = os.more w" by blast
  then have "sent (snd (m w)) = sent w" by (cases w; cases "snd (m w)") simp
  then show "R w (snd (m w))" by (rule env_ok)
qed

end

sublocale client_frame \<subseteq> loop_frame
  by unfold_locales (rule env_ok)

text \<open>New requests all satisfy \<open>P\<close>.\<close>

definition sends :: "(request \<Rightarrow> bool) \<Rightarrow> client \<Rightarrow> client \<Rightarrow> bool" where
  "sends P w w' \<longleftrightarrow> (\<exists>new. sent w' = sent w @ new \<and> list_all P new)"

interpretation net: client_frame "sends P" for P
proof
  show "sends P w w" for w by (simp add: sends_def)
  show "sends P w1 w2 \<Longrightarrow> sends P w2 w3 \<Longrightarrow> sends P w1 w3" for w1 w2 w3
    unfolding sends_def by (metis append.assoc list_all_append)
  show "sent w' = sent w \<Longrightarrow> sends P w w'" for w w' by (simp add: sends_def)
qed

lemmas net_intros = net.framed_ret net.framed_throw net.framed_bindE net.framed_attempt
  net.framed_on_error net.framed_for_each net.framed_collect_errors

lemma sends_mono: "sends P w w' \<Longrightarrow> (\<And>x. P x \<Longrightarrow> Q x) \<Longrightarrow> sends Q w w'"
  unfolding sends_def by (metis list.pred_mono_strong)

lemma send_sends:
  "(\<And>out. P \<lparr>req_url = u, req_body = d, req_outcome = out\<rparr>) \<Longrightarrow> framed (sends P) (send um u d)"
  by (auto simp: framed_def sends_def send_def Let_def split: list.splits http_outcome.splits)

lemma more_makeDirs: "framed same_more (makeDirs a b)"
  by (auto simp: makeDirs_def intro!: more_intros more_mkdir_all)

text \<open>The payload rule of a single upload.\<close>

definition payload_ok :: "string \<Rightarrow> bool \<Rightarrow> request \<Rightarrow> bool" where
  "payload_ok u consent x \<longleftrightarrow> req_url x = u \<and> (consent \<or> req_body x = OptOutPayload)"

lemmas net_os = net.framed_os [OF more_calls(1)] net.framed_os [OF more_ReadJSON]
  net.framed_os [OF more_reports(1)] net.framed_os [OF more_reports(2)]
  net.framed_os [OF more_reports(4)] net.framed_os [OF more_reports(6)]
  net.framed_os [OF more_makeDirs]

lemma upload_sends: "framed (sends (payload_ok u consent)) (upload um r up u consent force)"
proof -
  have "framed (sends (payload_ok u consent)) (upload_mature um r up u consent force)"
    unfolding upload_mature_def send_processed_def Let_def
    by (auto simp: payload_ok_def intro!: net_intros net_os send_sends split: sum.splits)
  then show ?thesis by (simp add: framed_def upload_def net.R_refl)
qed

text \<open>The payload rule of a source: consent that is never granted.\<close>

definition no_consent :: "consent_fn \<Rightarrow> string \<Rightarrow> bool" where
  "no_consent cons s \<longleftrightarrow> (\<forall>w. fst (cons s w) \<noteq> Inr True)"

lemma no_consent_True: "no_consent cons s \<Longrightarrow> cons s w \<noteq> (Inr True, w')"
  unfolding no_consent_def by (metis fst_conv)

definition source_request :: "consent_fn \<Rightarrow> uploader \<Rightarrow> string \<Rightarrow> request \<Rightarrow> bool" where
  "source_request cons um s x \<longleftrightarrow>
     getURL um s = Inr (req_url x) \<and> (no_consent cons s \<longrightarrow> req_body x = OptOutPayload)"

lemma Upload_sends:
  assumes "framed same_more (cons s)"
  shows "framed (sends (source_request cons um s)) (Upload cons order um s force)"
proof -
  let ?P = "source_request cons um s"
  have u: "framed (sends ?P) (upload um r up u consent force)"
    if "getURL um s = Inr u" "no_consent cons s \<Longrightarrow> \<not> consent" for r up u consent
  proof -
    have "sends (payload_ok u consent) w (snd (upload um r up u consent force w))" for w
      using upload_sends by (auto simp: framed_def)
    moreover have "?P x" if "payload_ok u consent x" for x
      using that \<open>getURL um s = Inr u\<close> \<open>no_consent cons s \<Longrightarrow> \<not> consent\<close>
      by (auto simp: payload_ok_def source_request_def)
    ultimately show ?thesis unfolding framed_def using sends_mono by blast
  qed
  show ?thesis
    unfolding Upload_def Let_def return_error_def
    by (auto intro!: net_intros net_os net.framed_bindE_result [of _ "on_error f (cons s)" for f]
        net.framed_os [OF assms] u simp: on_error_eq_Inr no_consent_True
        split: sum.splits option.splits)
qed

lemma upload_source_sends:
  assumes "framed same_more (cons s)" "upload_source cons order um force retry s w = Some (res, w')"
  shows "sends (source_request cons um s) w w'"
proof (cases retry)
  case True
  with assms(2) have "backoff_loop um (Upload cons order um s force) 0 w = Some (res, w')"
    by (simp add: upload_source_def BackoffUpload_def)
  then show ?thesis by (rule net.backoff_loop_ok [OF Upload_sends [of cons s, OF assms(1)]])
next
  case False
  with assms(2) have "Upload cons order um s force w = (res, w')" by (simp add: upload_source_def)
  then show ?thesis by (rule net.framed_elim [OF Upload_sends [of cons s, OF assms(1)]])
qed

lemma UploadAll_Some:
  assumes "UploadAll cons order orderS um sources force retry w = Some (res, w')"
    and "set (orderS sources) \<subseteq> set sources" "loop_frame R"
    and "\<And>s w res w'. s \<in> set sources \<Longrightarrow>
      upload_source cons order um force retry s w = Some (res, w') \<Longrightarrow> R w w'"
  shows "R w w'"
proof (cases "sources \<noteq> [] \<and> maxConcurrentSources um = 0")
  case True
  with assms(1) have "w' = w" by (simp add: UploadAll_def)
  then show ?thesis using assms(3) by (simp add: loop_frame.axioms(1) effect_frame.R_refl)
next
  case False
  then have "UploadAll cons order orderS um sources force retry w =
      map_option (\<lambda>(errs, w'). return_error (join_all errs) w')
        (upload_sources (upload_source cons order um force retry) (orderS sources) w)"
    unfolding UploadAll_def by (simp only: if_False)
  with assms(1) obtain es where
    "upload_sources (upload_source cons order um force retry) (orderS sources) w = Some (es, w')"
    by (auto simp: return_error_def split: option.splits)
  then show ?thesis
    using loop_frame.upload_sources_ok [OF assms(3)] assms(2,4) by blast
qed

subsection \<open>Dry runs\<close>

text \<open>Nothing was sent and no file changed; directories may have been made.\<close>

definition inert :: "client \<Rightarrow> client \<Rightarrow> bool" where
  "inert w w' \<longleftrightarrow> sent w' = sent w \<and> (\<forall>q. file_content (fs w') q = file_content (fs w) q)"

interpretation dry: loop_frame inert
  by unfold_locales (auto simp: inert_def)

lemmas dry_intros = dry.framed_ret dry.framed_throw dry.framed_bindE dry.framed_attempt
  dry.framed_on_error dry.framed_for_each dry.framed_collect_errors

lemma more_sent: "os.more w' = os.more w \<Longrightarrow> sent w' = sent (w :: client)"
  by (cases w; cases w') simp

lemma dry_read:
  assumes "framed same_more m" "framed (fs_rel (=)) m"
  shows "framed inert m"
  using assms more_sent unfolding framed_def same_more_def fs_rel_def inert_def by metis

lemma dry_makeDirs: "framed inert (makeDirs a b)"
  unfolding framed_def inert_def
proof (intro allI conjI)
  fix w :: client and q
  show "sent (snd (makeDirs a b w)) = sent w"
    using more_makeDirs more_sent unfolding framed_def same_more_def by metis
  have "framed (fs_rel adds_dirs) (makeDirs a b)"
    by (auto simp: makeDirs_def intro!: dirs.frame_intros dirs_framed_mkdir_all)
  then show "file_content (fs (snd (makeDirs a b w))) q = file_content (fs w) q"
    by (auto simp: framed_def fs_rel_def intro: adds_dirs_content)
qed

lemmas dry_os = dry_read [OF more_calls(1) same.framed_stat]
  dry_read [OF more_ReadJSON same_ReadJSON] dry_read [OF more_reports(4) same_walkReports(2)]
  dry_makeDirs

lemma Upload_dry:
  assumes "dryRun um" "framed inert (cons s)"
  shows "framed inert (Upload cons order um s force)"
proof -
  have "framed inert (upload_mature um r up u consent force)" for r up u consent
    unfolding upload_mature_def using assms(1) by (auto intro!: dry_intros dry_os)
  then have u: "framed inert (upload um r up u consent force)" for r up u consent
    by (simp add: framed_def upload_def dry.R_refl)
  show ?thesis
    unfolding Upload_def Let_def return_error_def using assms(1)
    by (auto intro!: dry_intros dry_os assms(2) u split: sum.splits option.splits)
qed

subsection \<open>One report\<close>

text \<open>A report as \<open>GetAll\<close> finds it in the collected directory, and another directory to
  which it goes.\<close>

definition uploadable :: "report \<Rightarrow> string \<Rightarrow> string \<Rightarrow> bool" where
  "uploadable r src dest \<longleftrightarrow>
     Path r = path_join [src, Name r] \<and> plain_name (Name r) \<and> not_temp (Name r) \<and>
     resolve src \<noteq> resolve dest"

lemma send_cases:
  assumes "send um u data w = (res, w')"
  obtains "sent w' = sent w" "\<exists>e. res = Inl e" "fs w' = fs w"
  | out where "sent w' = sent w @ [\<lparr>req_url = u, req_body = data, req_outcome = out\<rparr>]"
      "fs w' = fs w" "faults w' = faults w" "res = Inr () \<longleftrightarrow> out = HttpStatus 202"
      "res \<noteq> Inr () \<Longrightarrow> \<exists>e. res = Inl e \<and> errors_is e ErrSendFailure"
  using assms
  by (auto simp: send_def Let_def split: list.splits http_outcome.splits if_splits)

lemma send_processed_result:
  assumes "send_processed um u data r w = (res, w')"
  shows "(sent w' = sent w \<and> (\<exists>e. res = Inl e)) \<or>
    (\<exists>out. sent w' = sent w @ [\<lparr>req_url = u, req_body = data, req_outcome = out\<rparr>] \<and>
      (out = HttpStatus 202 \<longrightarrow> res = Inr () \<and> fs w' = fs w) \<and>
      (out \<noteq> HttpStatus 202 \<longrightarrow> (\<exists>e. res = Inl e \<and> errors_is e ErrSendFailure)))"
proof -
  obtain sr w1 where s: "send um u data w = (sr, w1)" by fastforce
  obtain ur w2 where un: "UndoProcessed r w1 = (ur, w2)" by fastforce
  then have "sent w2 = sent w1"
    using more.framed_elim [OF more_reports(2)] more_sent unfolding same_more_def by blast
  with s show ?thesis using assms un
    by (cases rule: send_cases; cases sr; cases ur)
       (auto simp: send_processed_def attempt_def)
qed

text \<open>When \<open>upload_mature\<close> gets as far as sending: the states before and after marking.\<close>

lemma upload_mature_steps:
  assumes "upload_mature um r up u consent force w = (res, w')" "plain_name (Name r)"
  obtains (stopped) "sent w' = sent w" "res = Inr () \<Longrightarrow> dryRun um"
      "\<And>e. res = Inl e \<Longrightarrow> \<not> errors_is e ErrSendFailure"
  | (marked) d r' w1 w2 where "\<not> dryRun um" "file_content (fs w) (resolve (Path r)) = Some d"
      "json_valid d" "fs w1 = fs w" "sent w2 = sent w" "quiet w \<Longrightarrow> w1 = w"
      "quiet w \<Longrightarrow> force \<or> fs_get (fs w) (resolve (path_join [up, Name r])) = None"
      "MarkAsProcessed r up (if consent then d else OptOutPayload) w1 = (Inr r', w2)"
      "send_processed um u (if consent then d else OptOutPayload) r' w2 = (res, w')"
proof -
  obtain st wa where st: "os_stat (path_join [up, Name r]) w = (st, wa)" by fastforce
  obtain rd w1 where rd: "ReadJSON r wa = (rd, w1)" by fastforce
  have fa: "fs wa = fs w" using st by (rule os_stat_fs)
  have f1: "fs w1 = fs wa" using framed_same [OF same_ReadJSON rd] .
  have sa: "sent wa = sent w" "sent w1 = sent wa"
    using more.framed_elim [OF more_calls(1) st] more.framed_elim [OF more_ReadJSON rd]
    by (auto simp: same_more_def intro: more_sent)
  show thesis
  proof (cases "(\<exists>e. st = Inl e \<and> \<not> os_is_not_exist e) \<or> (\<exists>n. st = Inr n \<and> \<not> force) \<or>
      (\<exists>e. rd = Inl e) \<or> dryRun um")
    case True
    with assms(1) st rd sa show thesis
      by (intro stopped) (auto simp: upload_mature_def attempt_def bindE_def on_error_def Let_def
          split: sum.splits if_splits)
  next
    case False
    then obtain d where d: "rd = Inr d" by (cases rd) auto
    let ?data = "if consent then d else OptOutPayload"
    obtain mr w2 where m: "MarkAsProcessed r up ?data w1 = (mr, w2)" by fastforce
    have s2: "sent w2 = sent w"
      using more.framed_elim [OF more_reports(1) m] sa more_sent [of w2 w1] by (simp add: same_more_def)
    have run: "(case mr of Inl e \<Rightarrow> (Inl (Errorf ''failed to mark report as processed''), w2)
        | Inr r' \<Rightarrow> send_processed um u ?data r' w2) = (res, w')"
      using assms(1) st rd d m False
      by (cases st; cases mr) (auto simp: upload_mature_def attempt_def bindE_def on_error_def Let_def)
    have "file_content (fs w) (resolve (Path r)) = Some d \<and> json_valid d"
      using ReadJSON_Inr rd d fa by metis
    moreover have "w1 = w" if "quiet w"
    proof -
      have "wa = w" using st that
        by (auto simp: os_stat_def at_path_def syscall_quiet fs_stat_def split: if_splits option.splits)
      then show ?thesis using rd d that
        by (auto simp: ReadJSON_def bindE_eq_Inr on_error_eq_Inr os_read_file_def at_path_def
            syscall_quiet fs_read_def split: if_splits option.splits node.splits)
    qed
    moreover have "force \<or> fs_get (fs w) (resolve (path_join [up, Name r])) = None" if "quiet w"
      using st that False path_join_nonempty [OF assms(2)]
      by (auto simp: os_stat_quiet split: option.splits)
    ultimately show thesis
      using run s2 m fa f1 False by (cases mr) (auto intro: stopped marked)
  qed
qed

lemma upload_mature_iff:
  "upload um r up u consent force w = (res, w') \<Longrightarrow>
     upload_mature um r up u consent force w = (res, w') \<and> (force \<or> \<not> not_mature um (clock w) (TimeStamp r)) \<or>
     (not_mature um (clock w) (TimeStamp r) \<and> \<not> force \<and> res = Inl (Sentinel ErrReportNotMature) \<and> w' = w)"
  by (auto simp: upload_def split: if_splits)

subsection \<open>The retry loop\<close>

lemma backoff_exp_eq:
  assumes "0 < baseRetryPeriod um" "maxRetryPeriod um \<le> max_i64"
  shows "backoff_exp um a = min (baseRetryPeriod um * 2 ^ min (unat a) 62) (maxRetryPeriod um)"
proof -
  let ?f = "2 ^ min (unat a) 62 :: int"
  have f: "0 < ?f" by simp
  show ?thesis
  proof (cases "baseRetryPeriod um \<le> max_i64 div ?f")
    case True
    have "max_i64 div ?f * ?f \<le> max_i64"
      using f by (simp add: minus_mod_eq_div_mult [symmetric])
    moreover have "baseRetryPeriod um * ?f \<le> max_i64 div ?f * ?f"
      using True f by (simp add: mult_right_mono)
    moreover have "0 < baseRetryPeriod um * ?f" using assms(1) f by simp
    moreover have "min_i64 < 0" by (simp add: min_i64_def)
    ultimately have "in_i64 (baseRetryPeriod um * ?f)" unfolding in_i64_def by (meson less_imp_le order_trans)
    with True show ?thesis by (simp add: backoff_exp_def wrap_i64_id)
  next
    case False
    then have "max_i64 div ?f + 1 \<le> baseRetryPeriod um" by simp
    then have "(max_i64 div ?f + 1) * ?f \<le> baseRetryPeriod um * ?f" using f by (simp add: mult_right_mono)
    moreover have "max_i64 < (max_i64 div ?f + 1) * ?f"
      using f pos_mod_bound [OF f, of max_i64] by (simp add: distrib_right minus_mod_eq_div_mult [symmetric])
    ultimately have "maxRetryPeriod um \<le> baseRetryPeriod um * ?f" using assms(2) by linarith
    with False show ?thesis by (simp add: backoff_exp_def min_def)
  qed
qed

definition awake :: "client \<Rightarrow> client \<Rightarrow> bool" where
  "awake w w' \<longleftrightarrow> slept w' = slept w"

interpretation awake: effect_frame awake
  by unfold_locales (auto simp: awake_def)

lemmas awake_intros = awake.framed_ret awake.framed_throw awake.framed_bindE awake.framed_attempt
  awake.framed_on_error awake.framed_for_each awake.framed_collect_errors

lemma more_slept: "os.more w' = os.more w \<Longrightarrow> slept w' = slept (w :: client)"
  by (cases w; cases w') simp

lemma awake_os: "framed same_more m \<Longrightarrow> framed awake m"
  using more_slept unfolding framed_def same_more_def awake_def by metis

lemma awake_send: "framed awake (send um u d)"
  by (auto simp: framed_def awake_def send_def Let_def split: list.splits http_outcome.splits)

lemma awake_upload: "framed awake (upload um r up u consent force)"
proof -
  have "framed awake (upload_mature um r up u consent force)"
    unfolding upload_mature_def send_processed_def Let_def
    by (auto intro!: awake_intros awake_os [OF more_calls(1)] awake_os [OF more_ReadJSON]
        awake_os [OF more_reports(1)] awake_os [OF more_reports(2)] awake_send split: sum.splits)
  then show ?thesis by (simp add: framed_def upload_def awake.R_refl)
qed

lemma awake_Upload:
  assumes "framed same_more (cons s)"
  shows "framed awake (Upload cons order um s force)"
  unfolding Upload_def Let_def return_error_def
  by (auto intro!: awake_intros awake_upload awake_os [OF assms] awake_os [OF more_makeDirs]
      awake_os [OF more_reports(4)] awake_os [OF more_reports(6)] split: sum.splits option.splits)

lemma draw_range: "draw n w = (x, w') \<Longrightarrow> 0 < n \<Longrightarrow> 0 \<le> x \<and> x < n \<and> slept w' = slept w"
  by (auto simp: draw_def split: list.splits)

lemma unat_u32: "unat (x :: u32) < 2 ^ 32"
  using unsigned_less [where 'a = nat, of x] by simp

lemma unat_Suc_below:
  fixes a m :: u32
  assumes "a < m"
  shows "unat (a + 1) = Suc (unat a)" "a + 1 \<le> m"
proof -
  have "unat a < unat m" "unat m < 2 ^ 32" using assms unsigned_less [of m] by (simp_all add: word_less_nat_alt)
  then show "unat (a + 1) = Suc (unat a)" by (simp add: unat_word_ariths)
  then show "a + 1 \<le> m" using \<open>unat a < unat m\<close> by (simp add: word_le_nat_alt)
qed

text \<open>What a run of the loop from a count of attempts gives: it ends, the pauses are below the
  back-off of their attempt, and giving up takes all attempts.\<close>

definition loop_result :: "uploader \<Rightarrow> u32 \<Rightarrow> client \<Rightarrow> (go_error + unit) \<times> client \<Rightarrow> int list \<Rightarrow> bool" where
  "loop_result um a w y ps \<longleftrightarrow>
     slept (snd y) = slept w @ ps \<and> length ps \<le> unat (maxAttempts um) - unat a \<and>
     (\<forall>i<length ps. 0 \<le> ps ! i \<and> ps ! i < max (backoff_exp um (a + of_nat i)) 1) \<and>
     (\<forall>e. fst y = Inl e \<and> errors_is e ErrSendFailure \<longrightarrow> length ps = unat (maxAttempts um) - unat a)"

lemma backoff_loop_ends:
  assumes "framed awake once" "maxAttempts um + 1 \<noteq> 0" "a \<le> maxAttempts um"
  shows "\<exists>y ps. backoff_loop um once a w = Some y \<and> loop_result um a w y ps"
  using assms(3)
proof (induction "unat (maxAttempts um) - unat a" arbitrary: a w rule: less_induct)
  case less
  obtain r w1 where o1: "once w = (r, w1)" by fastforce
  then have s1: "slept w1 = slept w" using awake.framed_elim [OF assms(1)] by (simp add: awake_def)
  show ?case
  proof (cases "\<exists>e. r = Inl e \<and> errors_is e ErrSendFailure")
    case False
    then have "backoff_loop um once a w = Some (r, w1)"
      using o1 by (subst backoff_loop.simps) (auto split: sum.splits)
    with s1 False show ?thesis by (intro exI [of _ "(r, w1)"] exI [of _ "[]"]) (auto simp: loop_result_def)
  next
    case True
    then obtain e where e: "r = Inl e" "errors_is e ErrSendFailure" by blast
    obtain x w2 where d: "draw (max (backoff_exp um a) 1) w1 = (x, w2)" by fastforce
    have x: "0 \<le> x" "x < max (backoff_exp um a) 1" "slept w2 = slept w"
      using draw_range [OF d] s1 by auto
    have step: "backoff_loop um once a w =
        (if maxAttempts um < a + 1 then Some (Inl e, w2)
         else backoff_loop um once (a + 1) (sleep x w2))"
      using o1 e d by (subst backoff_loop.simps) simp
    show ?thesis
    proof (cases "a = maxAttempts um")
      case True
      have "unat (1 + maxAttempts um) = Suc (unat (maxAttempts um))"
        using assms(2) by (intro unatSuc) (simp add: add.commute)
      then have "maxAttempts um < a + 1" using True by (simp add: word_less_nat_alt add.commute)
      with step x(3) True show ?thesis
        by (intro exI [of _ "(Inl e, w2)"] exI [of _ "[]"]) (simp add: loop_result_def)
    next
      case False
      then have lt: "a < maxAttempts um" using less.prems by simp
      note sa = unat_Suc_below [OF lt]
      have "unat a < unat (maxAttempts um)" using lt by (simp add: word_less_nat_alt)
      then obtain y ps where y: "backoff_loop um once (a + 1) (sleep x w2) = Some y"
        "loop_result um (a + 1) (sleep x w2) y ps"
        using less.hyps [of "a + 1" "sleep x w2"] sa by (metis diff_less_mono2 lessI)
      have "\<not> maxAttempts um < a + 1" using sa(2) by simp
      then have "backoff_loop um once a w = Some y" using step y(1) by simp
      moreover have "loop_result um a w y (x # ps)"
        using y(2) x sa(1) \<open>unat a < unat (maxAttempts um)\<close>
        by (auto simp: loop_result_def sleep_def nth_Cons add.assoc split: nat.splits)
      ultimately show ?thesis by blast
    qed
  qed
qed

subsection \<open>An upload without faults\<close>

lemma send_quiet:
  assumes "url_parse u \<noteq> None"
  shows "\<exists>res w'. send um u data w = (res, w') \<and> fs w' = fs w \<and> faults w' = faults w \<and>
    (if responses w \<noteq> [] \<and> hd (responses w) = HttpStatus 202 then res = Inr ()
     else \<exists>e. res = Inl e \<and> errors_is e ErrSendFailure)"
  using assms
  by (cases "responses w"; cases "hd (responses w)") (auto simp: send_def Let_def)

lemma fs_update_id: "fs w' = f \<Longrightarrow> w'\<lparr>fs := f\<rparr> = w'"
  by auto

lemma send_processed_quiet:
  assumes w: "quiet w" "fs_wf (fs w)" and u: "url_parse u \<noteq> None"
    and r: "Path r = path_join [src, Name r]" "plain_name (Name r)" "not_temp (Name r)"
    and g: "is_dir_at (fs w) (resolve src)" "fs_get (fs w) (resolve src @ [Name r]) = None"
      "is_file_at (fs w) (resolve up @ [Name r])"
    and ne: "resolve src @ [Name r] \<noteq> resolve up @ [Name r]"
  shows "\<exists>res w'. send_processed um u data (processed r up d) w = (res, w') \<and>
    (if responses w \<noteq> [] \<and> hd (responses w) = HttpStatus 202 then res = Inr () \<and> fs w' = fs w
     else (\<exists>e. res = Inl e \<and> errors_is e ErrSendFailure) \<and>
       (\<forall>q. fs_get (fs w') q = (if q = resolve src @ [Name r] then Some (FileN d 384)
        else if q = resolve up @ [Name r] then None else fs_get (fs w) q)))"
proof -
  obtain sr w1 where s: "send um u data w = (sr, w1)" "fs w1 = fs w" "faults w1 = faults w"
    "if responses w \<noteq> [] \<and> hd (responses w) = HttpStatus 202 then sr = Inr ()
     else \<exists>e. sr = Inl e \<and> errors_is e ErrSendFailure"
    using send_quiet [OF u, of um data w] by blast
  obtain f2 where "UndoProcessed (processed r up d) w1 =
      (Inr (r\<lparr>stash := no_stash\<rparr>), w1\<lparr>fs := f2\<rparr>)"
    "\<forall>q. fs_get f2 q = (if q = resolve src @ [Name r] then Some (FileN d 384)
        else if q = resolve up @ [Name r] then None else fs_get (fs w) q)"
    using undo_quiet [of w1 r src up d] w r g ne s(2,3) by auto
  with s show ?thesis
    by (cases "responses w \<noteq> [] \<and> hd (responses w) = HttpStatus 202")
       (auto simp: send_processed_def attempt_def)
qed

section \<open>A concrete instance\<close>

definition example_fs :: fsys where
  "example_fs =
     [([''c''], DirN 493), ([''c'', ''s''], DirN 493), ([''c'', ''s'', LocalFolder], DirN 493),
      ([''c'', ''s'', UploadedFolder], DirN 493), ([''conf''], DirN 493),
      ([''conf'', ''s-consent.toml''], FileN ''consent_state = false\<newline>'' 384),
      ([''c'', ''s'', LocalFolder, ''5.json''], FileN ''[1]'' 384)]"

definition example_client :: client where
  "example_client =
     \<lparr>fs = example_fs, faults = [], seed = 0, clock = 20 * second, rands = [7, 3],
      responses = [HttpStatus 202], sent = [], slept = []\<rparr>"

definition example_cons :: consent_fn where
  "example_cons s = GetState sysconfig_dec CFile_dec (consent_New ''conf'') s"

definition example_uploader :: "bool \<Rightarrow> uploader" where
  "example_uploader dry = uploader_New ''c'' 10 dry []"

definition example_report :: report where
  "example_report =
     \<lparr>Path = ''c/s/local/5.json'', Name = ''5.json'', TimeStamp = 5, stash = no_stash\<rparr>"

lemma example_cons_more: "framed same_more (example_cons s)"
  unfolding example_cons_def by (rule more_GetState)

section \<open>Properties\<close>

text \<open>C7: without consent, only the opt-out payload leaves the machine. Whatever system calls
  fail, whatever the server answers, with or without retries and in whichever order the uploads
  run, every request is posted to the URL of one of the sources, and when the consent of that
  source is never granted its body is the opt-out payload.\<close>

theorem UploadAll_respects_consent:
  assumes "\<And>s. s \<in> set sources \<Longrightarrow> framed same_more (cons s)"
    and "set (orderS sources) \<subseteq> set sources"
    and "UploadAll cons order orderS um sources force retry w = Some (res, w')"
  shows "\<exists>new. sent w' = sent w @ new \<and>
    (\<forall>x\<in>set new. \<exists>s\<in>set sources. getURL um s = Inr (req_url x) \<and>
       (no_consent cons s \<longrightarrow> req_body x = OptOutPayload))"
proof -
  let ?P = "\<lambda>x. \<exists>s\<in>set sources. source_request cons um s x"
  have "sends ?P w w'"
  proof (rule UploadAll_Some [OF assms(3,2)])
    show "loop_frame (sends ?P)" by unfold_locales
    fix s w res w'
    assume s: "s \<in> set sources" and u: "upload_source cons order um force retry s w = Some (res, w')"
    have "sends (source_request cons um s) w w'"
      using assms(1) [OF s] u by (rule upload_source_sends)
    then show "sends ?P w w'" by (rule sends_mono) (use s in blast)
  qed
  then show ?thesis by (simp add: sends_def source_request_def list_all_iff)
qed

theorem UploadAll_respects_consent_witness:
  "let w' = snd (the (UploadAll example_cons (\<lambda>x. x) (\<lambda>x. x) (example_uploader False) [''s''] False False
       example_client)) in
   map req_body (sent w') = [OptOutPayload] \<and>
   (\<exists>new. sent w' = sent example_client @ new \<and>
    (\<forall>x\<in>set new. \<exists>s\<in>set [''s'']. getURL (example_uploader False) s = Inr (req_url x) \<and>
       (no_consent example_cons s \<longrightarrow> req_body x = OptOutPayload)))"
proof -
  let ?u = "UploadAll example_cons (\<lambda>x. x) (\<lambda>x. x) (example_uploader False) [''s''] False False example_client"
  have "map req_body (sent (snd (the ?u))) = [OptOutPayload]" by code_simp
  moreover have e: "?u = Some (fst (the ?u), snd (the ?u))" by code_simp
  have "\<exists>new. sent (snd (the ?u)) = sent example_client @ new \<and>
    (\<forall>x\<in>set new. \<exists>s\<in>set [''s'']. getURL (example_uploader False) s = Inr (req_url x) \<and>
       (no_consent example_cons s \<longrightarrow> req_body x = OptOutPayload))"
    by (rule UploadAll_respects_consent [OF example_cons_more _ e]) simp
  ultimately show ?thesis by (simp only: Let_def simp_thms)
qed

text \<open>C10: a dry run sends nothing and changes no file: with \<open>dryRun\<close> set, whatever fails and
  with or without retries, the requests and the content of every file are as before.\<close>

theorem UploadAll_dry_run:
  assumes "dryRun um" "\<And>s. s \<in> set sources \<Longrightarrow> framed inert (cons s)"
    and "set (orderS sources) \<subseteq> set sources"
    and "UploadAll cons order orderS um sources force retry w = Some (res, w')"
  shows "sent w' = sent w \<and> (\<forall>q. file_content (fs w') q = file_content (fs w) q)"
proof -
  have "inert w w'"
  proof (rule UploadAll_Some [OF assms(4,3)])
    show "loop_frame inert" by unfold_locales
    fix s w res w'
    assume s: "s \<in> set sources" and u: "upload_source cons order um force retry s w = Some (res, w')"
    note U = Upload_dry [of um cons s order force, OF assms(1) assms(2) [OF s]]
    show "inert w w'"
    proof (cases retry)
      case True
      with u show ?thesis
        using dry.backoff_loop_ok [OF U] by (auto simp: upload_source_def BackoffUpload_def)
    next
      case False
      with u show ?thesis using dry.framed_elim [OF U] by (auto simp: upload_source_def)
    qed
  qed
  then show ?thesis by (simp add: inert_def)
qed

theorem UploadAll_dry_run_witness:
  "let w' = snd (the (UploadAll example_cons (\<lambda>x. x) (\<lambda>x. x) (example_uploader True) [''s''] False False
       example_client)) in
   sent w' = sent example_client \<and> (\<forall>q. file_content (fs w') q = file_content (fs example_client) q)"
proof -
  let ?u = "UploadAll example_cons (\<lambda>x. x) (\<lambda>x. x) (example_uploader True) [''s''] False False example_client"
  have e: "?u = Some (fst (the ?u), snd (the ?u))" and d: "dryRun (example_uploader True)"
    by code_simp+
  have c: "framed inert (example_cons s)" for s
    unfolding example_cons_def by (rule dry_read [OF more_GetState same.framed_GetState])
  show ?thesis unfolding Let_def by (rule UploadAll_dry_run [OF d c _ e]) simp
qed

text \<open>C8: a report the server accepted is never left behind to be sent again, whatever system
  calls fail. An upload posts at most one request, never in a dry run and never for a report
  that is not mature, unless forced; its body is the content of the report, or the opt-out
  payload without consent. After an answer of 202 the upload has succeeded, the collected file
  is gone and the uploaded directory holds the body; after any other answer the error is
  recognised as \<open>ErrSendFailure\<close>.\<close>

theorem upload_at_most_once:
  assumes "uploadable r src up" "upload um r up u consent force w = (res, w')"
  shows "sent w' = sent w \<or>
    (\<exists>d out. let data = (if consent then d else OptOutPayload) in
      file_content (fs w) (resolve (Path r)) = Some d \<and> \<not> dryRun um \<and>
      (force \<or> \<not> not_mature um (clock w) (TimeStamp r)) \<and>
      sent w' = sent w @ [\<lparr>req_url = u, req_body = data, req_outcome = out\<rparr>] \<and>
      (out = HttpStatus 202 \<longrightarrow> res = Inr () \<and> fs_get (fs w') (resolve (Path r)) = None \<and>
         file_content (fs w') (resolve up @ [Name r]) = Some data) \<and>
      (out \<noteq> HttpStatus 202 \<longrightarrow> (\<exists>e. res = Inl e \<and> errors_is e ErrSendFailure)))"
proof -
  have n: "plain_name (Name r)" using assms(1) by (simp add: uploadable_def)
  consider "w' = w" | "upload_mature um r up u consent force w = (res, w')"
    "force \<or> \<not> not_mature um (clock w) (TimeStamp r)"
    using upload_mature_iff [OF assms(2)] by blast
  then show ?thesis
  proof cases
    case 2
    from this(1) n show ?thesis
    proof (cases rule: upload_mature_steps)
      case (marked d r' w1 w2)
      let ?data = "if consent then d else OptOutPayload"
      from marked(8) have g: "fs_get (fs w2) (resolve (Path r)) = None"
        "file_content (fs w2) (resolve up @ [Name r]) = Some ?data"
        using assms(1) mark_Inr(2,3) by (auto simp: uploadable_def)
      from send_processed_result [OF marked(9)] show ?thesis
      proof (elim disjE exE conjE)
        fix out
        assume "sent w' = sent w2 @ [\<lparr>req_url = u, req_body = ?data, req_outcome = out\<rparr>]"
          "out = HttpStatus 202 \<longrightarrow> res = Inr () \<and> fs w' = fs w2"
          "out \<noteq> HttpStatus 202 \<longrightarrow> (\<exists>e. res = Inl e \<and> errors_is e ErrSendFailure)"
        with marked(1,2,5) 2(2) g show ?thesis
          unfolding Let_def by (intro disjI2 exI [of _ d] exI [of _ out]) simp
      qed (simp add: marked(5))
    qed simp
  qed simp
qed

theorem upload_at_most_once_witness:
  "let res = upload (example_uploader False) example_report ''c/s/uploaded'' ''http://h/u'' True False
       example_client in
   sent (snd res) \<noteq> sent example_client \<and> fst res = Inr () \<and>
   file_content (fs (snd res)) (resolve ''c/s/uploaded'' @ [''5.json'']) = Some ''[1]''"
proof -
  let ?u = "upload (example_uploader False) example_report ''c/s/uploaded'' ''http://h/u'' True False
     example_client"
  have h: "uploadable example_report ''c/s/local'' ''c/s/uploaded''"
    and s: "map req_outcome (sent (snd ?u)) = [HttpStatus 202]" and e: "sent example_client = []"
    and c: "file_content (fs example_client) (resolve (Path example_report)) = Some ''[1]''"
    by code_simp+
  have n: "sent (snd ?u) \<noteq> sent example_client" using s e by auto
  from upload_at_most_once [OF h, of "example_uploader False" "''http://h/u''" True False
      example_client "fst ?u" "snd ?u"] n s e c
  show ?thesis by (auto simp: Let_def example_report_def)
qed

text \<open>C9: without faults a report that may be uploaded is moved or restored: if the server
  answers 202, the upload succeeds, the collected file is gone and the uploaded directory holds
  what was sent; otherwise the error is \<open>ErrSendFailure\<close>, the collected file has its original
  content again and nothing is left in the uploaded directory. No other file changes.\<close>

theorem upload_outcome:
  assumes m: "movable w r src up" and d: "file_content (fs w) (resolve (Path r)) = Some d" "json_valid d"
    and f: "force \<or> (\<not> not_mature um (clock w) (TimeStamp r) \<and>
        fs_get (fs w) (resolve up @ [Name r]) = None)"
    and u: "\<not> dryRun um" "url_parse u \<noteq> None"
  shows "\<exists>res w'. upload um r up u consent force w = (res, w') \<and>
    (if responses w \<noteq> [] \<and> hd (responses w) = HttpStatus 202
     then res = Inr () \<and>
       (\<forall>q. file_content (fs w') q =
          (if q = resolve up @ [Name r] then Some (if consent then d else OptOutPayload)
           else if q = resolve src @ [Name r] then None else file_content (fs w) q))
     else (\<exists>e. res = Inl e \<and> errors_is e ErrSendFailure) \<and>
       (\<forall>q. file_content (fs w') q =
          (if q = resolve up @ [Name r] then None else file_content (fs w) q)))"
proof -
  let ?S = "resolve src @ [Name r]" and ?D = "resolve up @ [Name r]"
  let ?data = "if consent then d else OptOutPayload"
  from m have w: "quiet w" "fs_wf (fs w)" and r: "Path r = path_join [src, Name r]"
    "plain_name (Name r)" "not_temp (Name r)" and ne: "?S \<noteq> ?D" "Path r \<noteq> []"
    and dirs: "is_dir_at (fs w) (resolve src)" "is_dir_at (fs w) (resolve up)"
    "\<not> is_dir_at (fs w) ?D" "resolve (Path r) = ?S" "resolve (path_join [up, Name r]) = ?D"
    by (auto simp: movable_def report_dir_def resolve_join_plain path_join_nonempty)
  obtain f1 where mk: "MarkAsProcessed r up ?data w = (Inr (processed r up d), w\<lparr>fs := f1\<rparr>)" "fs_wf f1"
    and g1: "\<forall>q. fs_get f1 q = (if q = ?D then Some (FileN ?data 384)
        else if q = ?S then None else fs_get (fs w) q)"
    using mark_quiet [OF m d] by blast
  have "is_dir_at f1 (resolve src)" "fs_get f1 ?S = None" "is_file_at f1 ?D"
    using dirs(1,3) g1 ne by (auto simp: is_dir_at_def is_file_at_def)
  then obtain res w' where sp:
    "send_processed um u ?data (processed r up d) (w\<lparr>fs := f1\<rparr>) = (res, w')"
    "if responses w \<noteq> [] \<and> hd (responses w) = HttpStatus 202 then res = Inr () \<and> fs w' = f1
     else (\<exists>e. res = Inl e \<and> errors_is e ErrSendFailure) \<and>
       (\<forall>q. fs_get (fs w') q = (if q = ?S then Some (FileN d 384)
        else if q = ?D then None else fs_get f1 q))"
    using send_processed_quiet [of "w\<lparr>fs := f1\<rparr>" u r src up um ?data d] w mk(2) u(2) r ne
    by (auto cong: if_cong)
  have "missing (fs w) ?D = ENOENT" using w(2) dirs(2) by (rule missing_in_dir)
  then have "upload um r up u consent force w = (res, w')"
    using f u(1) sp(1) mk(1) ReadJSON_quiet [OF w(1) ne(2) d] w(1) dirs(5) path_join_nonempty [OF r(2)]
    by (auto simp: upload_def upload_mature_def attempt_def bindE_def on_error_def Let_def
        os_stat_quiet os_is_not_exist_def split: option.splits)
  moreover have "fs_get (fs w) ?S = Some (FileN d m) \<Longrightarrow> file_content (fs w) ?S = Some d" for m
    by (simp add: file_content_def)
  ultimately show ?thesis
    using sp(2) g1 ne d(1) dirs(4)
    by (intro exI [of _ res] exI [of _ w'] conjI)
       (auto simp: file_content_def split: if_splits)
qed

theorem upload_outcome_witness:
  "\<exists>res w'. upload (example_uploader False) example_report ''c/s/uploaded'' ''http://h/u'' False False
     (example_client\<lparr>responses := [HttpStatus 500]\<rparr>) = (res, w') \<and>
     (\<exists>e. res = Inl e \<and> errors_is e ErrSendFailure) \<and>
     file_content (fs w') (resolve ''c/s/local'' @ [''5.json'']) = Some ''[1]''"
proof -
  let ?w = "example_client\<lparr>responses := [HttpStatus 500]\<rparr>"
  have h: "movable ?w example_report ''c/s/local'' ''c/s/uploaded''"
    "file_content (fs ?w) (resolve (Path example_report)) = Some ''[1]''" "json_valid ''[1]''"
    "False \<or> (\<not> not_mature (example_uploader False) (clock ?w) (TimeStamp example_report) \<and>
        fs_get (fs ?w) (resolve ''c/s/uploaded'' @ [Name example_report]) = None)"
    "\<not> dryRun (example_uploader False)" "url_parse ''http://h/u'' \<noteq> None"
    by code_simp+
  have "responses ?w = [HttpStatus 500]" by simp
  moreover have "file_content (fs ?w) (resolve ''c/s/local'' @ [Name example_report]) = Some ''[1]''"
    "resolve ''c/s/local'' @ [Name example_report] \<noteq> resolve ''c/s/uploaded'' @ [Name example_report]"
    "Name example_report = ''5.json''"
    by code_simp+
  ultimately show ?thesis using upload_outcome [OF h, of False] by auto
qed

text \<open>C11: the retry loop ends. Unless the limit of attempts is the largest 32-bit number, an
  upload with back-off returns, pausing at most \<open>maxAttempts\<close> times; each pause is below the
  capped exponential of its attempt; and it gives up on a send failure only after all
  attempts.\<close>

theorem BackoffUpload_terminates:
  assumes "framed same_more (cons source)" "maxAttempts um + 1 \<noteq> 0"
    and "0 < baseRetryPeriod um" "0 < maxRetryPeriod um" "maxRetryPeriod um \<le> max_i64"
  shows "\<exists>res w' ps. BackoffUpload cons order um source force w = Some (res, w') \<and>
    slept w' = slept w @ ps \<and> length ps \<le> unat (maxAttempts um) \<and>
    (\<forall>i<length ps. 0 \<le> ps ! i \<and>
       ps ! i < min (baseRetryPeriod um * 2 ^ min i 62) (maxRetryPeriod um)) \<and>
    (\<forall>e. res = Inl e \<and> errors_is e ErrSendFailure \<longrightarrow> length ps = unat (maxAttempts um))"
proof -
  have "\<exists>y ps. backoff_loop um (Upload cons order um source force) 0 w = Some y \<and>
      loop_result um 0 w y ps"
    using awake_Upload [of cons source, OF assms(1)] assms(2) by (intro backoff_loop_ends) auto
  then obtain res w' ps where y: "BackoffUpload cons order um source force w = Some (res, w')"
    "loop_result um 0 w (res, w') ps" by (fastforce simp: BackoffUpload_def)
  have "max (backoff_exp um (of_nat i)) 1 = min (baseRetryPeriod um * 2 ^ min i 62) (maxRetryPeriod um)"
    if "i < length ps" for i
  proof -
    have "i < 2 ^ 32"
      using that y(2) unat_u32 [of "maxAttempts um"] by (simp add: loop_result_def)
    then have "unat (of_nat i :: u32) = i" by (simp add: unat_of_nat)
    moreover have "1 \<le> baseRetryPeriod um * 2 ^ min i 62"
      using assms(3) by (simp add: int_one_le_iff_zero_less)
    ultimately show ?thesis using assms(4) by (simp add: backoff_exp_eq [OF assms(3,5)])
  qed
  with y show ?thesis by (intro exI [of _ res] exI [of _ w'] exI [of _ ps]) (simp add: loop_result_def)
qed

theorem BackoffUpload_terminates_witness:
  "\<exists>res w' ps. BackoffUpload example_cons (\<lambda>x. x) (example_uploader False) ''s'' False example_client
       = Some (res, w') \<and> slept w' = slept example_client @ ps \<and> length ps \<le> 15"
proof -
  have "maxAttempts (example_uploader False) + 1 \<noteq> 0" "0 < baseRetryPeriod (example_uploader False)"
    "0 < maxRetryPeriod (example_uploader False)" "maxRetryPeriod (example_uploader False) \<le> max_i64"
    "unat (maxAttempts (example_uploader False)) = 15"
    by code_simp+
  with BackoffUpload_terminates [of example_cons "''s''" "example_uploader False", OF example_cons_more]
  show ?thesis by metis
qed

end
