(* ===== verification/Server_Config.thy ===== *)
theory Server_Config
  imports Os_Frames
begin

text \<open>
  The package \<open>server/internal/common/config\<close>: the allow list of the web service and of the
  ingest service, loaded from a JSON file and reloaded when the file changes. The file-change
  notifications of \<open>fsnotify\<close> are the input of the watcher. The lock of the manager makes its
  operations atomic.
\<close>

section \<open>State\<close>

record conf_manager =
  configPath :: string
  AllowedList :: "string list"
  allowSet :: "string list"

definition reservedNames :: "string list" where
  "reservedNames = [''ubuntu_report'', ''goose_db_version'']"

definition config_New :: "string \<Rightarrow> conf_manager" where
  "config_New path = \<lparr>configPath = path, AllowedList = [], allowSet = []\<rparr>"

section \<open>Loading\<close>

text \<open>
  \<open>json.Decoder.Decode\<close> into the structure: the first value of the file; keys match without
  regard to case, unknown keys are skipped, null leaves a field alone, and a null element is
  the empty string.
\<close>

definition decode_string :: "json \<Rightarrow> string option" where
  "decode_string v = (case v of JStr s \<Rightarrow> Some s | JNull \<Rightarrow> Some [] | _ \<Rightarrow> None)"

fun decode_allow_list :: "string list \<Rightarrow> (string \<times> json) list \<Rightarrow> string list option" where
  "decode_allow_list cur [] = Some cur"
| "decode_allow_list cur ((k, v) # kvs) =
     (if to_lower k = to_lower ''allowList'' then
        (case v of
           JNull \<Rightarrow> decode_allow_list [] kvs
         | JArr xs \<Rightarrow>
             (let ys = map decode_string xs in
              if None \<in> set ys then None else decode_allow_list (map the ys) kvs)
         | _ \<Rightarrow> None)
      else decode_allow_list cur kvs)"

definition decode_conf :: "string \<Rightarrow> string list option" where
  "decode_conf data =
     (case json_decode_first data of
        Some (JObj kvs) \<Rightarrow> decode_allow_list [] kvs
      | Some JNull \<Rightarrow> Some []
      | _ \<Rightarrow> None)"

definition filterAllowList :: "string list \<Rightarrow> string list" where
  "filterAllowList allowList = filter (\<lambda>name. name \<notin> set reservedNames) allowList"

definition buildAllowSet :: "string list \<Rightarrow> string list" where
  "buildAllowSet allowList = remdups allowList"

text \<open>The manager is threaded through: it stays as it is when loading fails.\<close>

definition Load :: "conf_manager \<Rightarrow> 'z os_scheme \<Rightarrow> (go_error option \<times> conf_manager) \<times> 'z os_scheme" where
  "Load cm w =
     (case os_read_file (configPath cm) w of
        (Inl e, w') \<Rightarrow> ((Some (ErrorfW ''opening config file'' e), cm), w')
      | (Inr data, w') \<Rightarrow>
         (case decode_conf data of
            None \<Rightarrow> ((Some (Errorf ''decoding config JSON''), cm), w')
          | Some xs \<Rightarrow>
             (let allowed = filterAllowList xs in
              ((None, cm\<lparr>AllowedList := allowed, allowSet := buildAllowSet allowed\<rparr>), w'))))"

section \<open>Queries\<close>

definition AllowList :: "conf_manager \<Rightarrow> string list" where
  "AllowList cm = AllowedList cm"

definition IsAllowed :: "conf_manager \<Rightarrow> string \<Rightarrow> bool" where
  "IsAllowed cm value = (value \<in> set (allowSet cm))"

section \<open>Watching\<close>

datatype fs_op = OpCreate | OpWrite | OpRemove | OpRename | OpChmod

datatype watch_input =
    CtxDone
  | FsEvent "fs_op list" string
  | EventsClosed
  | WatcherError
  | ErrorsClosed

text \<open>\<open>pending\<close>: the one-place buffer of the change channel holds a signal. \<open>watch_errs\<close>: what was
  put into the error channel. \<open>stopped\<close>: the goroutine has returned and closed both channels.\<close>

record watcher =
  w_conf :: conf_manager
  pending :: bool
  watch_errs :: "go_error list"
  stopped :: bool

definition watch_step :: "watch_input \<Rightarrow> watcher \<Rightarrow> 'z os_scheme \<Rightarrow> watcher \<times> 'z os_scheme" where
  "watch_step i s w =
     (if stopped s then (s, w)
      else case i of
        CtxDone \<Rightarrow> (s\<lparr>stopped := True\<rparr>, w)
      | EventsClosed \<Rightarrow>
          (s\<lparr>watch_errs := watch_errs s @ [Errorf ''watcher events channel closed unexpectedly''],
             stopped := True\<rparr>, w)
      | ErrorsClosed \<Rightarrow>
          (s\<lparr>watch_errs := watch_errs s @ [Errorf ''watcher errors channel closed unexpectedly''],
             stopped := True\<rparr>, w)
      | WatcherError \<Rightarrow> (s, w)
      | FsEvent ops name \<Rightarrow>
          if set ops \<inter> {OpWrite, OpCreate, OpRename} = {} then (s, w)
          else if name \<noteq> configPath (w_conf s) then (s, w)
          else (case Load (w_conf s) w of
                  ((Some _, cm), w') \<Rightarrow> (s\<lparr>w_conf := cm\<rparr>, w')
                | ((None, cm), w') \<Rightarrow> (s\<lparr>w_conf := cm, pending := True\<rparr>, w')))"

text \<open>\<open>filepath.Split\<close> gives the directory to watch, the current one when the path has none.\<close>

definition watch_dir :: "string \<Rightarrow> string" where
  "watch_dir path =
     (let d = rev (dropWhile (\<lambda>c. c \<noteq> slash) (rev path)) in if d = [] then ''.'' else d)"

text \<open>\<open>newWatcher\<close> and \<open>add\<close> are what \<open>fsnotify\<close> returns. A failing initial load is only logged.\<close>

definition Watch ::
    "go_error option \<Rightarrow> (string \<Rightarrow> go_error option) \<Rightarrow> conf_manager \<Rightarrow> 'z os_scheme
     \<Rightarrow> (go_error + watcher) \<times> 'z os_scheme" where
  "Watch newWatcher add cm w =
     (if newWatcher \<noteq> None then (Inl (Errorf ''failed to create watcher''), w)
      else if add (watch_dir (configPath cm)) \<noteq> None
      then (Inl (Errorf ''failed to add directory to watcher''), w)
      else case Load cm w of
        ((_, cm'), w') \<Rightarrow>
          (Inr \<lparr>w_conf = cm', pending = False, watch_errs = [], stopped = False\<rparr>, w'))"

section \<open>The contract of a configuration\<close>

text \<open>
  What the clients of the manager rely on: the set answers as the list does, and names the
  services use themselves are never allowed.
\<close>

locale config_provider =
  fixes is_allowed :: "'c \<Rightarrow> string \<Rightarrow> bool"
    and allow_list :: "'c \<Rightarrow> string list"
    and good :: "'c \<Rightarrow> bool"
  assumes allowed_iff: "good c \<Longrightarrow> is_allowed c v \<longleftrightarrow> v \<in> set (allow_list c)"
    and not_reserved: "good c \<Longrightarrow> v \<in> set reservedNames \<Longrightarrow> \<not> is_allowed c v"
begin

lemma reserved_not_listed: "good c \<Longrightarrow> v \<in> set reservedNames \<Longrightarrow> v \<notin> set (allow_list c)"
  using allowed_iff not_reserved by blast

end

definition conf_ok :: "conf_manager \<Rightarrow> bool" where
  "conf_ok cm \<longleftrightarrow> set (allowSet cm) = set (AllowedList cm) \<and>
     list_all (\<lambda>v. v \<notin> set reservedNames) (AllowedList cm)"

interpretation conf: config_provider IsAllowed AllowList conf_ok
  by unfold_locales (auto simp: IsAllowed_def AllowList_def conf_ok_def list_all_iff)

section \<open>Facts\<close>

lemma conf_ok_New: "conf_ok (config_New path)"
  by (simp add: conf_ok_def config_New_def)

lemma conf_ok_Load: "conf_ok cm \<Longrightarrow> Load cm w = ((e, cm'), w') \<Longrightarrow> conf_ok cm'"
  by (auto simp: Load_def Let_def conf_ok_def filterAllowList_def buildAllowSet_def list_all_iff
      split: prod.splits sum.splits option.splits)

lemma Load_fs: "Load cm w = (r, w') \<Longrightarrow> fs w' = fs w \<and> configPath (snd r) = configPath cm"
proof -
  assume a: "Load cm w = (r, w')"
  obtain x w1 where rd: "os_read_file (configPath cm) w = (x, w1)" by fastforce
  have "fs w1 = fs w" using framed_same [OF same.framed_read_file rd] .
  with a rd show ?thesis
    by (auto simp: Load_def Let_def split: sum.splits option.splits)
qed

text \<open>Runs of the watcher from its start, over any sequence of inputs.\<close>

inductive watch_run :: "conf_manager \<Rightarrow> os \<Rightarrow> watcher \<Rightarrow> os \<Rightarrow> bool" where
  start: "Watch None (\<lambda>_. None) cm w = (Inr s, w') \<Longrightarrow> watch_run cm w s w'"
| step: "watch_run cm w s w1 \<Longrightarrow> watch_step i s w1 = (s', w2) \<Longrightarrow> watch_run cm w s' w2"
| file_change: "watch_run cm w s w1 \<Longrightarrow> watch_run cm w s (w1\<lparr>fs := f, faults := fl\<rparr>)"
| received: "watch_run cm w s w1 \<Longrightarrow> watch_run cm w (s\<lparr>pending := False\<rparr>) w1"

inductive_cases watch_run_cases: "watch_run cm w s w'"

lemma watch_step_conf:
  assumes "watch_step i s w = (s', w')" "conf_ok (w_conf s)"
  shows "conf_ok (w_conf s') \<and> configPath (w_conf s') = configPath (w_conf s)"
proof -
  obtain e cm w1 where l: "Load (w_conf s) w = ((e, cm), w1)" by (metis surj_pair)
  then have "conf_ok cm" "configPath cm = configPath (w_conf s)"
    using conf_ok_Load [OF assms(2) l] Load_fs [OF l] by auto
  with l assms show ?thesis
    by (auto simp: watch_step_def split: watch_input.splits if_splits option.splits)
qed

section \<open>A concrete instance\<close>

definition example_conf_disk :: os where
  "example_conf_disk =
     \<lparr>fs = [([''conf.json''],
        FileN (marshal (JObj [(''allowList'', JArr [JStr ''linux'', JStr ''ubuntu_report''])])) 420)],
      faults = [], seed = 0\<rparr>"

section \<open>Properties\<close>

text \<open>C37: at every moment of the watcher's life, whatever the file holds and whatever events
  arrive, the allow set answers as the allow list does and no reserved name is allowed.\<close>

theorem watch_run_allowed:
  assumes "watch_run cm w s w'" "conf_ok cm"
  shows "(IsAllowed (w_conf s) v \<longleftrightarrow> v \<in> set (AllowList (w_conf s))) \<and>
    (v \<in> set reservedNames \<longrightarrow> \<not> IsAllowed (w_conf s) v)"
proof -
  have "conf_ok (w_conf s)"
    using assms
  proof (induction rule: watch_run.induct)
    case (start cm w s w')
    then show ?case by (auto simp: Watch_def split: prod.splits dest: conf_ok_Load)
  next
    case (step cm w s w1 i s' w2)
    then show ?case using watch_step_conf by blast
  qed auto
  then show ?thesis using conf.allowed_iff conf.not_reserved by blast
qed

theorem watch_run_allowed_witness:
  "\<exists>s w'. watch_run (config_New ''conf.json'') example_conf_disk s w' \<and>
    IsAllowed (w_conf s) ''linux'' \<and> \<not> IsAllowed (w_conf s) ''ubuntu_report''"
proof -
  let ?r = "Watch None (\<lambda>_. None) (config_New ''conf.json'') example_conf_disk"
  let ?s = "projr (fst ?r)"
  have "?r = (Inr ?s, snd ?r)" by code_simp
  then have run: "watch_run (config_New ''conf.json'') example_conf_disk ?s (snd ?r)" by (rule start)
  have "''linux'' \<in> set (AllowList (w_conf ?s))" by code_simp
  moreover have "''ubuntu_report'' \<in> set reservedNames" by code_simp
  ultimately show ?thesis
    using watch_run_allowed [OF run conf_ok_New, of "''linux''"]
      watch_run_allowed [OF run conf_ok_New, of "''ubuntu_report''"] run by blast
qed

text \<open>A change is never lost. When an event tells that the configuration file was written,
  created or renamed and loading it succeeds, the manager holds the new list and a signal is
  waiting in the change channel; when loading fails, the former configuration stays in force.\<close>

theorem watch_step_reloads:
  assumes "\<not> stopped s" "quiet w" "name = configPath (w_conf s)" "name \<noteq> []"
    and "set ops \<inter> {OpWrite, OpCreate, OpRename} \<noteq> {}"
  shows "\<exists>s'. watch_step (FsEvent ops name) s w = (s', w) \<and>
    (case Option.bind (file_content (fs w) (resolve name)) decode_conf of
       Some xs \<Rightarrow> pending s' \<and> AllowList (w_conf s') = filter (\<lambda>v. v \<notin> set reservedNames) xs
     | None \<Rightarrow> s' = s)"
proof (cases "file_content (fs w) (resolve name)")
  case None
  then have "\<exists>e. os_read_file name w = (Inl e, w)"
    using assms(2,4)
    by (auto simp: os_read_file_def at_path_quiet fs_read_def file_content_def
        split: option.splits node.splits)
  with None assms show ?thesis by (auto simp: watch_step_def Load_def)
next
  case (Some d)
  then have "os_read_file name w = (Inr d, w)" using assms(2,4) by (simp add: os_read_file_quiet)
  with Some assms show ?thesis
    by (auto simp: watch_step_def Load_def Let_def AllowList_def filterAllowList_def split: option.splits)
qed

theorem watch_step_reloads_witness:
  "\<exists>s'. watch_step (FsEvent [OpWrite] ''conf.json'')
       \<lparr>w_conf = config_New ''conf.json'', pending = False, watch_errs = [], stopped = False\<rparr>
       example_conf_disk = (s', example_conf_disk) \<and> pending s' \<and> AllowList (w_conf s') = [''linux'']"
proof -
  let ?s = "\<lparr>w_conf = config_New ''conf.json'', pending = False, watch_errs = [], stopped = False\<rparr>"
  have h: "\<not> stopped ?s" "quiet example_conf_disk" "''conf.json'' = configPath (w_conf ?s)"
    "''conf.json'' \<noteq> []" "set [OpWrite] \<inter> {OpWrite, OpCreate, OpRename} \<noteq> {}"
    by code_simp+
  have "Option.bind (file_content (fs example_conf_disk) (resolve ''conf.json'')) decode_conf =
      Some [''linux'', ''ubuntu_report'']"
    "filter (\<lambda>v. v \<notin> set reservedNames) [''linux'', ''ubuntu_report''] = [''linux'']"
    by code_simp+
  with watch_step_reloads [OF h] show ?thesis by auto
qed

end
