(* ===== verification/Handlers.thy ===== *)
theory Handlers
  imports Server_Config Go_Url
begin

text \<open>
  The packages \<open>webservice/handlers\<close> and \<open>webservice/metrics\<close>: the HTTP handlers that accept a
  report and store it below the reports directory, and the labels they leave on the request for
  the metrics. A handler works on the file system and returns the response together with the
  labelled request. The identifier of a request, which the \<open>uuid\<close> package draws, is an
  argument; the configuration is the function \<open>is_allowed\<close>.
\<close>

section \<open>Requests and responses\<close>

record http_request =
  r_method :: string
  r_url_path :: string
  r_escaped_path :: string
  r_path_values :: "(string \<times> string) list"
  r_body :: string
  r_broken :: bool
  r_label_path :: "string option"
  r_label_reject :: "string option"

record http_response =
  r_status :: nat
  r_content_type :: string
  r_text :: string

type_synonym 'z handler =
  "http_request \<Rightarrow> 'z os_scheme \<Rightarrow> (http_response \<times> http_request) \<times> 'z os_scheme"

definition PathValue :: "http_request \<Rightarrow> string \<Rightarrow> string" where
  "PathValue r n = (case map_of (r_path_values r) n of None \<Rightarrow> [] | Some v \<Rightarrow> v)"

definition http_Error :: "string \<Rightarrow> nat \<Rightarrow> http_response" where
  "http_Error msg code =
     \<lparr>r_status = code, r_content_type = ''text/plain; charset=utf-8'', r_text = msg @ [CHR 0x0A]\<rparr>"

definition header_only :: "nat \<Rightarrow> http_response" where
  "header_only code = \<lparr>r_status = code, r_content_type = [], r_text = []\<rparr>"

abbreviation "StatusOK \<equiv> 200 :: nat"
abbreviation "StatusAccepted \<equiv> 202 :: nat"
abbreviation "StatusBadRequest \<equiv> 400 :: nat"
abbreviation "StatusForbidden \<equiv> 403 :: nat"
abbreviation "StatusMethodNotAllowed \<equiv> 405 :: nat"
abbreviation "StatusInternalServerError \<equiv> 500 :: nat"

text \<open>\<open>io.ReadAll(http.MaxBytesReader(w, body, n))\<close>: an error when the body is longer than \<open>n\<close>
  bytes (a negative \<open>n\<close> counts as 0), or when the connection breaks.\<close>

definition read_limited :: "http_request \<Rightarrow> int \<Rightarrow> string option" where
  "read_limited r n = (if r_broken r \<or> int (length (r_body r)) > max n 0 then None else Some (r_body r))"

section \<open>Metric labels\<close>

definition RejectReasonNone :: string where "RejectReasonNone = ''none''"
definition RejectReasonMethodNotAllowed :: string where
  "RejectReasonMethodNotAllowed = ''method_not_allowed''"
definition RejectReasonForbidden :: string where "RejectReasonForbidden = ''forbidden''"
definition RejectReasonUnreadablePayload :: string where
  "RejectReasonUnreadablePayload = ''unreadable_payload''"
definition RejectReasonInvalidJSON :: string where "RejectReasonInvalidJSON = ''invalid_json''"
definition RejectReasonInternalServerErr :: string where
  "RejectReasonInternalServerErr = ''internal_server_error''"

lemmas reason_defs = RejectReasonNone_def RejectReasonMethodNotAllowed_def RejectReasonForbidden_def
  RejectReasonUnreadablePayload_def RejectReasonInvalidJSON_def RejectReasonInternalServerErr_def

definition ApplyLabels :: "http_request \<Rightarrow> http_request" where
  "ApplyLabels r = r\<lparr>r_label_path := Some (r_url_path r)\<rparr>"

definition ApplyRejectReason :: "http_request \<Rightarrow> string \<Rightarrow> http_request" where
  "ApplyRejectReason r reason = r\<lparr>r_label_reject := Some reason\<rparr>"

definition pathLabelFromCtx :: "http_request \<Rightarrow> string" where
  "pathLabelFromCtx r = (case r_label_path r of Some p \<Rightarrow> p | None \<Rightarrow> ''unknown'')"

definition rejectReasonFromCtx :: "http_request \<Rightarrow> string" where
  "rejectReasonFromCtx r = (case r_label_reject r of Some x \<Rightarrow> x | None \<Rightarrow> RejectReasonNone)"

definition HandlerApplyLabels :: "'z handler \<Rightarrow> 'z handler" where
  "HandlerApplyLabels h = (\<lambda>r. h (ApplyLabels r))"

text \<open>\<open>EndpointMiddleware.Wrap\<close>: every request that the handler has answered is counted under
  its method, status, path and reject reason. The counters are the list of these labels.\<close>

definition endpoint_labels :: "http_response \<Rightarrow> http_request \<Rightarrow> string \<times> nat \<times> string \<times> string" where
  "endpoint_labels resp r = (r_method r, r_status resp, pathLabelFromCtx r, rejectReasonFromCtx r)"

definition endpoint_Wrap ::
    "string \<Rightarrow> 'z handler \<Rightarrow> (string \<times> string \<times> nat \<times> string \<times> string) list \<Rightarrow> http_request \<Rightarrow> 'z os_scheme
     \<Rightarrow> (http_response \<times> (string \<times> string \<times> nat \<times> string \<times> string) list) \<times> 'z os_scheme" where
  "endpoint_Wrap handlerName h counters r w =
     (case h r w of ((resp, r'), w') \<Rightarrow> ((resp, counters @ [(handlerName, endpoint_labels resp r')]), w'))"

section \<open>The handlers\<close>

record jsonHandler =
  h_config :: "string \<Rightarrow> bool"
  h_reportsDir :: string
  h_maxUploadSize :: int
  h_successStatus :: nat

definition reject :: "http_request \<Rightarrow> string \<Rightarrow> string \<Rightarrow> nat \<Rightarrow> 'z os_scheme
    \<Rightarrow> (http_response \<times> http_request) \<times> 'z os_scheme" where
  "reject r reason msg code w = ((http_Error msg code, ApplyRejectReason r reason), w)"

definition serveHTTP :: "jsonHandler \<Rightarrow> string \<Rightarrow> string \<Rightarrow> 'z handler" where
  "serveHTTP h reqID app r w =
     (if \<not> h_config h app
      then reject r RejectReasonForbidden ''Invalid application name in URL'' StatusForbidden w
      else
       (let r = ApplyLabels r in
        if r_method r \<noteq> ''POST''
        then reject r RejectReasonMethodNotAllowed ''Method not allowed'' StatusMethodNotAllowed w
        else
          case read_limited r (h_maxUploadSize h) of
            None \<Rightarrow> reject r RejectReasonUnreadablePayload ''Failed to read request body'' StatusBadRequest w
          | Some jsonData \<Rightarrow>
              if \<not> json_valid jsonData
              then reject r RejectReasonInvalidJSON ''Invalid JSON'' StatusBadRequest w
              else
               (let targetDir = path_join [h_reportsDir h, app] in
                case os_mkdir_all targetDir 488 w of
                  (Inl _, w1) \<Rightarrow>
                    reject r RejectReasonInternalServerErr ''Internal server error'' StatusInternalServerError w1
                | (Inr _, w1) \<Rightarrow>
                   (let safeFilename = reqID @ ''.json'';
                        targetPath = path_join [targetDir, safeFilename] in
                    case AtomicWrite targetPath jsonData w1 of
                      (Inl _, w2) \<Rightarrow>
                        reject r RejectReasonInternalServerErr ''Internal server error''
                          StatusInternalServerError w2
                    | (Inr _, w2) \<Rightarrow> ((header_only (h_successStatus h), r), w2)))))"

definition NewUpload :: "(string \<Rightarrow> bool) \<Rightarrow> string \<Rightarrow> int \<Rightarrow> jsonHandler" where
  "NewUpload cfg reportsDir maxUploadSize =
     \<lparr>h_config = cfg, h_reportsDir = reportsDir, h_maxUploadSize = maxUploadSize,
      h_successStatus = StatusAccepted\<rparr>"

definition NewLegacyReport :: "(string \<Rightarrow> bool) \<Rightarrow> string \<Rightarrow> int \<Rightarrow> jsonHandler" where
  "NewLegacyReport cfg reportsDir maxUploadSize =
     \<lparr>h_config = cfg, h_reportsDir = reportsDir, h_maxUploadSize = maxUploadSize,
      h_successStatus = StatusOK\<rparr>"

text \<open>The test both handlers make on a cleaned path value.\<close>

definition bad_segment :: "string \<Rightarrow> bool" where
  "bad_segment s \<longleftrightarrow> s = [] \<or> s = ''.'' \<or> contains_str s ''..''"

definition Upload_ServeHTTP :: "jsonHandler \<Rightarrow> string \<Rightarrow> 'z handler" where
  "Upload_ServeHTTP h reqID r w =
     (let app = path_clean (PathValue r ''app'') in
      if bad_segment app
      then reject r RejectReasonForbidden ''Invalid application name in URL'' StatusForbidden w
      else serveHTTP h reqID app r w)"

definition LegacyReport_ServeHTTP :: "jsonHandler \<Rightarrow> string \<Rightarrow> 'z handler" where
  "LegacyReport_ServeHTTP h reqID r w =
     (let distribution = path_clean (PathValue r ''distribution'') in
      if bad_segment distribution
      then reject r RejectReasonForbidden ''Invalid distribution name in URL'' StatusForbidden w
      else
       (let version = path_clean (PathValue r ''version'') in
        if bad_segment version
        then reject r RejectReasonForbidden ''Invalid version name in URL'' StatusForbidden w
        else
         (let app = LegacyReportTag @ ''/'' @ distribution @ ''/desktop/'' @ version in
          serveHTTP h reqID app r w)))"

definition VersionHandler :: "string \<Rightarrow> 'z handler" where
  "VersionHandler version r0 w =
     (let r = ApplyLabels r0 in
      if r_method r \<noteq> ''GET''
      then reject r RejectReasonMethodNotAllowed ''Method not allowed'' StatusMethodNotAllowed w
      else ((\<lparr>r_status = StatusOK, r_content_type = ''application/json'',
              r_text = ''{'' @ [CHR 0x22] @ ''version'' @ [CHR 0x22] @ '':'' @ [CHR 0x22] @ version @
                [CHR 0x22] @ ''}''\<rparr>, r), w))"

section \<open>Where a report is stored\<close>

lemma norm_comps_append: "norm_comps r st (cs @ ds) = norm_comps r (rev (norm_comps r st cs)) ds"
  by (induction r st cs rule: norm_comps.induct) (auto split: list.splits)

lemma norm_comps_no_up:
  "''..'' \<notin> set ds \<Longrightarrow> norm_comps r st ds = rev st @ filter (\<lambda>c. c \<noteq> [] \<and> c \<noteq> ''.'') ds"
  by (induction r st ds rule: norm_comps.induct) auto

lemma split_on_infix: "p \<in> set (split_on sep s) \<Longrightarrow> \<exists>u v. s = u @ p @ v"
proof (induction s arbitrary: p)
  case (Cons c cs)
  show ?case
  proof (cases "c = sep")
    case True
    then consider "p = []" | "p \<in> set (split_on sep cs)" using Cons.prems by auto
    then show ?thesis
    proof cases
      case 2
      then obtain u v where "cs = u @ p @ v" using Cons.IH by blast
      then show ?thesis by (intro exI [of _ "c # u"] exI [of _ v]) simp
    qed (metis append_Nil)
  next
    case False
    obtain q qs where q: "split_on sep cs = q # qs" by (cases "split_on sep cs") simp_all
    with False Cons.prems consider "p = c # q" | "p \<in> set qs" by auto
    then show ?thesis
    proof cases
      case 1
      have "\<exists>v. cs = q @ v" using q
      proof -
        have "cs = join_with [sep] (q # qs)" using join_split [of sep cs] q by simp
        then show ?thesis by (cases qs) auto
      qed
      then show ?thesis using 1 by (metis append_Cons append_Nil)
    next
      case 2
      then obtain u v where "cs = u @ p @ v" using Cons.IH q by force
      then show ?thesis by (intro exI [of _ "c # u"] exI [of _ v]) simp
    qed
  qed
qed simp

text \<open>A path value without two dots in a row cannot leave the directory it is joined to.\<close>

definition no_up :: "string \<Rightarrow> bool" where
  "no_up a \<longleftrightarrow> ''..'' \<notin> set (split_on slash a)"

lemma no_dots_up: "\<not> contains_str a ''..'' \<Longrightarrow> no_up a"
  unfolding no_up_def using split_on_infix contains_str_iff by metis

lemma bad_segment_up: "\<not> bad_segment s \<Longrightarrow> no_up s"
  by (simp add: bad_segment_def no_dots_up)

lemma resolve_join_contained:
  assumes "no_up a" "d \<noteq> []"
  shows "resolve (path_join [d, a]) = resolve d @ clean_comps a"
proof -
  have n: "''..'' \<notin> set (split_on slash a)" using assms(1) by (simp add: no_up_def)
  have "clean_comps (d @ slash # a) = clean_comps d @ clean_comps a"
    using n assms(2)
    by (simp add: clean_comps_def split_on_append norm_comps_append norm_comps_no_up is_rooted_append)
  then show ?thesis using assms(2) by (simp add: path_join2 resolve_def is_rooted_append)
qed

lemma contained_plain: "no_up a \<Longrightarrow> c \<in> set (clean_comps a) \<Longrightarrow> plain_name c"
  using clean_comps_no_slash [of c a]
  by (auto simp: no_up_def clean_comps_def norm_comps_no_up plain_name_def)

text \<open>The textual form of a UUID.\<close>

definition uuid_form :: "string \<Rightarrow> bool" where
  "uuid_form s \<longleftrightarrow> length s = 36 \<and> list_all (\<lambda>c. c \<in> set ''0123456789abcdef-'') s"

lemma uuid_file_plain: "uuid_form s \<Longrightarrow> plain_name (s @ ''.json'') \<and> not_temp (s @ ''.json'')"
  by (auto simp: uuid_form_def plain_name_def not_temp_def has_suffix_def list_all_iff)

section \<open>What serving a request does\<close>

definition acceptable :: "jsonHandler \<Rightarrow> string \<Rightarrow> http_request \<Rightarrow> bool" where
  "acceptable h app r \<longleftrightarrow> h_config h app \<and> r_method r = ''POST'' \<and> \<not> r_broken r \<and>
     int (length (r_body r)) \<le> max (h_maxUploadSize h) 0 \<and> json_valid (r_body r)"

lemma read_limited_labels [simp]: "read_limited (ApplyLabels r) n = read_limited r n"
  by (simp add: read_limited_def ApplyLabels_def)

lemma acceptable_iff:
  "acceptable h app r \<longleftrightarrow> h_config h app \<and> r_method r = ''POST'' \<and>
     read_limited r (h_maxUploadSize h) = Some (r_body r) \<and> json_valid (r_body r)"
  unfolding acceptable_def read_limited_def by (smt (verit) option.distinct(1))

lemma read_limited_Some: "read_limited r n = Some d \<Longrightarrow> d = r_body r"
  by (auto simp: read_limited_def split: if_splits)

lemma method_labels [simp]: "r_method (ApplyLabels r) = r_method r"
  by (simp add: ApplyLabels_def)

definition rejected_status :: "nat \<Rightarrow> bool" where
  "rejected_status c \<longleftrightarrow> c \<in> {StatusBadRequest, StatusForbidden, StatusMethodNotAllowed, StatusInternalServerError}"

lemma serve_unacceptable:
  assumes "\<not> acceptable h app r"
  shows "\<exists>resp r'. serveHTTP h reqID app r w = ((resp, r'), w) \<and> rejected_status (r_status resp) \<and>
    r_status resp \<noteq> StatusInternalServerError"
  using assms
  by (auto simp: serveHTTP_def acceptable_iff reject_def http_Error_def Let_def
      rejected_status_def split: option.splits dest: read_limited_Some)

lemma serve_acceptable:
  assumes "acceptable h app r"
  shows "serveHTTP h reqID app r w =
    (case os_mkdir_all (path_join [h_reportsDir h, app]) 488 w of
       (Inl _, w1) \<Rightarrow> reject (ApplyLabels r) RejectReasonInternalServerErr ''Internal server error''
         StatusInternalServerError w1
     | (Inr _, w1) \<Rightarrow>
        (case AtomicWrite (path_join [path_join [h_reportsDir h, app], reqID @ ''.json'']) (r_body r) w1 of
           (Inl _, w2) \<Rightarrow> reject (ApplyLabels r) RejectReasonInternalServerErr ''Internal server error''
             StatusInternalServerError w2
         | (Inr _, w2) \<Rightarrow> ((header_only (h_successStatus h), ApplyLabels r), w2)))"
  using assms by (simp add: serveHTTP_def acceptable_iff Let_def split: prod.splits sum.splits)

text \<open>Whatever fails: nothing changes but directories, the target, which holds the body or its
  former content, and temporary files beside it; success means the body is at the target.\<close>

lemma serve_effect:
  assumes "serveHTTP h reqID app r w = ((resp, r'), w')" "uuid_form reqID"
    and "no_up app" "h_reportsDir h \<noteq> []"
    and "D = resolve (h_reportsDir h) @ clean_comps app"
  shows "\<not> rejected_status (r_status resp) \<Longrightarrow> acceptable h app r \<and> r_status resp = h_successStatus h \<and>
      file_content (fs w') (D @ [reqID @ ''.json'']) = Some (r_body r)"
    and "file_content (fs w') q = file_content (fs w) q \<or>
      acceptable h app r \<and> (\<exists>k. q = D @ [temp_name k]) \<or>
      acceptable h app r \<and> q = D @ [reqID @ ''.json''] \<and> file_content (fs w') q = Some (r_body r)"
proof -
  let ?d = "path_join [h_reportsDir h, app]" and ?n = "reqID @ ''.json''"
  have D: "resolve ?d = D" using resolve_join_contained assms(3-5) by simp
  note n = uuid_file_plain [OF assms(2)]
  have "(\<not> rejected_status (r_status resp) \<longrightarrow> acceptable h app r \<and> r_status resp = h_successStatus h \<and>
      file_content (fs w') (D @ [?n]) = Some (r_body r)) \<and>
    (file_content (fs w') q = file_content (fs w) q \<or> acceptable h app r \<and> (\<exists>k. q = D @ [temp_name k]) \<or>
      acceptable h app r \<and> q = D @ [?n] \<and> file_content (fs w') q = Some (r_body r))"
  proof (cases "acceptable h app r")
    case False
    then obtain rs r1 where "serveHTTP h reqID app r w = ((rs, r1), w)" "rejected_status (r_status rs)"
      using serve_unacceptable by blast
    with assms(1) show ?thesis by simp
  next
    case True
    obtain r1 w1 where mk: "os_mkdir_all ?d 488 w = (r1, w1)" by fastforce
    have c1: "file_content (fs w1) p = file_content (fs w) p" for p
      using dirs.frame_elim [OF dirs_framed_mkdir_all mk] by (simp add: fs_rel_def adds_dirs_content)
    obtain r2 w2 where wr: "AtomicWrite (path_join [?d, ?n]) (r_body r) w1 = (r2, w2)" by fastforce
    have a: "replaced (D @ [?n]) D (r_body r) (fs w1) (fs w2)"
      "r2 = Inr () \<Longrightarrow> file_content (fs w2) (D @ [?n]) = Some (r_body r)"
      using atomicWrite_atomic [of ?n ?d "r_body r" 0 w1 r2 w2] n wr D
      by (auto simp: AtomicWrite_def file_content_file)
    have c2: "file_content (fs w2) q = file_content (fs w) q \<or> (\<exists>k. q = D @ [temp_name k]) \<or>
      q = D @ [?n] \<and> file_content (fs w2) q = Some (r_body r)"
      using replaced_content [OF a(1), of q] c1 by metis
    show ?thesis
      using assms(1) serve_acceptable [OF True, of reqID w] mk wr True a(2) c1 c2
      by (cases r1; cases r2)
         (auto simp: reject_def http_Error_def rejected_status_def header_only_def)
  qed
  then show "\<not> rejected_status (r_status resp) \<Longrightarrow> acceptable h app r \<and> r_status resp = h_successStatus h \<and>
      file_content (fs w') (D @ [?n]) = Some (r_body r)"
    and "file_content (fs w') q = file_content (fs w) q \<or>
      acceptable h app r \<and> (\<exists>k. q = D @ [temp_name k]) \<or>
      acceptable h app r \<and> q = D @ [?n] \<and> file_content (fs w') q = Some (r_body r)" by auto
qed

lemma serve_quiet:
  assumes "quiet w" "fs_wf (fs w)" "uuid_form reqID" "acceptable h app r"
    and "no_up app" "h_reportsDir h \<noteq> []"
    and D: "D = resolve (h_reportsDir h) @ clean_comps app"
    and "creatable (fs w) D" "fs_get (fs w) (D @ [reqID @ ''.json'']) = None"
  shows "\<exists>w'. serveHTTP h reqID app r w = ((header_only (h_successStatus h), ApplyLabels r), w')"
proof -
  let ?d = "path_join [h_reportsDir h, app]" and ?n = "reqID @ ''.json''"
  have rd: "resolve ?d = D" using resolve_join_contained assms(5,6) D by simp
  have "?d \<noteq> []" using assms(6) by (simp add: path_join2)
  then obtain f1 where f1: "os_mkdir_all ?d 488 w = (Inr (), w\<lparr>fs := f1\<rparr>)" "is_dir_at f1 D"
    "\<forall>q. q \<notin> range (\<lambda>i. take i D) \<longrightarrow> fs_get f1 q = fs_get (fs w) q"
    using os_mkdir_all_quiet [of w ?d 488] assms(1,8) rd by auto
  have "fs_wf f1"
    using wf.frame_elim [OF wf_framed_mkdir_all f1(1)] assms(2) by (simp add: fs_rel_def keeps_wf_def)
  moreover have "fs_get f1 (D @ [?n]) = None"
    using f1(3) assms(9) by (metis (no_types, lifting) imageE take_neq_snoc)
  then have "\<not> is_dir_at f1 (D @ [?n])" by (simp add: is_dir_at_def)
  ultimately obtain f2 where "AtomicWrite (path_join [?d, ?n]) (r_body r) (w\<lparr>fs := f1\<rparr>) = (Inr (), w\<lparr>fs := f2\<rparr>)"
    using atomicWrite_quiet [of "w\<lparr>fs := f1\<rparr>" ?n ?d "r_body r" 0] assms(1) f1(2) rd
      uuid_file_plain [OF assms(3)] by (auto simp: AtomicWrite_def)
  with f1(1) show ?thesis using serve_acceptable [OF assms(4), of reqID w] by simp
qed

text \<open>The labels tell what happened: no reject reason exactly on success, the path only of
  applications that are allowed.\<close>

lemma serve_labels:
  assumes "serveHTTP h reqID app r w = ((resp, r'), w')" "r_label_path r = None" "r_label_reject r = None"
    "\<not> rejected_status (h_successStatus h)"
  shows "rejectReasonFromCtx r' = RejectReasonNone \<longleftrightarrow> r_status resp = h_successStatus h"
    "pathLabelFromCtx r' = (if h_config h app then r_url_path r else ''unknown'')"
  using assms
  by (auto simp: serveHTTP_def reject_def ApplyLabels_def ApplyRejectReason_def rejectReasonFromCtx_def
      pathLabelFromCtx_def reason_defs http_Error_def header_only_def Let_def rejected_status_def
      split: option.splits sum.splits prod.splits if_splits)

lemma legacy_app_up:
  assumes "no_up d" "no_up v"
  shows "no_up (LegacyReportTag @ ''/'' @ d @ ''/desktop/'' @ v)"
proof -
  have "split_on slash (LegacyReportTag @ ''/'' @ d @ ''/desktop/'' @ v) =
    split_on slash LegacyReportTag @ split_on slash d @ split_on slash ''desktop'' @ split_on slash v"
    using split_on_append [of slash LegacyReportTag "d @ ''/desktop/'' @ v"]
      split_on_append [of slash d "''desktop/'' @ v"] split_on_append [of slash "''desktop''" v] by simp
  then show ?thesis using assms by (simp add: no_up_def LegacyReportTag_def)
qed

text \<open>The locations below a directory.\<close>

definition below :: "fpath \<Rightarrow> fpath set" where
  "below d = {d @ ns | ns. ns \<noteq> [] \<and> list_all plain_name ns}"

lemma serve_below:
  assumes "serveHTTP h reqID app r w = ((resp, r'), w')" "uuid_form reqID" "no_up app" "h_reportsDir h \<noteq> []"
    and "q \<notin> below (resolve (h_reportsDir h))"
  shows "file_content (fs w') q = file_content (fs w) q"
proof -
  have "list_all plain_name (clean_comps app @ [n])" if "plain_name n" for n
    using contained_plain [OF assms(3)] that by (simp add: list_all_iff)
  then have "resolve (h_reportsDir h) @ clean_comps app @ [n] \<in> below (resolve (h_reportsDir h))"
    if "plain_name n" for n
    using that unfolding below_def by blast
  then have "q \<noteq> (resolve (h_reportsDir h) @ clean_comps app) @ [n]" if "plain_name n" for n
    using that assms(5) by auto
  then show ?thesis
    using serve_effect(2) [OF assms(1-4) refl, of q] uuid_file_plain [OF assms(2)] temp_name_plain by metis
qed

lemma Upload_contained:
  assumes "Upload_ServeHTTP h reqID r w = ((resp, r'), w')" "uuid_form reqID" "h_reportsDir h \<noteq> []"
    and "q \<notin> below (resolve (h_reportsDir h))"
  shows "file_content (fs w') q = file_content (fs w) q"
proof (cases "bad_segment (path_clean (PathValue r ''app''))")
  case True
  with assms(1) show ?thesis by (simp add: Upload_ServeHTTP_def reject_def)
next
  case False
  with assms show ?thesis
    using serve_below [of h reqID "path_clean (PathValue r ''app'')"] bad_segment_up
    by (simp add: Upload_ServeHTTP_def)
qed

lemma LegacyReport_contained:
  assumes "LegacyReport_ServeHTTP h reqID r w = ((resp, r'), w')" "uuid_form reqID" "h_reportsDir h \<noteq> []"
    and "q \<notin> below (resolve (h_reportsDir h))"
  shows "file_content (fs w') q = file_content (fs w) q"
proof -
  let ?d = "path_clean (PathValue r ''distribution'')" and ?v = "path_clean (PathValue r ''version'')"
  show ?thesis
  proof (cases "bad_segment ?d \<or> bad_segment ?v")
    case True
    with assms(1) show ?thesis by (auto simp: LegacyReport_ServeHTTP_def reject_def Let_def split: if_splits)
  next
    case False
    then have "no_up (LegacyReportTag @ ''/'' @ ?d @ ''/desktop/'' @ ?v)"
      using legacy_app_up bad_segment_up by blast
    with False assms show ?thesis
      using serve_below [of h reqID "LegacyReportTag @ ''/'' @ ?d @ ''/desktop/'' @ ?v"]
      by (simp add: LegacyReport_ServeHTTP_def Let_def)
  qed
qed

section \<open>A concrete instance\<close>

definition example_request :: http_request where
  "example_request =
     \<lparr>r_method = ''POST'', r_url_path = ''/upload/linux'', r_escaped_path = ''/upload/linux'', r_path_values = [(''app'', ''linux'')],
      r_body = ''{}'', r_broken = False, r_label_path = None, r_label_reject = None\<rparr>"

definition example_legacy_request :: http_request where
  "example_legacy_request =
     example_request\<lparr>r_url_path := ''/ubuntu/desktop/24.04'', r_escaped_path := ''/ubuntu/desktop/24.04'',
       r_path_values := [(''distribution'', ''ubuntu''), (''version'', ''24.04'')]\<rparr>"

definition example_uuid :: string where
  "example_uuid = ''01234567-89ab-cdef-0123-456789abcdef''"

definition example_server :: os where
  "example_server = \<lparr>fs = [([''/'', ''srv''], DirN 493)], faults = [], seed = 0\<rparr>"

section \<open>Properties\<close>

text \<open>C16: a report that the upload handler accepts (202) came by POST, within the size limit, as
  valid JSON, for an application that is allowed, and is stored under the reports directory in
  the directory of its application, whatever system call fails. No request changes a file
  outside the reports directory, whatever its path value.\<close>

theorem Upload_stores_accepted:
  assumes "Upload_ServeHTTP (NewUpload cfg dir limit) reqID r w = ((resp, r'), w')"
    and "uuid_form reqID" "dir \<noteq> []" "app = path_clean (PathValue r ''app'')"
  shows "(r_status resp = StatusAccepted \<longrightarrow> cfg app \<and> r_method r = ''POST'' \<and>
      int (length (r_body r)) \<le> max limit 0 \<and> json_valid (r_body r) \<and>
      file_content (fs w') (resolve dir @ clean_comps app @ [reqID @ ''.json'']) = Some (r_body r)) \<and>
    (\<forall>q. file_content (fs w') q \<noteq> file_content (fs w) q \<longrightarrow> cfg app \<and> q \<in> below (resolve dir))"
proof (cases "bad_segment app")
  case True
  with assms show ?thesis by (auto simp: Upload_ServeHTTP_def reject_def http_Error_def)
next
  case False
  let ?h = "NewUpload cfg dir limit"
  have s: "serveHTTP ?h reqID app r w = ((resp, r'), w')" "no_up app" "h_reportsDir ?h \<noteq> []"
    using assms False bad_segment_up by (simp_all add: Upload_ServeHTTP_def NewUpload_def)
  note e = serve_effect [OF s(1) assms(2) s(2,3) refl]
  have "r_status resp = StatusAccepted \<Longrightarrow> acceptable ?h app r \<and>
    file_content (fs w') (resolve dir @ clean_comps app @ [reqID @ ''.json'']) = Some (r_body r)"
    using e(1) by (simp add: rejected_status_def NewUpload_def)
  moreover have "cfg app \<and> q \<in> below (resolve dir)" if "file_content (fs w') q \<noteq> file_content (fs w) q" for q
    using serve_below [OF s(1) assms(2) s(2,3), of q] e(2) [of q] that
    by (auto simp: NewUpload_def acceptable_def)
  ultimately show ?thesis by (auto simp: acceptable_def NewUpload_def)
qed

theorem Upload_stores_accepted_witness:
  "\<exists>resp r' w'. Upload_ServeHTTP (NewUpload (\<lambda>a. a = ''linux'') ''/srv'' 1024) example_uuid
      example_request example_server = ((resp, r'), w') \<and> r_status resp = StatusAccepted \<and>
    file_content (fs w') [''/'', ''srv'', ''linux'', example_uuid @ ''.json''] = Some ''{}'' \<and>
    (\<forall>q. file_content (fs w') q \<noteq> file_content (fs example_server) q \<longrightarrow> q \<in> below [''/'', ''srv''])"
proof -
  define run where "run = Upload_ServeHTTP (NewUpload (\<lambda>a. a = ''linux'') ''/srv'' 1024) example_uuid
    example_request example_server"
  obtain resp r' w' where run': "run = ((resp, r'), w')" by (metis surj_pair)
  have "r_status (fst (fst run)) = StatusAccepted" unfolding run_def by code_simp
  then have st: "r_status resp = StatusAccepted" using run' by simp
  have h: "uuid_form example_uuid" "''/srv'' \<noteq> []" "''linux'' = path_clean (PathValue example_request ''app'')"
    "resolve ''/srv'' = [''/'', ''srv'']" "clean_comps ''linux'' = [''linux'']" "r_body example_request = ''{}''"
    by code_simp+
  have e: "Upload_ServeHTTP (NewUpload (\<lambda>a. a = ''linux'') ''/srv'' 1024) example_uuid
    example_request example_server = ((resp, r'), w')" using run' run_def by simp
  show ?thesis
    using Upload_stores_accepted [OF e h(1-3)] e st unfolding h(4-6)
    by (intro exI [of _ resp] exI [of _ r'] exI [of _ w']) simp
qed

text \<open>The same for the handler of old-style reports, which answers 200 and stores under the
  tag of these reports, the distribution and the version.\<close>

theorem LegacyReport_stores_accepted:
  assumes "LegacyReport_ServeHTTP (NewLegacyReport cfg dir limit) reqID r w = ((resp, r'), w')"
    and "uuid_form reqID" "dir \<noteq> []"
    and "app = LegacyReportTag @ ''/'' @ path_clean (PathValue r ''distribution'') @ ''/desktop/'' @
      path_clean (PathValue r ''version'')"
  shows "(r_status resp = StatusOK \<longrightarrow> cfg app \<and> r_method r = ''POST'' \<and>
      int (length (r_body r)) \<le> max limit 0 \<and> json_valid (r_body r) \<and>
      file_content (fs w') (resolve dir @ clean_comps app @ [reqID @ ''.json'']) = Some (r_body r)) \<and>
    (\<forall>q. file_content (fs w') q \<noteq> file_content (fs w) q \<longrightarrow> cfg app \<and> q \<in> below (resolve dir))"
proof (cases "bad_segment (path_clean (PathValue r ''distribution'')) \<or>
    bad_segment (path_clean (PathValue r ''version''))")
  case True
  with assms show ?thesis
    by (auto simp: LegacyReport_ServeHTTP_def reject_def http_Error_def Let_def split: if_splits)
next
  case False
  let ?h = "NewLegacyReport cfg dir limit"
  have s: "serveHTTP ?h reqID app r w = ((resp, r'), w')" "no_up app" "h_reportsDir ?h \<noteq> []"
    using assms False legacy_app_up bad_segment_up
    by (simp_all add: LegacyReport_ServeHTTP_def NewLegacyReport_def Let_def)
  note e = serve_effect [OF s(1) assms(2) s(2,3) refl]
  have "r_status resp = StatusOK \<Longrightarrow> acceptable ?h app r \<and>
    file_content (fs w') (resolve dir @ clean_comps app @ [reqID @ ''.json'']) = Some (r_body r)"
    using e(1) by (simp add: rejected_status_def NewLegacyReport_def)
  moreover have "cfg app \<and> q \<in> below (resolve dir)" if "file_content (fs w') q \<noteq> file_content (fs w) q" for q
    using serve_below [OF s(1) assms(2) s(2,3), of q] e(2) [of q] that
    by (auto simp: NewLegacyReport_def acceptable_def)
  ultimately show ?thesis by (auto simp: acceptable_def NewLegacyReport_def)
qed

theorem LegacyReport_stores_accepted_witness:
  "\<exists>resp r' w'. LegacyReport_ServeHTTP (NewLegacyReport (\<lambda>a. a = ''ubuntu-report/ubuntu/desktop/24.04'') ''/srv'' 1024)
      example_uuid example_legacy_request example_server = ((resp, r'), w') \<and> r_status resp = StatusOK \<and>
    file_content (fs w') [''/'', ''srv'', ''ubuntu-report'', ''ubuntu'', ''desktop'', ''24.04'',
      example_uuid @ ''.json''] = Some ''{}''"
proof -
  let ?app = "''ubuntu-report/ubuntu/desktop/24.04''"
  define run where "run = LegacyReport_ServeHTTP (NewLegacyReport (\<lambda>a. a = ?app) ''/srv'' 1024)
    example_uuid example_legacy_request example_server"
  obtain resp r' w' where run': "run = ((resp, r'), w')" by (metis surj_pair)
  have "r_status (fst (fst run)) = StatusOK" unfolding run_def by code_simp
  then have st: "r_status resp = StatusOK" using run' by simp
  have h: "uuid_form example_uuid" "''/srv'' \<noteq> []"
    "?app = LegacyReportTag @ ''/'' @ path_clean (PathValue example_legacy_request ''distribution'') @ ''/desktop/'' @
      path_clean (PathValue example_legacy_request ''version'')"
    "resolve ''/srv'' = [''/'', ''srv'']" "clean_comps ?app = [''ubuntu-report'', ''ubuntu'', ''desktop'', ''24.04'']"
    "r_body example_legacy_request = ''{}''"
    by code_simp+
  have e: "LegacyReport_ServeHTTP (NewLegacyReport (\<lambda>a. a = ?app) ''/srv'' 1024)
    example_uuid example_legacy_request example_server = ((resp, r'), w')" using run' run_def by simp
  show ?thesis
    using LegacyReport_stores_accepted [OF e h(1-3)] e st unfolding h(4-6)
    by (intro exI [of _ resp] exI [of _ r'] exI [of _ w']) simp
qed

text \<open>An acceptable report is accepted: without faults, and when neither a file is in the way
  of its directory nor an entry at its name, the upload handler answers 202.\<close>

theorem Upload_accepts:
  assumes "quiet w" "fs_wf (fs w)" "uuid_form reqID" "dir \<noteq> []"
    and "app = path_clean (PathValue r ''app'')" "app \<noteq> ''.''" "\<not> contains_str app ''..''"
    and "acceptable (NewUpload cfg dir limit) app r"
    and "creatable (fs w) (resolve dir @ clean_comps app)"
    and "fs_get (fs w) (resolve dir @ clean_comps app @ [reqID @ ''.json'']) = None"
  shows "\<exists>r' w'. Upload_ServeHTTP (NewUpload cfg dir limit) reqID r w = ((header_only StatusAccepted, r'), w')"
proof -
  have "\<not> bad_segment app" using assms(5-7) by (simp add: bad_segment_def)
  moreover have "\<exists>w'. serveHTTP (NewUpload cfg dir limit) reqID app r w =
      ((header_only StatusAccepted, ApplyLabels r), w')"
    using serve_quiet [OF assms(1-3,8) no_dots_up [OF assms(7)] _ refl] assms(4,9,10)
    by (simp add: NewUpload_def)
  ultimately show ?thesis using assms(5) by (auto simp: Upload_ServeHTTP_def)
qed

theorem Upload_accepts_witness:
  "\<exists>r' w'. Upload_ServeHTTP (NewUpload (\<lambda>a. a = ''linux'') ''/srv'' 1024) example_uuid example_request
      example_server = ((header_only StatusAccepted, r'), w')"
  by (rule Upload_accepts [where app = "''linux''"]) code_simp+

text \<open>The metrics see what happened, and their labels stay bounded: the reject reason is
  \<open>none\<close> exactly for accepted reports, and the path is recorded for allowed applications only.\<close>

theorem endpoint_labels_faithful:
  assumes "Upload_ServeHTTP (NewUpload cfg dir limit) reqID r w = ((resp, r'), w')"
    and "r_label_path r = None" "r_label_reject r = None"
  shows "endpoint_Wrap ''upload'' (Upload_ServeHTTP (NewUpload cfg dir limit) reqID) cs r w =
      ((resp, cs @ [(''upload'', r_method r', r_status resp, pathLabelFromCtx r', rejectReasonFromCtx r')]), w') \<and>
    (rejectReasonFromCtx r' = RejectReasonNone \<longleftrightarrow> r_status resp = StatusAccepted) \<and>
    (pathLabelFromCtx r' \<noteq> ''unknown'' \<longrightarrow> cfg (path_clean (PathValue r ''app'')))"
proof (cases "bad_segment (path_clean (PathValue r ''app''))")
  case True
  with assms show ?thesis
    by (auto simp: endpoint_Wrap_def endpoint_labels_def Upload_ServeHTTP_def reject_def http_Error_def
        ApplyRejectReason_def rejectReasonFromCtx_def pathLabelFromCtx_def reason_defs)
next
  case False
  have s: "serveHTTP (NewUpload cfg dir limit) reqID (path_clean (PathValue r ''app'')) r w = ((resp, r'), w')"
    using assms(1) False by (simp add: Upload_ServeHTTP_def)
  show ?thesis
    using serve_labels [OF s assms(2,3)] assms(1)
    by (auto simp: endpoint_Wrap_def endpoint_labels_def NewUpload_def rejected_status_def split: if_splits)
qed

theorem endpoint_labels_faithful_witness:
  "\<exists>resp r' w'. Upload_ServeHTTP (NewUpload (\<lambda>_. False) ''/srv'' 1024) example_uuid example_request
      example_server = ((resp, r'), w') \<and> rejectReasonFromCtx r' \<noteq> RejectReasonNone \<and>
    pathLabelFromCtx r' = ''unknown''"
proof -
  define run where "run = Upload_ServeHTTP (NewUpload (\<lambda>_. False) ''/srv'' 1024) example_uuid
    example_request example_server"
  obtain resp r' w' where run': "run = ((resp, r'), w')" by (metis surj_pair)
  have "r_status (fst (fst run)) = StatusForbidden" unfolding run_def by code_simp
  then have st: "r_status resp \<noteq> StatusAccepted" using run' by simp
  have l: "r_label_path example_request = None" "r_label_reject example_request = None" by code_simp+
  show ?thesis
    using endpoint_labels_faithful [OF run' [unfolded run_def] l] st run' run_def by auto
qed

end
