(* ===== verification/Webservice.thy ===== *)
theory Webservice
  imports Handlers
begin

text \<open>
  The package \<open>server/internal/webservice\<close>: routing of requests to the handlers, and the life of
  the server, whose two HTTP servers (reports and metrics) run side by side and stop each other.
  A request is an argument of the routing function. The life of the server is a step relation in
  which the two goroutines of \<open>Run\<close> and the callers of \<open>Quit\<close> take turns in any order.
\<close>

section \<open>Static configuration\<close>

record StaticConfig =
  sc_ReportsDir :: string
  sc_ReadTimeout :: int
  sc_WriteTimeout :: int
  sc_RequestTimeout :: int
  sc_MaxHeaderBytes :: int
  sc_MaxUploadBytes :: int
  sc_ListenHost :: string
  sc_ListenPort :: int
  sc_MetricsHost :: string
  sc_MetricsPort :: int

section \<open>Routing\<close>

text \<open>Patterns of \<open>http.ServeMux\<close>: literal segments and one-segment wildcards.\<close>

datatype segment = Lit string | Wild string

datatype endpoint = EpUpload | EpLegacy | EpVersion

definition routes :: "(string \<times> segment list \<times> endpoint) list" where
  "routes =
     [(''POST'', [Lit ''upload'', Wild ''app''], EpUpload),
      (''POST'', [Wild ''distribution'', Lit ''desktop'', Wild ''version''], EpLegacy),
      (''GET'', [Lit ''version''], EpVersion)]"

text \<open>The mux canonicalises the escaped path, keeping a trailing slash, and matches it segment by
  segment after unescaping each; a trailing slash is a segment of its own that no wildcard
  takes.\<close>

definition mux_clean_path :: "string \<Rightarrow> string" where
  "mux_clean_path p =
     (if p = [] then ''/''
      else let q = (if is_rooted p then p else slash # p); np = path_clean q in
        if last q = slash \<and> np \<noteq> ''/'' then np @ ''/'' else np)"

definition mux_unescape :: "string \<Rightarrow> string" where
  "mux_unescape s = (case unescape s of None \<Rightarrow> s | Some t \<Rightarrow> t)"

definition mux_segments :: "string \<Rightarrow> string list" where
  "mux_segments path =
     (let parts = split_on slash (tl path) in
      map mux_unescape (butlast parts) @ [if last parts = [] then ''/'' else mux_unescape (last parts)])"

fun match_segments :: "segment list \<Rightarrow> string list \<Rightarrow> (string \<times> string) list option" where
  "match_segments [] [] = Some []"
| "match_segments (Lit l # ps) (s # ss) = (if s = l then match_segments ps ss else None)"
| "match_segments (Wild n # ps) (s # ss) =
     (if s = ''/'' then None else map_option ((#) (n, s)) (match_segments ps ss))"
| "match_segments _ _ = None"

text \<open>A pattern for GET also takes HEAD.\<close>

definition method_matches :: "string \<Rightarrow> string \<Rightarrow> bool" where
  "method_matches pat m \<longleftrightarrow> m = pat \<or> (pat = ''GET'' \<and> m = ''HEAD'')"

fun find_route :: "(string \<times> segment list \<times> endpoint) list \<Rightarrow> string \<Rightarrow> string list
    \<Rightarrow> (endpoint \<times> (string \<times> string) list) option" where
  "find_route [] m segs = None"
| "find_route ((pm, pat, ep) # rs) m segs =
     (case match_segments pat segs of
        Some vs \<Rightarrow> if method_matches pm m then Some (ep, vs) else find_route rs m segs
      | None \<Rightarrow> find_route rs m segs)"

definition other_method :: "string list \<Rightarrow> bool" where
  "other_method segs = list_ex (\<lambda>(_, pat, _). match_segments pat segs \<noteq> None) routes"

abbreviation "StatusMovedPermanently \<equiv> 301 :: nat"
abbreviation "StatusNotFound \<equiv> 404 :: nat"
abbreviation "StatusServiceUnavailable \<equiv> 503 :: nat"

definition setupPrimaryMux :: "(string \<Rightarrow> bool) \<Rightarrow> StaticConfig \<Rightarrow> string \<Rightarrow> string \<Rightarrow> 'z handler" where
  "setupPrimaryMux cfg sc version reqID r w =
     (let path = (if r_method r = ''CONNECT'' then r_escaped_path r else mux_clean_path (r_escaped_path r));
          segs = mux_segments path in
      if path \<noteq> r_escaped_path r then ((header_only StatusMovedPermanently, r), w)
      else case find_route routes (r_method r) segs of
        None \<Rightarrow>
          if other_method segs then ((http_Error ''Method Not Allowed'' StatusMethodNotAllowed, r), w)
          else ((http_Error ''404 page not found'' StatusNotFound, r), w)
      | Some (ep, vs) \<Rightarrow>
          (let r = r\<lparr>r_path_values := vs\<rparr> in
           case ep of
             EpUpload \<Rightarrow> Upload_ServeHTTP (NewUpload cfg (sc_ReportsDir sc) (sc_MaxUploadBytes sc)) reqID r w
           | EpLegacy \<Rightarrow>
               LegacyReport_ServeHTTP (NewLegacyReport cfg (sc_ReportsDir sc) (sc_MaxUploadBytes sc)) reqID r w
           | EpVersion \<Rightarrow> VersionHandler version r w))"

text \<open>\<open>http.TimeoutHandler\<close>: when the time is up the client gets 503; the handler still runs to
  its end and its effects stay.\<close>

definition TimeoutHandler :: "bool \<Rightarrow> 'z handler \<Rightarrow> 'z handler" where
  "TimeoutHandler timed_out h r w =
     (case h r w of ((resp, r'), w') \<Rightarrow>
        ((if timed_out then http_Error ''Timeout'' StatusServiceUnavailable else resp, r'), w'))"

section \<open>The server\<close>

text \<open>The two contexts: cancelling \<open>ctx\<close> cancels its child \<open>gracefulCtx\<close> too.\<close>

record web_server =
  sv_cm :: conf_manager
  sv_conf :: StaticConfig
  sv_addr :: string
  sv_metrics_addr :: string
  ctx_cancelled :: bool
  graceful_cancelled :: bool
  http_closed :: bool
  metrics_closed :: bool

definition web_New :: "conf_manager \<Rightarrow> StaticConfig \<Rightarrow> ('z os_scheme, web_server) io" where
  "web_New cm sc w =
     (case Load cm w of
        ((Some _, _), w') \<Rightarrow> (Inl (Errorf ''failed to load configuration''), w')
      | ((None, cm'), w') \<Rightarrow>
          (Inr \<lparr>sv_cm = cm', sv_conf = sc,
                sv_addr = sc_ListenHost sc @ '':'' @ show_int (sc_ListenPort sc),
                sv_metrics_addr = sc_MetricsHost sc @ '':'' @ show_int (sc_MetricsPort sc),
                ctx_cancelled = False, graceful_cancelled = False,
                http_closed = False, metrics_closed = False\<rparr>, w'))"

definition graceful_done :: "web_server \<Rightarrow> bool" where
  "graceful_done s \<longleftrightarrow> graceful_cancelled s \<or> ctx_cancelled s"

definition web_Quit :: "bool \<Rightarrow> web_server \<Rightarrow> web_server" where
  "web_Quit force s =
     (let s1 = (if force then s\<lparr>http_closed := True, metrics_closed := True, ctx_cancelled := True\<rparr>
                else s\<lparr>graceful_cancelled := True\<rparr>) in
      s1\<lparr>ctx_cancelled := True\<rparr>)"

text \<open>\<open>http.Server.Shutdown(ctx)\<close> returns once no connection is busy, or with the error of the
  context when that is done first.\<close>

definition shutdown_result :: "bool \<Rightarrow> web_server \<Rightarrow> go_error option" where
  "shutdown_result busy s = (if busy \<and> ctx_cancelled s then Some (Sentinel ErrContextCanceled) else None)"

text \<open>What the select of the two serving functions receives.\<close>

datatype serve_event =
    GracefulDone bool
  | ServerErr "go_error option"
  | WatchErr "go_error option" "go_error option"

text \<open>Before serving: already asked to quit, or the watcher does not start. \<open>None\<close> means that the
  function goes on to its select.\<close>

definition servePrimary_start :: "go_error option \<Rightarrow> web_server \<Rightarrow> go_error option option \<times> web_server" where
  "servePrimary_start watch s =
     (if graceful_done s then (Some (Some (Sentinel ErrContextCanceled)), s)
      else case watch of
        Some _ \<Rightarrow> (Some (Some (Errorf ''failed to start watching configuration'')), s\<lparr>ctx_cancelled := True\<rparr>)
      | None \<Rightarrow> (None, s))"

definition servePrimary :: "serve_event \<Rightarrow> web_server \<Rightarrow> go_error option \<times> web_server" where
  "servePrimary ev s =
     (let (e, s') =
        (case ev of
           GracefulDone busy \<Rightarrow>
             (case shutdown_result busy s of
                Some _ \<Rightarrow> (Some (Errorf ''failed to gracefully shutdown server''), s\<lparr>http_closed := True\<rparr>)
              | None \<Rightarrow> (None, s\<lparr>http_closed := True\<rparr>))
         | ServerErr err \<Rightarrow>
             (map_option (\<lambda>_. Errorf ''primary HTTP server encountered an error'') err, s)
         | WatchErr err errC \<Rightarrow>
             (errors_join [map_option (\<lambda>_. Errorf ''config watcher encountered an unrecoverable error'') err, errC],
              s\<lparr>http_closed := True\<rparr>))
      in (e, s'\<lparr>ctx_cancelled := True\<rparr>))"

definition serveMetrics :: "serve_event \<Rightarrow> web_server \<Rightarrow> go_error option \<times> web_server" where
  "serveMetrics ev s =
     (let (e, s') =
        (case ev of
           GracefulDone busy \<Rightarrow>
             (case shutdown_result busy s of
                Some _ \<Rightarrow> (Some (Errorf ''failed to gracefully shutdown server''), s\<lparr>metrics_closed := True\<rparr>)
              | None \<Rightarrow> (None, s\<lparr>metrics_closed := True\<rparr>))
         | ServerErr err \<Rightarrow> (map_option (\<lambda>_. Errorf ''metrics server encountered an error'') err, s)
         | WatchErr _ _ \<Rightarrow> (None, s))
      in (e, s'\<lparr>ctx_cancelled := True\<rparr>))"

definition web_Run_result :: "go_error option \<Rightarrow> go_error option \<Rightarrow> go_error option" where
  "web_Run_result errPrimary errMetrics =
     errors_join [map_option (ErrorfW ''primary server error'') errPrimary,
                  map_option (ErrorfW ''metrics server error'') errMetrics]"

section \<open>Runs of the server\<close>

datatype phase = NotStarted | Serving | Returned "go_error option"

record web_run =
  run_srv :: web_server
  run_primary :: phase
  run_metrics :: phase

text \<open>
  Which events the selects can receive: the graceful context when it is done (and \<open>Shutdown\<close>
  then returns when idle or when \<open>ctx\<close> is done too), the end of the HTTP server, the end of the
  watcher. The metrics server has no watcher.
\<close>

definition event_ready :: "serve_event \<Rightarrow> web_server \<Rightarrow> bool" where
  "event_ready ev s \<longleftrightarrow>
     (case ev of GracefulDone busy \<Rightarrow> graceful_done s \<and> (busy \<longrightarrow> ctx_cancelled s) | _ \<Rightarrow> True)"

definition primary_steps :: "go_error option \<Rightarrow> web_run \<Rightarrow> web_run" where
  "primary_steps watch r =
     (case servePrimary_start watch (run_srv r) of
        (Some e, s) \<Rightarrow> r\<lparr>run_srv := s, run_primary := Returned e\<rparr>
      | (None, s) \<Rightarrow> r\<lparr>run_srv := s, run_primary := Serving\<rparr>)"

definition primary_returns :: "serve_event \<Rightarrow> web_run \<Rightarrow> web_run" where
  "primary_returns ev r =
     (case servePrimary ev (run_srv r) of (e, s) \<Rightarrow> r\<lparr>run_srv := s, run_primary := Returned e\<rparr>)"

definition metrics_returns :: "serve_event \<Rightarrow> web_run \<Rightarrow> web_run" where
  "metrics_returns ev r =
     (case serveMetrics ev (run_srv r) of (e, s) \<Rightarrow> r\<lparr>run_srv := s, run_metrics := Returned e\<rparr>)"

inductive web_work :: "web_run \<Rightarrow> web_run \<Rightarrow> bool" where
  start_primary: "run_primary r = NotStarted \<Longrightarrow> web_work r (primary_steps watch r)"
| stop_primary: "run_primary r = Serving \<Longrightarrow> event_ready ev (run_srv r) \<Longrightarrow> web_work r (primary_returns ev r)"
| start_metrics: "run_metrics r = NotStarted \<Longrightarrow> web_work r (r\<lparr>run_metrics := Serving\<rparr>)"
| stop_metrics: "run_metrics r = Serving \<Longrightarrow> event_ready ev (run_srv r) \<Longrightarrow>
    \<forall>e c. ev \<noteq> WatchErr e c \<Longrightarrow> web_work r (metrics_returns ev r)"

text \<open>The goroutines of \<open>Run\<close> and the callers of \<open>Quit\<close> take turns.\<close>

inductive web_step :: "web_run \<Rightarrow> web_run \<Rightarrow> bool" where
  serves: "web_work r r' \<Longrightarrow> web_step r r'"
| quit_begins: "web_step r (r\<lparr>run_srv := (run_srv r)\<lparr>graceful_cancelled := True\<rparr>\<rparr>)"
| quit: "web_step r (r\<lparr>run_srv := web_Quit force (run_srv r)\<rparr>)"

inductive web_reach :: "web_run \<Rightarrow> bool" where
  init: "\<not> ctx_cancelled s \<Longrightarrow> \<not> graceful_cancelled s \<Longrightarrow>
    web_reach \<lparr>run_srv = s, run_primary = NotStarted, run_metrics = NotStarted\<rparr>"
| step: "web_reach r \<Longrightarrow> web_step r r' \<Longrightarrow> web_reach r'"

inductive_cases web_step_cases: "web_step r r'"

inductive_cases web_work_cases: "web_work r r'"

lemmas serve_defs = primary_steps_def primary_returns_def metrics_returns_def servePrimary_start_def
  servePrimary_def serveMetrics_def graceful_done_def web_Quit_def Let_def

text \<open>A server that has returned has cancelled the contexts, or found them cancelled.\<close>

definition stop_inv :: "web_run \<Rightarrow> bool" where
  "stop_inv r \<longleftrightarrow>
     (\<forall>e. run_primary r = Returned e \<or> run_metrics r = Returned e \<longrightarrow> graceful_done (run_srv r))"

lemma stop_inv_work: "web_work r r' \<Longrightarrow> stop_inv r \<Longrightarrow> stop_inv r'"
  by (erule web_work_cases)
     (auto simp: stop_inv_def serve_defs split: option.splits serve_event.splits if_splits prod.splits)

lemma stop_inv_step: "web_step r r' \<Longrightarrow> stop_inv r \<Longrightarrow> stop_inv r'"
  by (erule web_step_cases) (auto simp: stop_inv_def serve_defs dest: stop_inv_work [unfolded stop_inv_def])

lemma web_reach_stop: "web_reach r \<Longrightarrow> stop_inv r"
proof (induction rule: web_reach.induct)
  case (step r r')
  then show ?case using stop_inv_step by blast
qed (simp add: stop_inv_def)

text \<open>Once the graceful context is done an idle server can stop.\<close>

lemma primary_can_stop:
  assumes "graceful_done (run_srv r)"
  shows "\<exists>r' e. web_work\<^sup>*\<^sup>* r r' \<and> run_primary r' = Returned e \<and> run_metrics r' = run_metrics r \<and>
    graceful_done (run_srv r')"
proof (cases "run_primary r")
  case NotStarted
  have "web_work r (primary_steps None r)" using NotStarted by (rule start_primary)
  moreover have "run_primary (primary_steps None r) = Returned (Some (Sentinel ErrContextCanceled))"
    "run_metrics (primary_steps None r) = run_metrics r" "graceful_done (run_srv (primary_steps None r))"
    using assms by (simp_all add: primary_steps_def servePrimary_start_def)
  ultimately show ?thesis by blast
next
  case Serving
  let ?r = "primary_returns (GracefulDone False) r"
  have "event_ready (GracefulDone False) (run_srv r)" using assms by (simp add: event_ready_def)
  then have "web_work r ?r" using Serving by (intro stop_primary)
  moreover have "run_primary ?r = Returned None" "run_metrics ?r = run_metrics r" "graceful_done (run_srv ?r)"
    by (simp_all add: serve_defs shutdown_result_def)
  ultimately show ?thesis by blast
next
  case (Returned e)
  then show ?thesis using assms by blast
qed

lemma metrics_serving_can_stop:
  assumes "graceful_done (run_srv r)" "run_metrics r = Serving"
  shows "\<exists>r' e. web_work r r' \<and> run_metrics r' = Returned e \<and> run_primary r' = run_primary r"
proof -
  let ?r = "metrics_returns (GracefulDone False) r"
  have "event_ready (GracefulDone False) (run_srv r)" using assms by (simp add: event_ready_def)
  then have "web_work r ?r" using assms by (intro stop_metrics) auto
  moreover have "run_metrics ?r = Returned None" "run_primary ?r = run_primary r"
    by (simp_all add: serve_defs shutdown_result_def)
  ultimately show ?thesis by blast
qed

lemma metrics_can_stop:
  assumes "graceful_done (run_srv r)"
  shows "\<exists>r' e. web_work\<^sup>*\<^sup>* r r' \<and> run_metrics r' = Returned e \<and> run_primary r' = run_primary r"
proof (cases "run_metrics r")
  case NotStarted
  let ?r = "r\<lparr>run_metrics := Serving\<rparr>"
  have "web_work r ?r" using NotStarted by (rule start_metrics)
  then show ?thesis
    using metrics_serving_can_stop [of ?r] assms
    by (metis (no_types, lifting) converse_rtranclp_into_rtranclp r_into_rtranclp web_run.select_convs(1,3)
        web_run.surjective web_run.update_convs(3) web_run.select_convs(2))
next
  case Serving
  then show ?thesis using metrics_serving_can_stop [OF assms] by blast
next
  case (Returned e)
  then show ?thesis by blast
qed

text \<open>Both servers, one after the other.\<close>

lemma servers_can_stop:
  assumes "graceful_done (run_srv r)"
  shows "\<exists>r' e1 e2. web_work\<^sup>*\<^sup>* r r' \<and> run_primary r' = Returned e1 \<and> run_metrics r' = Returned e2"
proof -
  obtain r1 e1 where r1: "web_work\<^sup>*\<^sup>* r r1" "run_primary r1 = Returned e1" "graceful_done (run_srv r1)"
    using primary_can_stop [OF assms] by blast
  then obtain r2 e2 where "web_work\<^sup>*\<^sup>* r1 r2" "run_metrics r2 = Returned e2" "run_primary r2 = run_primary r1"
    using metrics_can_stop by blast
  with r1 show ?thesis by (metis rtranclp_trans)
qed

lemma web_work_steps: "web_work\<^sup>*\<^sup>* r r' \<Longrightarrow> web_step\<^sup>*\<^sup>* r r'"
  by (rule mono_rtranclp [rule_format, of web_work web_step]) (auto intro: serves)

section \<open>Facts about routing\<close>

lemma setupPrimaryMux_cases:
  assumes "setupPrimaryMux cfg sc version reqID r w = ((resp, r'), w')"
  obtains "w' = w" "r_status resp \<in> {StatusMovedPermanently, StatusNotFound, StatusMethodNotAllowed, StatusOK}"
  | vs where "r_method r = ''POST''" "find_route routes (r_method r) (mux_segments (r_escaped_path r)) = Some (EpUpload, vs)"
      "Upload_ServeHTTP (NewUpload cfg (sc_ReportsDir sc) (sc_MaxUploadBytes sc)) reqID
         (r\<lparr>r_path_values := vs\<rparr>) w = ((resp, r'), w')"
  | vs where "r_method r = ''POST''" "find_route routes (r_method r) (mux_segments (r_escaped_path r)) = Some (EpLegacy, vs)"
      "LegacyReport_ServeHTTP (NewLegacyReport cfg (sc_ReportsDir sc) (sc_MaxUploadBytes sc)) reqID
         (r\<lparr>r_path_values := vs\<rparr>) w = ((resp, r'), w')"
proof -
  have m: "find_route routes m segs = Some (ep, vs) \<Longrightarrow> ep \<noteq> EpVersion \<Longrightarrow> m = ''POST''" for m segs ep vs
    by (auto simp: routes_def method_matches_def split: option.splits if_splits)
  have v: "VersionHandler version q w = ((resp, r'), w') \<Longrightarrow> w' = w \<and> r_status resp \<in> {StatusOK, StatusMethodNotAllowed}"
    for q
    by (auto simp: VersionHandler_def reject_def http_Error_def Let_def split: if_splits)
  let ?p = "if r_method r = ''CONNECT'' then r_escaped_path r else mux_clean_path (r_escaped_path r)"
  show ?thesis
  proof (cases "?p = r_escaped_path r")
    case False
    then have "setupPrimaryMux cfg sc version reqID r w = ((header_only StatusMovedPermanently, r), w)"
      unfolding setupPrimaryMux_def Let_def by (rule if_P)
    with assms show ?thesis by (intro that(1)) (auto simp: header_only_def)
  next
    case True
    note eq = setupPrimaryMux_def [of cfg sc version reqID r w, unfolded Let_def True]
    show ?thesis
    proof (cases "find_route routes (r_method r) (mux_segments (r_escaped_path r))")
      case None
      with assms show ?thesis by (intro that(1)) (auto simp: eq http_Error_def split: if_splits)
    next
      case (Some a)
      obtain ep vs where "a = (ep, vs)" by fastforce
      with assms Some that m v [of "r\<lparr>r_path_values := vs\<rparr>"] show ?thesis by (cases ep) (auto simp: eq)
    qed
  qed
qed

section \<open>A concrete instance\<close>

definition example_static :: StaticConfig where
  "example_static =
     \<lparr>sc_ReportsDir = ''/srv'', sc_ReadTimeout = 5, sc_WriteTimeout = 10, sc_RequestTimeout = 3,
      sc_MaxHeaderBytes = 8192, sc_MaxUploadBytes = 1024, sc_ListenHost = [], sc_ListenPort = 8080,
      sc_MetricsHost = [], sc_MetricsPort = 2112\<rparr>"

definition example_web_server :: web_server where
  "example_web_server =
     \<lparr>sv_cm = config_New ''conf.json'', sv_conf = example_static, sv_addr = '':8080'',
      sv_metrics_addr = '':2112'', ctx_cancelled = False, graceful_cancelled = False,
      http_closed = False, metrics_closed = False\<rparr>"

section \<open>Properties\<close>

text \<open>C17: whatever request reaches the primary mux, and whatever system call fails, the only files
  whose content changes lie below the reports directory, and they change only for a POST; this
  holds also when the client has already been told that the time is up.\<close>

theorem primary_mux_contained:
  assumes "TimeoutHandler late (setupPrimaryMux cfg sc version reqID) r w = ((resp, r'), w')"
    and "uuid_form reqID" "sc_ReportsDir sc \<noteq> []"
    and "file_content (fs w') q \<noteq> file_content (fs w) q"
  shows "r_method r = ''POST'' \<and> q \<in> below (resolve (sc_ReportsDir sc))"
proof -
  obtain resp1 where m: "setupPrimaryMux cfg sc version reqID r w = ((resp1, r'), w')"
    using assms(1) by (auto simp: TimeoutHandler_def split: prod.splits)
  then show ?thesis
  proof (cases rule: setupPrimaryMux_cases)
    case (2 vs)
    have "q \<in> below (resolve (sc_ReportsDir sc))"
      using Upload_contained [OF 2(3) assms(2), of q] assms(3,4) by (auto simp: NewUpload_def)
    with 2 show ?thesis by simp
  next
    case (3 vs)
    have "q \<in> below (resolve (sc_ReportsDir sc))"
      using LegacyReport_contained [OF 3(3) assms(2), of q] assms(3,4) by (auto simp: NewLegacyReport_def)
    with 3 show ?thesis by simp
  qed (use assms(4) in simp)
qed

theorem primary_mux_contained_witness:
  "let w' = snd (TimeoutHandler True (setupPrimaryMux (\<lambda>a. a = ''linux'') example_static ''1'' example_uuid)
       example_request example_server);
     q = [''/'', ''srv'', ''linux'', example_uuid @ ''.json''] in
   file_content (fs w') q = Some ''{}'' \<and> q \<in> below [''/'', ''srv'']"
proof -
  define run where "run = TimeoutHandler True (setupPrimaryMux (\<lambda>a. a = ''linux'') example_static ''1'' example_uuid)
       example_request example_server"
  let ?q = "[''/'', ''srv'', ''linux'', example_uuid @ ''.json'']"
  obtain resp r' w' where run': "run = ((resp, r'), w')" by (metis surj_pair)
  have "file_content (fs (snd run)) ?q = Some ''{}''" unfolding run_def by code_simp
  then have c: "file_content (fs w') ?q = Some ''{}''" using run' by simp
  have h: "uuid_form example_uuid" "sc_ReportsDir example_static \<noteq> []"
    "file_content (fs example_server) ?q = None" "resolve (sc_ReportsDir example_static) = [''/'', ''srv'']"
    by code_simp+
  have "?q \<in> below [''/'', ''srv'']"
    using primary_mux_contained [OF run' [unfolded run_def] h(1,2), of ?q] c h(3,4) by simp
  with c show ?thesis using run' by (simp add: Let_def run_def)
qed



text \<open>A graceful quit is not graceful for a busy server: \<open>Quit\<close> cancels the outer context on its
  way out, so \<open>Shutdown\<close> gives up at once and reports an error.\<close>

lemma graceful_quit_aborts:
  "fst (servePrimary (GracefulDone True) (web_Quit False s)) =
     Some (Errorf ''failed to gracefully shutdown server'')"
  by (simp add: servePrimary_def web_Quit_def shutdown_result_def Let_def)

end
