(* ===== verification/Database.thy ===== *)
theory Database
  imports Os_Frames Go_Url
begin

text \<open>
  The packages \<open>ingest/models\<close> and \<open>ingest/database\<close>: the reports the ingest service stores and the
  statements that store them. The state of the ingest service extends the operating system by
  the rows in the database, the outcomes of the coming \<open>Exec\<close> calls, the clock, the identifiers
  the \<open>uuid\<close> package will draw, the cancellation of the context, and the metrics. Quoting an
  identifier is done by \<open>pgx\<close> and is the argument \<open>sanitize\<close>.
\<close>

section \<open>Models\<close>

text \<open>A nil \<open>json.RawMessage\<close> or map is \<open>None\<close>.\<close>

record TargetSystemInfo =
  ts_Hardware :: "string option"
  ts_Software :: "string option"
  ts_Platform :: "string option"
  ts_Extras :: "(string \<times> json) list option"

record TargetModel =
  tm_InsightsVersion :: string
  tm_CollectionTime :: int
  tm_SystemInfo :: TargetSystemInfo
  tm_SourceMetrics :: "string option"
  tm_OptOut :: bool
  tm_Extras :: "(string \<times> json) list option"

record LegacyTargetModel =
  lm_OptOut :: bool
  lm_Fields :: "(string \<times> json) list option"

section \<open>The state of the ingest service\<close>

datatype db_value =
    DbText string
  | DbTime int
  | DbBool bool
  | DbJson "string option"
  | DbLegacy LegacyTargetModel

record db_row =
  row_table :: string
  row_cols :: "(string \<times> db_value) list"

text \<open>A statement can succeed, fail, or be carried out although its outcome is lost.\<close>

datatype exec_outcome = ExecOk | ExecErr go_error | ExecLost go_error

datatype metric_event =
    FilesProcessed string string
  | CacheGauge string nat
  | CacheSizeGauge string nat
  | ProcessErrors string

record ingest = os +
  db_rows :: "db_row list"
  exec_results :: "exec_outcome list"
  db_now :: int
  uuids :: "string list"
  cancel_after :: "nat option"
  metric_log :: "metric_event list"

record db_manager =
  dbpool_open :: bool

record db_config =
  db_Host :: string
  db_Port :: int
  db_User :: string
  db_Password :: string
  db_DBName :: string
  db_SSLMode :: string

section \<open>Statements\<close>

definition dbpool_Exec :: "string \<Rightarrow> (string \<times> db_value) list \<Rightarrow> (ingest, unit) io" where
  "dbpool_Exec table cols = (\<lambda>w.
     let row = \<lparr>row_table = table, row_cols = cols\<rparr>;
         w' = w\<lparr>exec_results := tl (exec_results w)\<rparr> in
     case (case exec_results w of [] \<Rightarrow> ExecOk | x # _ \<Rightarrow> x) of
       ExecOk \<Rightarrow> (Inr (), w'\<lparr>db_rows := db_rows w @ [row]\<rparr>)
     | ExecErr e \<Rightarrow> (Inl e, w')
     | ExecLost e \<Rightarrow> (Inl e, w'\<lparr>db_rows := db_rows w @ [row]\<rparr>))"

definition db_upload ::
    "(string \<Rightarrow> string) \<Rightarrow> db_manager \<Rightarrow> string \<Rightarrow> (string \<Rightarrow> (ingest, unit) io) \<Rightarrow> (ingest, unit) io" where
  "db_upload sanitize db table execFn =
     (if \<not> dbpool_open db then throw (Errorf ''database not initialized'')
      else attempt (execFn (sanitize table)) (\<lambda>res.
        case res of
          Inl err \<Rightarrow>
            if errors_is err ErrContextCanceled then throw (Errorf ''upload canceled'')
            else throw (Errorf ''failed to upload data'')
        | Inr _ \<Rightarrow> ret ()))"

definition db_Upload ::
    "(string \<Rightarrow> string) \<Rightarrow> db_manager \<Rightarrow> string \<Rightarrow> string \<Rightarrow> TargetModel \<Rightarrow> (ingest, unit) io" where
  "db_Upload sanitize db rid app report =
     db_upload sanitize db app (\<lambda>table w.
       if tm_OptOut report then
         dbpool_Exec table
           [(''report_id'', DbText rid), (''entry_time'', DbTime (db_now w)),
            (''optout'', DbBool (tm_OptOut report))] w
       else
         dbpool_Exec table
           [(''report_id'', DbText rid), (''entry_time'', DbTime (db_now w)),
            (''insights_version'', DbText (tm_InsightsVersion report)),
            (''collection_time'', DbTime (tm_CollectionTime report)),
            (''hardware'', DbJson (ts_Hardware (tm_SystemInfo report))),
            (''software'', DbJson (ts_Software (tm_SystemInfo report))),
            (''platform'', DbJson (ts_Platform (tm_SystemInfo report))),
            (''source_metrics'', DbJson (tm_SourceMetrics report)),
            (''optout'', DbBool (tm_OptOut report))] w)"

definition UploadLegacy ::
    "(string \<Rightarrow> string) \<Rightarrow> db_manager \<Rightarrow> string \<Rightarrow> string \<Rightarrow> string \<Rightarrow> LegacyTargetModel \<Rightarrow> (ingest, unit) io" where
  "UploadLegacy sanitize db rid distribution version report =
     db_upload sanitize db ''ubuntu_report'' (\<lambda>table w.
       if lm_OptOut report then
         dbpool_Exec table
           [(''report_id'', DbText rid), (''entry_time'', DbTime (db_now w)),
            (''distribution'', DbText distribution), (''version'', DbText version),
            (''optout'', DbBool (lm_OptOut report))] w
       else
         dbpool_Exec table
           [(''report_id'', DbText rid), (''entry_time'', DbTime (db_now w)),
            (''distribution'', DbText distribution), (''version'', DbText version),
            (''report'', DbLegacy report), (''optout'', DbBool (lm_OptOut report))] w)"

definition UploadInvalid ::
    "(string \<Rightarrow> string) \<Rightarrow> db_manager \<Rightarrow> string \<Rightarrow> string \<Rightarrow> string \<Rightarrow> (ingest, unit) io" where
  "UploadInvalid sanitize db rid app rawReport =
     db_upload sanitize db ''invalid_reports'' (\<lambda>table w.
       dbpool_Exec table
         [(''report_id'', DbText rid), (''entry_time'', DbTime (db_now w)), (''app_name'', DbText app),
          (''raw_report'', DbText rawReport)] w)"

section \<open>Opening and closing\<close>

definition db_New :: "(string \<Rightarrow> go_error option) \<Rightarrow> go_error option \<Rightarrow> string \<Rightarrow> go_error + db_manager" where
  "db_New newPool ping uri =
     (case newPool uri of
        Some e \<Rightarrow> Inl (ErrorfW ''unable to create database connection pool'' e)
      | None \<Rightarrow>
         (case ping of
            Some _ \<Rightarrow> Inl (Errorf ''unable to ping database'')
          | None \<Rightarrow> Inr \<lparr>dbpool_open = True\<rparr>))"

text \<open>\<open>in_time\<close>: the pool closes before the ten seconds are over.\<close>

definition db_Close :: "bool \<Rightarrow> db_manager \<Rightarrow> go_error option \<times> db_manager" where
  "db_Close in_time db =
     (if \<not> dbpool_open db then (None, db)
      else if in_time then (None, db\<lparr>dbpool_open := False\<rparr>)
      else (Some (Errorf ''timeout while closing database, connection may still be open''), db))"

text \<open>Escaping of \<open>net/url\<close> for user information, hosts and query values.\<close>

definition escape_with :: "(char \<Rightarrow> bool) \<Rightarrow> string \<Rightarrow> string" where
  "escape_with safe s = concat (map (\<lambda>c. if safe c then [c]
     else let n = of_char c :: nat in [CHR ''%'', upper_hex (n div 16), upper_hex (n mod 16)]) s)"

definition unreserved :: "char \<Rightarrow> bool" where
  "unreserved c \<longleftrightarrow> is_letter c \<or> is_digit c \<or> c \<in> set ''-_.~''"

definition user_safe :: "char \<Rightarrow> bool" where
  "user_safe c \<longleftrightarrow> unreserved c \<or> c \<in> set ''$&+,;=''"

definition host_safe :: "char \<Rightarrow> bool" where
  "host_safe c \<longleftrightarrow> unreserved c \<or> c \<in> set (''!$&()*+,;=:[]<>'' @ [CHR 0x22, CHR 0x27])"

definition query_escape :: "string \<Rightarrow> string" where
  "query_escape s = concat (map (\<lambda>c. if c = CHR '' '' then ''+'' else escape_with unreserved [c]) s)"

definition db_userinfo :: "db_config \<Rightarrow> string" where
  "db_userinfo c =
     escape_with user_safe (db_User c) @
     (if db_Password c \<noteq> [] then '':'' @ escape_with user_safe (db_Password c) else [])"

definition db_URI :: "db_config \<Rightarrow> string \<Rightarrow> string" where
  "db_URI c scheme =
     (let host = (if db_Port c \<noteq> 0 then db_Host c @ '':'' @ show_int (db_Port c) else db_Host c);
          path = (if db_DBName c = ''*'' then ''*'' else escape_path (db_DBName c)) in
      (if scheme \<noteq> [] then scheme @ '':'' else []) @ ''//'' @ db_userinfo c @ ''@'' @ escape_with host_safe host @
      (if path \<noteq> [] \<and> \<not> is_rooted path \<and> host \<noteq> [] then ''/'' else []) @ path @
      (if db_SSLMode c \<noteq> [] then ''?sslmode='' @ query_escape (db_SSLMode c) else []))"

section \<open>Facts\<close>

text \<open>A statement adds at most its own row, and certainly when it reports success; it touches
  nothing but the database.\<close>

definition stores :: "db_row \<Rightarrow> ingest \<Rightarrow> go_error + unit \<Rightarrow> ingest \<Rightarrow> bool" where
  "stores row w r w' \<longleftrightarrow>
     (\<exists>er. r \<noteq> Inr () \<and> w' = w\<lparr>exec_results := er\<rparr> \<or>
       w' = w\<lparr>exec_results := er, db_rows := db_rows w @ [row]\<rparr>)"

lemma stores_fs: "stores row w r w' \<Longrightarrow> fs w' = fs w \<and> faults w' = faults w"
  by (auto simp: stores_def)

lemma Exec_stores: "dbpool_Exec table cols w = (r, w') \<Longrightarrow> stores \<lparr>row_table = table, row_cols = cols\<rparr> w r w'"
  by (cases "exec_results w"; cases "hd (exec_results w)")
     (auto simp: dbpool_Exec_def stores_def Let_def
       intro!: exI [of _ "tl (exec_results w)"] split: exec_outcome.splits)

lemma upload_stores:
  assumes "db_upload sanitize db table f w = (r, w')"
    and "\<And>r1 w1. f (sanitize table) w = (r1, w1) \<Longrightarrow> stores row w r1 w1"
  shows "stores row w r w'"
proof (cases "dbpool_open db")
  case False
  with assms(1) show ?thesis
    by (auto simp: db_upload_def stores_def intro: exI [of _ "exec_results w"])
next
  case True
  obtain r1 w1 where f: "f (sanitize table) w = (r1, w1)" by fastforce
  with assms(2) have s: "stores row w r1 w1" by simp
  from assms(1) True f have "w' = w1 \<and> (r = Inr () \<longleftrightarrow> r1 = Inr ())"
    by (auto simp: db_upload_def attempt_def split: sum.splits if_splits)
  with s show ?thesis by (auto simp: stores_def)
qed

definition report_cols :: "string \<Rightarrow> int \<Rightarrow> TargetModel \<Rightarrow> (string \<times> db_value) list" where
  "report_cols rid now report =
     [(''report_id'', DbText rid), (''entry_time'', DbTime now)] @
     (if tm_OptOut report then [] else
        [(''insights_version'', DbText (tm_InsightsVersion report)),
         (''collection_time'', DbTime (tm_CollectionTime report)),
         (''hardware'', DbJson (ts_Hardware (tm_SystemInfo report))),
         (''software'', DbJson (ts_Software (tm_SystemInfo report))),
         (''platform'', DbJson (ts_Platform (tm_SystemInfo report))),
         (''source_metrics'', DbJson (tm_SourceMetrics report))]) @
     [(''optout'', DbBool (tm_OptOut report))]"

definition legacy_cols :: "string \<Rightarrow> int \<Rightarrow> string \<Rightarrow> string \<Rightarrow> LegacyTargetModel \<Rightarrow> (string \<times> db_value) list" where
  "legacy_cols rid now distribution version report =
     [(''report_id'', DbText rid), (''entry_time'', DbTime now),
      (''distribution'', DbText distribution), (''version'', DbText version)] @
     (if lm_OptOut report then [] else [(''report'', DbLegacy report)]) @
     [(''optout'', DbBool (lm_OptOut report))]"

lemma db_Upload_stores:
  "db_Upload sanitize db rid app report w = (r, w') \<Longrightarrow>
   stores \<lparr>row_table = sanitize app, row_cols = report_cols rid (db_now w) report\<rparr> w r w'"
  unfolding db_Upload_def
  by (erule upload_stores) (auto simp: report_cols_def dest!: Exec_stores split: if_splits)

lemma UploadLegacy_stores:
  "UploadLegacy sanitize db rid d v report w = (r, w') \<Longrightarrow>
   stores \<lparr>row_table = sanitize ''ubuntu_report'', row_cols = legacy_cols rid (db_now w) d v report\<rparr> w r w'"
  unfolding UploadLegacy_def
  by (erule upload_stores) (auto simp: legacy_cols_def dest!: Exec_stores split: if_splits)

lemma UploadInvalid_stores:
  "UploadInvalid sanitize db rid app raw w = (r, w') \<Longrightarrow>
   stores \<lparr>row_table = sanitize ''invalid_reports'', row_cols = [(''report_id'', DbText rid),
      (''entry_time'', DbTime (db_now w)), (''app_name'', DbText app), (''raw_report'', DbText raw)]\<rparr> w r w'"
  unfolding UploadInvalid_def by (erule upload_stores) (auto dest!: Exec_stores)

lemma upload_error:
  "db_upload sanitize db table f w = (Inl e, w') \<Longrightarrow>
   e = Errorf ''database not initialized'' \<or> e = Errorf ''upload canceled'' \<or> e = Errorf ''failed to upload data''"
  by (auto simp: db_upload_def attempt_def split: if_splits sum.splits prod.splits)

section \<open>Escaped credentials\<close>

lemma char_div_16: "(of_char c :: nat) div 16 < 16"
proof -
  have "(of_char c :: nat) = of_char c mod 256" by simp
  also have "\<dots> < 16 * 16" by simp
  finally show ?thesis by (rule less_mult_imp_div_less)
qed

lemma hex_val_upper: "n < 16 \<Longrightarrow> hex_val (upper_hex n) = Some n"
  by (auto simp: upper_hex_def hex_val_def)

lemma unescape_escape_with:
  assumes "\<not> safe (CHR ''%'')"
  shows "unescape (escape_with safe s) = Some s"
proof (induction s)
  case (Cons c s)
  show ?case
  proof (cases "safe c")
    case True
    then have "c \<noteq> CHR ''%''" using assms by auto
    with True Cons show ?thesis by (simp add: escape_with_def)
  next
    case False
    have "(of_char c :: nat) div 16 < 16" by (rule char_div_16)
    moreover have "16 * ((of_char c :: nat) div 16) + of_char c mod 16 = of_char c" by simp
    ultimately show ?thesis using False Cons
      by (simp add: escape_with_def Let_def hex_val_upper)
  qed
qed (simp add: escape_with_def)

lemma upper_hex_char: "n < 16 \<Longrightarrow> is_letter (upper_hex n) \<or> is_digit (upper_hex n)"
  by (auto simp: upper_hex_def is_letter_def is_digit_def Let_def)

lemma escape_with_chars:
  assumes "c \<in> set (escape_with safe s)"
  shows "safe c \<or> is_letter c \<or> is_digit c \<or> c = CHR ''%''"
proof -
  obtain x where x: "x \<in> set s" "c \<in> set (if safe x then [x]
     else let n = of_char x :: nat in [CHR ''%'', upper_hex (n div 16), upper_hex (n mod 16)])"
    using assms by (auto simp: escape_with_def)
  have "(of_char x :: nat) div 16 < 16" by (rule char_div_16)
  then show ?thesis
    using x(2) upper_hex_char [of "of_char x div 16"] upper_hex_char [of "of_char x mod 16"]
    by (auto simp: Let_def split: if_splits)
qed

lemma escape_with_absent:
  "\<not> safe c \<Longrightarrow> \<not> is_letter c \<Longrightarrow> \<not> is_digit c \<Longrightarrow> c \<noteq> CHR ''%'' \<Longrightarrow> c \<notin> set (escape_with safe s)"
  using escape_with_chars by blast

lemma user_unsafe:
  "CHR ''@'' \<notin> set (escape_with user_safe s)" "CHR '':'' \<notin> set (escape_with user_safe s)"
  "CHR ''/'' \<notin> set (escape_with user_safe s)"
  by (rule escape_with_absent; simp add: user_safe_def unreserved_def is_letter_def is_digit_def)+

section \<open>A concrete instance\<close>

definition quote_ident :: "string \<Rightarrow> string" where
  "quote_ident s = [CHR 0x22] @ concat (map (\<lambda>c. if c = CHR 0x22 then [c, c] else [c]) s) @ [CHR 0x22]"

definition example_ingest :: ingest where
  "example_ingest =
     \<lparr>fs = [([''r''], DirN 493)], faults = [], seed = 0, db_rows = [], exec_results = [], db_now = 7,
      uuids = [], cancel_after = None, metric_log = []\<rparr>"

definition no_info :: TargetSystemInfo where
  "no_info = \<lparr>ts_Hardware = None, ts_Software = None, ts_Platform = None, ts_Extras = None\<rparr>"

definition example_optout :: TargetModel where
  "example_optout =
     \<lparr>tm_InsightsVersion = ''1.0'', tm_CollectionTime = 5, tm_SystemInfo = no_info\<lparr>ts_Hardware := Some ''{}''\<rparr>,
      tm_SourceMetrics = None, tm_OptOut = True, tm_Extras = None\<rparr>"

definition example_legacy_optout :: LegacyTargetModel where
  "example_legacy_optout = \<lparr>lm_OptOut = True, lm_Fields = Some [(''k'', JNull)]\<rparr>"

definition example_db_config :: db_config where
  "example_db_config =
     \<lparr>db_Host = ''db'', db_Port = 0, db_User = ''us@er'', db_Password = ''p:/w'', db_DBName = ''insights'',
      db_SSLMode = ''require''\<rparr>"

section \<open>Properties\<close>

text \<open>C23: an upload adds at most one row, and one whenever it reports success, to the quoted table
  of the application (or of old-style reports) and under the report's identifier. A report that
  opts out leaves no trace of its content: its row holds the identifier, the time of entry, for
  old-style reports the distribution and version, and the flag, and nothing else.\<close>

theorem Upload_rows:
  assumes "db_Upload sanitize db rid app report w = (r, w')"
    and "UploadLegacy sanitize db rid d v legacy w2 = (r2, w2')"
  shows "(\<exists>rows. db_rows w' = db_rows w @ rows \<and> length rows \<le> 1 \<and> (r = Inr () \<longrightarrow> rows \<noteq> []) \<and>
      (\<forall>row\<in>set rows. row_table row = sanitize app \<and> map_of (row_cols row) ''report_id'' = Some (DbText rid) \<and>
        (tm_OptOut report \<longrightarrow> row_cols row =
          [(''report_id'', DbText rid), (''entry_time'', DbTime (db_now w)), (''optout'', DbBool True)]))) \<and>
    (\<exists>rows. db_rows w2' = db_rows w2 @ rows \<and> length rows \<le> 1 \<and> (r2 = Inr () \<longrightarrow> rows \<noteq> []) \<and>
      (\<forall>row\<in>set rows. row_table row = sanitize ''ubuntu_report'' \<and>
        map_of (row_cols row) ''report_id'' = Some (DbText rid) \<and>
        (lm_OptOut legacy \<longrightarrow> row_cols row =
          [(''report_id'', DbText rid), (''entry_time'', DbTime (db_now w2)), (''distribution'', DbText d),
           (''version'', DbText v), (''optout'', DbBool True)])))"
proof -
  have one: "\<exists>rows. db_rows y = db_rows x @ rows \<and> length rows \<le> 1 \<and> (q = Inr () \<longrightarrow> rows \<noteq> []) \<and>
      (\<forall>a\<in>set rows. a = row)" if st: "stores row x q y" for row q x y
    using st unfolding stores_def
    by (elim exE disjE) (auto intro: exI [of _ "[]"] exI [of _ "[row]"])
  show ?thesis
    using one [OF db_Upload_stores [OF assms(1)]] one [OF UploadLegacy_stores [OF assms(2)]]
    by (fastforce simp: report_cols_def legacy_cols_def)
qed

theorem Upload_rows_witness:
  "\<exists>w' w2'. db_Upload quote_ident \<lparr>dbpool_open = True\<rparr> ''id'' ''linux'' example_optout example_ingest = (Inr (), w') \<and>
    UploadLegacy quote_ident \<lparr>dbpool_open = True\<rparr> ''id'' ''ubuntu'' ''24.04'' example_legacy_optout example_ingest
      = (Inr (), w2') \<and>
    length (db_rows w') = 1 \<and> length (db_rows w2') = 1 \<and>
    row_cols (hd (db_rows w')) = [(''report_id'', DbText ''id''), (''entry_time'', DbTime 7), (''optout'', DbBool True)]"
proof -
  define a where "a = db_Upload quote_ident \<lparr>dbpool_open = True\<rparr> ''id'' ''linux'' example_optout example_ingest"
  define b where "b = UploadLegacy quote_ident \<lparr>dbpool_open = True\<rparr> ''id'' ''ubuntu'' ''24.04''
    example_legacy_optout example_ingest"
  have ab: "fst a = Inr ()" "fst b = Inr ()" unfolding a_def b_def by code_simp+
  then have a: "a = (Inr (), snd a)" and b: "b = (Inr (), snd b)" by (metis prod.collapse)+
  have e: "db_rows example_ingest = []" "tm_OptOut example_optout" "db_now example_ingest = 7" by code_simp+
  obtain rows rows2 where "db_rows (snd a) = rows" "length rows \<le> 1" "rows \<noteq> []"
    "\<forall>row\<in>set rows. row_cols row = [(''report_id'', DbText ''id''), (''entry_time'', DbTime 7), (''optout'', DbBool True)]"
    "db_rows (snd b) = rows2" "length rows2 \<le> 1" "rows2 \<noteq> []"
    using Upload_rows [OF a [unfolded a_def] b [unfolded b_def]] e unfolding a_def b_def by auto
  then show ?thesis
    using a b unfolding a_def [symmetric] b_def [symmetric]
    by (intro exI [of _ "snd a"] exI [of _ "snd b"], cases rows; cases rows2) auto
qed

text \<open>Credentials survive the connection string. The user information ends at the first at
  sign, and what stands in it before and after its colon unescapes to the user and the
  password, whatever bytes these contain.\<close>

theorem URI_credentials_roundtrip:
  assumes "scheme \<noteq> []"
  shows "let ui = takeWhile (\<lambda>c. c \<noteq> CHR ''@'') (drop (length scheme + 3) (db_URI c scheme));
      (u, p, found) = cut_at (CHR '':'') ui in
    unescape u = Some (db_User c) \<and> unescape p = Some (db_Password c) \<and>
    (found \<longleftrightarrow> db_Password c \<noteq> [])"
proof -
  have pc: "\<not> user_safe (CHR ''%'')" by (simp add: user_safe_def unreserved_def is_letter_def is_digit_def)
  have at: "CHR ''@'' \<notin> set (db_userinfo c)" by (simp add: db_userinfo_def user_unsafe)
  obtain rest where "db_URI c scheme = (scheme @ '':'' @ ''//'') @ db_userinfo c @ CHR ''@'' # rest"
    using assms by (simp add: db_URI_def Let_def)
  then have "drop (length scheme + 3) (db_URI c scheme) = db_userinfo c @ CHR ''@'' # rest" by simp
  then have ui: "takeWhile (\<lambda>c. c \<noteq> CHR ''@'') (drop (length scheme + 3) (db_URI c scheme)) = db_userinfo c"
    using takeWhile_until [OF at] by simp
  show ?thesis
    unfolding ui Let_def
    using unescape_escape_with [of user_safe, OF pc] cut_at_sep [OF user_unsafe(2)] cut_at_none [OF user_unsafe(2)]
    by (simp add: db_userinfo_def)
qed

theorem URI_credentials_roundtrip_witness:
  "db_URI example_db_config ''postgres'' = ''postgres://us%40er:p%3A%2Fw@db/insights?sslmode=require'' \<and>
   unescape ''us%40er'' = Some ''us@er'' \<and> unescape ''p%3A%2Fw'' = Some ''p:/w''"
proof -
  have u: "db_URI example_db_config ''postgres'' = ''postgres://us%40er:p%3A%2Fw@db/insights?sslmode=require''"
    by code_simp
  have c: "cut_at (CHR '':'') (takeWhile (\<lambda>c. c \<noteq> CHR ''@'') (drop (length ''postgres'' + 3)
      ''postgres://us%40er:p%3A%2Fw@db/insights?sslmode=require'')) = (''us%40er'', ''p%3A%2Fw'', True)"
    "db_User example_db_config = ''us@er''" "db_Password example_db_config = ''p:/w''" by code_simp+
  have ne: "''postgres'' \<noteq> []" by simp
  show ?thesis
    using URI_credentials_roundtrip [OF ne, of example_db_config] u
    unfolding u Let_def c prod.case by blast
qed

end
