(* ===== verification/Delivery.thy ===== *)
theory Delivery
  imports Uploader Webservice Database
begin

text \<open>
  The client and the server agree on addresses: the URL the uploader builds for a source is routed
  by the mux of the web service to the upload handler, which finds the name of the source in it.
\<close>

section \<open>Escaped names\<close>

lemma escape_path_with: "escape_path s = escape_with path_safe s"
  by (simp add: escape_path_def escape_with_def)

lemma unescape_escape_path: "unescape (escape_path s) = Some s"
  unfolding escape_path_with by (rule unescape_escape_with) (simp add: path_safe_def is_letter_def is_digit_def)

lemma escape_path_append: "escape_path (s @ t) = escape_path s @ escape_path t"
  by (simp add: escape_path_def)

lemma escape_path_no_slash:
  assumes "slash \<notin> set s"
  shows "slash \<notin> set (escape_path s)"
proof -
  have "upper_hex n \<noteq> slash" if "n < 16" for n
    using upper_hex_char [OF that] by (auto simp: is_letter_def is_digit_def)
  then have "upper_hex (of_char x div 16) \<noteq> slash" "upper_hex (of_char x mod 16) \<noteq> slash" for x :: char
    using char_div_16 [of x] by simp_all
  then show ?thesis using assms by (auto simp: escape_path_def Let_def split: if_splits) (metis+)
qed

lemma escape_path_plain:
  assumes "plain_name n"
  shows "plain_name (escape_path n)"
proof -
  have un: "unescape (escape_path n) = Some n" by (rule unescape_escape_path)
  have "unescape [] = Some []" "unescape ''.'' = Some ''.''" "unescape ''..'' = Some ''..''" by simp_all
  then have "escape_path n \<noteq> []" "escape_path n \<noteq> ''.''" "escape_path n \<noteq> ''..''"
    using un assms by (auto simp: plain_name_def)
  then show ?thesis using escape_path_no_slash assms by (simp add: plain_name_def)
qed

section \<open>The address of a source\<close>

definition upload_path :: "string \<Rightarrow> string" where
  "upload_path source = ''/upload/'' @ escape_path source"

lemma clean_rooted: "is_rooted ''/upload''" "clean_comps ''/upload'' = [''upload'']" "clean_comps ''upload'' = [''upload'']"
  "\<not> is_rooted ''upload''" "''/'' = [slash]"
  by code_simp+

lemma slash_literals: "''/upload/'' @ s = ''/upload'' @ slash # s" "''upload/'' @ s = ''upload'' @ slash # s"
  by simp_all

lemma clean_upload_path: "plain_name e \<Longrightarrow> path_clean (''/upload/'' @ e) = ''/upload/'' @ e"
  unfolding slash_literals path_clean_def
  using clean_comps_snoc [of e "''/upload''"] is_rooted_append [of "''/upload''" "slash # e"] clean_rooted
  by (simp add: render_path_def)

lemma getURL_simple:
  assumes "url_parse (baseServerURL um) = Some b" "Scheme b \<noteq> []" "Opaque b = []" "Host b \<noteq> []" "UPath b = []"
    "RawQuery b = None" "Fragment b = None" "plain_name source"
  shows "getURL um source = Inr (Scheme b @ ''://'' @ Host b @ upload_path source)"
proof -
  have "path_join [[], ''upload'', source] = path_clean (''upload'' @ slash # source)"
    by (simp add: path_join_def)
  also have "\<dots> = ''upload'' @ slash # source"
    using clean_comps_snoc [of source "''upload''"] is_rooted_append [of "''upload''" "slash # source"] assms(8) clean_rooted
    by (simp add: path_clean_def render_path_def)
  finally have p: "path_join [[], ''upload'', source] = ''upload/'' @ source" by simp
  have e: "escape_path (''upload/'' @ source) = ''upload/'' @ escape_path source"
    unfolding escape_path_append by (simp add: escape_path_safe path_safe_def is_letter_def)
  have r: "\<not> is_rooted (''upload/'' @ escape_path source)"
    using is_rooted_append [of "''upload/''"] by (simp add: is_rooted_def)
  show ?thesis using assms p e r
    by (simp add: getURL_def url_string_def Let_def upload_path_def)
qed

lemma mux_upload_path:
  assumes "plain_name source" "r_method r = ''POST''" "r_escaped_path r = upload_path source"
  shows "setupPrimaryMux cfg sc version reqID r w =
    Upload_ServeHTTP (NewUpload cfg (sc_ReportsDir sc) (sc_MaxUploadBytes sc)) reqID
      (r\<lparr>r_path_values := [(''app'', source)]\<rparr>) w"
proof -
  have e: "plain_name (escape_path source)" using escape_path_plain assms(1) .
  have ne: "escape_path source \<noteq> []" "slash \<notin> set (escape_path source)" using e by (auto simp: plain_name_def)
  have last: "last (upload_path source) \<noteq> slash"
    using ne unfolding upload_path_def by (metis last_appendR last_in_set)
  have path: "mux_clean_path (upload_path source) = upload_path source"
    using clean_upload_path [OF e] last
    by (simp add: mux_clean_path_def upload_path_def Let_def is_rooted_def)
  have "split_on slash (tl (upload_path source)) = split_on slash (''upload'' @ slash # escape_path source)"
    by (simp add: upload_path_def)
  also have "\<dots> = [''upload'', escape_path source]"
    unfolding split_on_append using ne(2) by simp
  finally have "split_on slash (tl (upload_path source)) = [''upload'', escape_path source]" .
  then have "mux_segments (upload_path source) = [mux_unescape ''upload'', source]"
    using ne unescape_escape_path [of source] by (simp add: mux_segments_def mux_unescape_def)
  moreover have "mux_unescape ''upload'' = ''upload''" by code_simp
  moreover have "source \<noteq> ''/''" using assms(1) by (auto simp: plain_name_def)
  ultimately have "find_route routes ''POST'' (mux_segments (upload_path source)) = Some (EpUpload, [(''app'', source)])"
    by (simp add: routes_def method_matches_def)
  then show ?thesis using assms(2,3) path by (simp add: setupPrimaryMux_def Let_def)
qed

section \<open>Properties\<close>

text \<open>C2: what the client sends for a source the server takes for that source. When the configured
  server is named by scheme and host alone, the uploader posts to the path \<open>/upload/\<close> and the
  escaped name of the source, and the primary mux hands a request with that path to the upload
  handler as a report of exactly that source, whatever bytes its name has. If the source is
  allowed, the body valid JSON within the limit and the file system healthy, the answer is
  202.\<close>

theorem client_upload_delivered:
  assumes "url_parse (baseServerURL um) = Some b" "Scheme b \<noteq> []" "Opaque b = []" "Host b \<noteq> []" "UPath b = []"
    and "RawQuery b = None" "Fragment b = None" "plain_name source" "\<not> contains_str source ''..''"
    and "r_method r = ''POST''" "r_escaped_path r = upload_path source" "\<not> r_broken r" "json_valid (r_body r)"
    and "cfg source" "int (length (r_body r)) \<le> max (sc_MaxUploadBytes sc) 0"
    and "quiet w" "fs_wf (fs w)" "uuid_form reqID" "sc_ReportsDir sc \<noteq> []"
    and "creatable (fs w) (resolve (sc_ReportsDir sc) @ [source])"
    and "fs_get (fs w) (resolve (sc_ReportsDir sc) @ [source, reqID @ ''.json'']) = None"
  shows "getURL um source = Inr (Scheme b @ ''://'' @ Host b @ r_escaped_path r) \<and>
    (\<exists>r' w'. setupPrimaryMux cfg sc version reqID r w = ((header_only StatusAccepted, r'), w'))"
proof -
  let ?r = "r\<lparr>r_path_values := [(''app'', source)]\<rparr>"
  have app: "path_clean (PathValue ?r ''app'') = source" "clean_comps source = [source]" "source \<noteq> ''.''"
    using assms(8) clean_comps_plain [of source] not_rooted_plain [of source]
    by (auto simp: PathValue_def path_clean_def render_path_def plain_name_def)
  have acc: "acceptable (NewUpload cfg (sc_ReportsDir sc) (sc_MaxUploadBytes sc)) source ?r"
    using assms(10,12-15) by (simp add: acceptable_def NewUpload_def)
  have "\<exists>r' w'. Upload_ServeHTTP (NewUpload cfg (sc_ReportsDir sc) (sc_MaxUploadBytes sc)) reqID ?r w =
      ((header_only StatusAccepted, r'), w')"
    using assms(20,21) app acc by (intro Upload_accepts [OF assms(16-19) app(1) [symmetric] app(3) assms(9)]) simp_all
  then show ?thesis
    unfolding mux_upload_path [OF assms(8,10,11)] using getURL_simple [OF assms(1-8)] assms(11) by simp
qed

text \<open>A source whose name needs escaping, sent to the default server.\<close>

theorem client_upload_delivered_witness:
  "getURL (example_uploader False) ''my app'' = Inr ''https://metrics.ubuntu.com/upload/my%20app'' \<and>
   (\<exists>r' w'. setupPrimaryMux (\<lambda>a. a = ''my app'') example_static ''1'' example_uuid
      (example_request\<lparr>r_escaped_path := ''/upload/my%20app''\<rparr>) example_server = ((header_only StatusAccepted, r'), w'))"
proof -
  let ?um = "example_uploader False" and ?r = "example_request\<lparr>r_escaped_path := ''/upload/my%20app''\<rparr>"
  define b where "b = the (url_parse (baseServerURL ?um))"
  have b: "url_parse (baseServerURL ?um) = Some b" "Scheme b \<noteq> []" "Opaque b = []" "Host b \<noteq> []" "UPath b = []"
    "RawQuery b = None" "Fragment b = None" unfolding b_def by code_simp+
  have h: "plain_name ''my app''" "\<not> contains_str ''my app'' ''..''" "r_method ?r = ''POST''"
    "r_escaped_path ?r = upload_path ''my app''" "\<not> r_broken ?r" "json_valid (r_body ?r)"
    "(\<lambda>a. a = ''my app'') ''my app''" "int (length (r_body ?r)) \<le> max (sc_MaxUploadBytes example_static) 0"
    "quiet example_server" "fs_wf (fs example_server)" "uuid_form example_uuid" "sc_ReportsDir example_static \<noteq> []"
    "creatable (fs example_server) (resolve (sc_ReportsDir example_static) @ [''my app''])"
    "fs_get (fs example_server) (resolve (sc_ReportsDir example_static) @ [''my app'', example_uuid @ ''.json'']) = None"
    by code_simp+
  have "Scheme b @ ''://'' @ Host b @ r_escaped_path ?r = ''https://metrics.ubuntu.com/upload/my%20app''"
    unfolding b_def by code_simp
  then show ?thesis using client_upload_delivered [where cfg = "\<lambda>a. a = ''my app''" and version = "''1''", OF b h] by simp
qed

end
