(* ===== verification/Collector.thy ===== *)
theory Collector
  imports Os_Frames
begin

text \<open>
  The package \<open>insights/internal/collector\<close> and the composition of its system information
  (\<open>insights/internal/collector/sysinfo\<close>). What the platform, hardware and software collectors
  gather is an argument, as the interfaces of the package have it; the gathered values are
  JSON values. Metrics a source provides are decoded into a Go map and encoded again: keys are
  sorted, the last of equal keys wins, and a number goes through a \<open>float64\<close>, which the
  argument \<open>renum\<close> stands for (None when the number is out of range).
\<close>

section \<open>System information\<close>

record sys_info =
  Hardware :: json
  Software :: json
  Platform :: "json option"

text \<open>\<open>sysinfo.Collector.Collect\<close>: an error only when all three parts fail; a failed platform is
  replaced by the zero value before the others see it. The three collectors are arguments, as
  are the encodings of what they return (None for a value that is left out).\<close>

definition sysinfo_Collect ::
    "('p \<Rightarrow> json option) \<Rightarrow> ('h \<Rightarrow> json) \<Rightarrow> ('w \<Rightarrow> json) \<Rightarrow> 'p \<Rightarrow> ('s, 'p) io \<Rightarrow>
     ('p \<Rightarrow> 's \<Rightarrow> (go_error option \<times> 'h) \<times> 's) \<Rightarrow> ('p \<Rightarrow> 's \<Rightarrow> (go_error option \<times> 'w) \<times> 's) \<Rightarrow>
     ('s, sys_info) io" where
  "sysinfo_Collect pl_enc hw_enc sw_enc zero pl hw sw = (\<lambda>w.
     case pl w of (plRes, w1) \<Rightarrow>
     let plInfo = (case plRes of Inl _ \<Rightarrow> zero | Inr i \<Rightarrow> i) in
     case hw plInfo w1 of ((hwErr, hwInfo), w2) \<Rightarrow>
     case sw plInfo w2 of ((swErr, swInfo), w3) \<Rightarrow>
       if hwErr \<noteq> None \<and> swErr \<noteq> None \<and> (case plRes of Inl _ \<Rightarrow> True | Inr _ \<Rightarrow> False)
       then (Inl (Errorf ''failed to collect system information''), w3)
       else (Inr \<lparr>Hardware = hw_enc hwInfo, Software = sw_enc swInfo, Platform = pl_enc plInfo\<rparr>, w3))"

definition sys_info_json :: "sys_info \<Rightarrow> json" where
  "sys_info_json i =
     JObj ([(''hardware'', Hardware i), (''software'', Software i)] @
       (case Platform i of None \<Rightarrow> [] | Some p \<Rightarrow> [(''platform'', p)]))"

section \<open>Data\<close>

record insights =
  InsightsVersion :: string
  CollectionTime :: int
  SysInfo :: sys_info
  SourceMetrics :: "(string \<times> json) list option"

record collector =
  c_source :: string
  collectedDir :: string
  uploadedDir :: string
  sourceMetricsPath :: string
  sourceMetricsJSON :: "string option"
  c_maxReports :: u32
  c_time :: int

record collect_config =
  Source :: string
  CachePath :: string
  SourceMetricsPath :: string
  SourceMetricsJSON :: "string option"

section \<open>Decoding and encoding of metrics\<close>

text \<open>A Go map as an association list in the order \<open>json.Marshal\<close> writes it.\<close>

definition go_map :: "(string \<times> json) list \<Rightarrow> (string \<times> json) list" where
  "go_map kvs = map (\<lambda>k. (k, the (obj_lookup kvs k))) (sort (remdups (map fst kvs)))"

fun decode_any :: "(string \<Rightarrow> string option) \<Rightarrow> json \<Rightarrow> json option" where
  "decode_any renum (JNum l) = map_option JNum (renum l)"
| "decode_any renum (JArr xs) =
     (let ys = map (decode_any renum) xs in
      if None \<in> set ys then None else Some (JArr (map the ys)))"
| "decode_any renum (JObj kvs) =
     (let ys = map (\<lambda>kv. map_option (Pair (fst kv)) (decode_any renum (snd kv))) kvs in
      if None \<in> set ys then None else Some (JObj (go_map (map the ys))))"
| "decode_any renum v = Some v"

text \<open>\<open>json.Unmarshal\<close> into a \<open>map[string]any\<close>: an object, or null for the nil map.\<close>

definition unmarshal_map ::
    "(string \<Rightarrow> string option) \<Rightarrow> string \<Rightarrow> go_error + (string \<times> json) list option" where
  "unmarshal_map renum s =
     (case json_parse s of
        None \<Rightarrow> Inl (Errorf ''json: syntax error'')
      | Some v \<Rightarrow>
         (case decode_any renum v of
            Some (JObj kvs) \<Rightarrow> Inr (Some kvs)
          | Some JNull \<Rightarrow> Inr None
          | _ \<Rightarrow> Inl (Errorf ''json: cannot unmarshal'')))"

definition insights_json :: "insights \<Rightarrow> json" where
  "insights_json i =
     JObj ([(''insightsVersion'', JStr (InsightsVersion i)),
            (''collectionTime'', JNum (show_int (CollectionTime i))),
            (''systemInfo'', sys_info_json (SysInfo i))] @
       (case SourceMetrics i of
          Some (kv # kvs) \<Rightarrow> [(''sourceMetrics'', JObj (kv # kvs))]
        | _ \<Rightarrow> []))"

section \<open>Operations\<close>

definition collect_Sanitize :: "string \<Rightarrow> collect_config \<Rightarrow> go_error + collect_config" where
  "collect_Sanitize defaultCachePath c =
     (let c1 = (if Source c = [] then c\<lparr>Source := PlatformSource\<rparr> else c) in
      if SourceMetricsPath c1 \<noteq> [] \<and> SourceMetricsJSON c1 \<noteq> None
      then Inl (Errorf ''only one of SourceMetricsPath or SourceMetricsJSON can be provided'')
      else if (case SourceMetricsJSON c1 of Some j \<Rightarrow> \<not> json_valid j | None \<Rightarrow> False)
      then Inl (Errorf ''provided SourceMetricsJSON is not valid JSON'')
      else Inr (if CachePath c1 = [] then c1\<lparr>CachePath := defaultCachePath\<rparr> else c1))"

text \<open>The options replace the limit of reports and the time; \<open>now\<close> is what the time function
  returns.\<close>

definition collector_New ::
    "string \<Rightarrow> (string \<Rightarrow> ('z os_scheme, bool) io) option \<Rightarrow> collect_config \<Rightarrow> u32 \<Rightarrow> int
     \<Rightarrow> ('z os_scheme, collector) io" where
  "collector_New defaultCachePath cm c maxR now =
     (case cm of
        None \<Rightarrow> throw (Errorf ''consent manager cannot be nil'')
      | Some _ \<Rightarrow>
         (case collect_Sanitize defaultCachePath c of
            Inl err \<Rightarrow> throw (Joined [Sentinel ErrSanitizeError, err])
          | Inr c' \<Rightarrow>
             bindE (on_error (\<lambda>_. Errorf ''failed to create cache directory'')
                      (os_mkdir_all (CachePath c') 488))
               (\<lambda>_. ret \<lparr>c_source = Source c',
                     collectedDir = path_join [CachePath c', Source c', LocalFolder],
                     uploadedDir = path_join [CachePath c', Source c', UploadedFolder],
                     sourceMetricsPath = SourceMetricsPath c',
                     sourceMetricsJSON = SourceMetricsJSON c',
                     c_maxReports = maxR, c_time = now\<rparr>)))"

definition getSourceMetrics ::
    "(string \<Rightarrow> string option) \<Rightarrow> collector \<Rightarrow> ('z os_scheme, (string \<times> json) list option) io" where
  "getSourceMetrics renum c =
     (case sourceMetricsJSON c of
        Some j \<Rightarrow>
          (case unmarshal_map renum j of
             Inl _ \<Rightarrow> throw (Errorf ''failed to unmarshal source metrics JSON'')
           | Inr m \<Rightarrow> ret m)
      | None \<Rightarrow>
          if sourceMetricsPath c = [] then ret None
          else bindE (on_error (\<lambda>_. Errorf ''failed to read source metrics file'')
                        (os_read_file (sourceMetricsPath c)))
                 (\<lambda>data. case unmarshal_map renum data of
                    Inl _ \<Rightarrow> throw (Errorf ''failed to unmarshal source metrics'')
                  | Inr m \<Rightarrow> ret m))"

definition compile ::
    "string \<Rightarrow> (string \<Rightarrow> string option) \<Rightarrow> ('z os_scheme, sys_info) io \<Rightarrow> collector
     \<Rightarrow> ('z os_scheme, insights) io" where
  "compile version renum sysInfo c =
     bindE (on_error (\<lambda>_. Errorf ''failed to collect system information'') sysInfo) (\<lambda>info.
     bindE (on_error (\<lambda>err. Joined [Sentinel ErrSourceMetricsError, err]) (getSourceMetrics renum c))
       (\<lambda>metrics. ret \<lparr>InsightsVersion = version, CollectionTime = c_time c, SysInfo = info,
          SourceMetrics = metrics\<rparr>))"

definition Compile ::
    "string \<Rightarrow> (string \<Rightarrow> string option) \<Rightarrow> ('z os_scheme, sys_info) io \<Rightarrow> collector
     \<Rightarrow> ('z os_scheme, insights) io" where
  "Compile version renum sysInfo c =
     on_error (ErrorfW ''insights compile failed'')
       (on_error (ErrorfW ''failed to compile insights'') (compile version renum sysInfo c))"

text \<open>The directories to search are those whose look-up does not say they are missing.\<close>

definition existing_dirs :: "string list \<Rightarrow> ('z os_scheme, string list) io" where
  "existing_dirs ds =
     foldr (\<lambda>d rest. attempt (os_stat d) (\<lambda>st.
        if (case st of Inl e \<Rightarrow> os_is_not_exist e | Inr _ \<Rightarrow> False) then rest
        else bindE rest (\<lambda>xs. ret (d # xs)))) ds (ret [])"

fun duplicate_in :: "int \<Rightarrow> u32 \<Rightarrow> string list \<Rightarrow> ('z os_scheme, bool) io" where
  "duplicate_in t period [] = ret False"
| "duplicate_in t period (d # ds) =
     bindE (on_error (\<lambda>_. Errorf ''failed to check for duplicate report'') (DuplicateExists d t period))
       (\<lambda>dup. if dup then ret True else duplicate_in t period ds)"

definition collector_duplicateExists :: "collector \<Rightarrow> int \<Rightarrow> u32 \<Rightarrow> ('z os_scheme, bool) io" where
  "collector_duplicateExists c t period =
     bindE (existing_dirs [collectedDir c, uploadedDir c]) (duplicate_in t period)"

definition handleDuplicates ::
    "collector \<Rightarrow> bool \<Rightarrow> bool \<Rightarrow> int \<Rightarrow> u32 \<Rightarrow> ('z os_scheme, unit) io" where
  "handleDuplicates c force dry t period =
     (if \<not> force then
        bindE (collector_duplicateExists c t period) (\<lambda>duplicate.
          if duplicate then throw (Sentinel ErrDuplicateReport) else ret ())
      else
        attempt (os_stat (collectedDir c)) (\<lambda>st.
          case st of
            Inl err \<Rightarrow> if os_is_not_exist err then ret () else throw err
          | Inr _ \<Rightarrow>
              on_error (\<lambda>_. Errorf ''failed to clear old reports'')
                (ClearPeriod (collectedDir c) t period dry)))"

definition collector_makeDirs :: "collector \<Rightarrow> ('z os_scheme, unit) io" where
  "collector_makeDirs c =
     for_each (\<lambda>dir. on_error (\<lambda>_. Errorf ''failed to create directory'') (os_mkdir_all dir 488))
       [collectedDir c, uploadedDir c]"

definition collector_write :: "collector \<Rightarrow> string \<Rightarrow> int \<Rightarrow> ('z os_scheme, unit) io" where
  "collector_write c data t =
     on_error (\<lambda>_. Errorf ''failed to write to disk'')
       (AtomicWrite (path_join [collectedDir c, show_int t @ ''.json'']) data)"

text \<open>Encoding cannot fail: every part is a JSON value.\<close>

definition Write ::
    "(string \<Rightarrow> ('z os_scheme, bool) io) \<Rightarrow> collector \<Rightarrow> insights \<Rightarrow> u32 \<Rightarrow> bool \<Rightarrow> bool
     \<Rightarrow> ('z os_scheme, unit) io" where
  "Write cons c ins period force dry =
     on_error (ErrorfW ''insights write failed'')
       (bindE (on_error (ErrorfW ''failed to get consent state'') (cons (c_source c))) (\<lambda>consent.
        let data = (if consent then marshal (insights_json ins) else OptOutPayload);
            t = (if CollectionTime ins = 0 then c_time c else CollectionTime ins) in
        bindE (handleDuplicates c force dry t period) (\<lambda>_.
        if dry then ret ()
        else
          bindE (on_error (\<lambda>_. Errorf ''failed to create directories'') (collector_makeDirs c)) (\<lambda>_.
          bindE (on_error (\<lambda>_. Errorf ''failed to write insights report'') (collector_write c data t)) (\<lambda>_.
          on_error (\<lambda>_. Errorf ''failed to clean up old reports'')
            (Cleanup (collectedDir c) (c_maxReports c)))))))"

section \<open>Facts\<close>

subsection \<open>What reaches the disk\<close>

text \<open>The contents of all files, wherever they are; a relation that allows only contents of a
  set to be added.\<close>

definition contents :: "fsys \<Rightarrow> string set" where
  "contents f = {c. \<exists>q. file_content f q = Some c}"

definition adds_content :: "string set \<Rightarrow> fsys \<Rightarrow> fsys \<Rightarrow> bool" where
  "adds_content S f f' \<longleftrightarrow> contents f' \<subseteq> contents f \<union> S"

interpretation disk: fs_frame "adds_content S" for S
  by unfold_locales (auto simp: adds_content_def)

lemma adds_content_get:
  assumes "\<And>q. fs_get f' q = None \<or> (\<exists>p. fs_get f' q = fs_get f p) \<or> (\<exists>c m. fs_get f' q = Some (FileN c m) \<and> c \<in> S)
    \<or> (\<exists>m. fs_get f' q = Some (DirN m))"
  shows "adds_content S f f'"
proof -
  have "c \<in> contents f \<union> S" if fc: "file_content f' q = Some c" for c q
  proof -
    obtain m where "fs_get f' q = Some (FileN c m)" using fc by (auto simp: file_content_file)
    with assms [of q] show ?thesis by (auto simp: contents_def file_content_file) metis+
  qed
  then show ?thesis by (auto simp: adds_content_def contents_def)
qed

lemma get_update_cases: "fs_get (AList.update p v f) q = fs_get f q \<or> fs_get (AList.update p v f) q = Some v"
  by (auto simp: fs_get_def AList.update_conv')

lemma get_delete_cases: "fs_get (AList.delete p f) q = fs_get f q \<or> fs_get (AList.delete p f) q = None"
  by (auto simp: fs_get_def AList.delete_conv')

lemma adds_content_update_file:
  assumes "c \<in> S \<or> (\<exists>p k. fs_get f p = Some (FileN c k))"
  shows "adds_content S f (AList.update q (FileN c m) f)"
proof -
  have "d \<in> contents f \<union> S" if fc: "file_content (AList.update q (FileN c m) f) p = Some d" for d p
  proof -
    obtain k where "fs_get (AList.update q (FileN c m) f) p = Some (FileN d k)"
      using fc by (auto simp: file_content_file)
    with get_update_cases [of q "FileN c m" f p]
    have "fs_get f p = Some (FileN d k) \<or> d = c" by auto
    with assms show ?thesis by (auto simp: contents_def file_content_file)
  qed
  then show ?thesis by (auto simp: adds_content_def contents_def)
qed

lemma adds_content_delete: "adds_content S f (AList.delete q f)"
  by (rule adds_content_get) (use get_delete_cases in metis)

lemma adds_content_dirs: "adds_dirs f f' \<Longrightarrow> adds_content S f f'"
  by (simp add: adds_content_def contents_def adds_dirs_content)

lemma disk_remove: "framed (fs_rel (adds_content S)) (os_remove p)"
  unfolding os_remove_def
  by (rule disk.framed_at_path)
     (auto simp: fs_remove_def intro!: adds_content_delete split: option.splits node.splits if_splits)

lemma disk_chmod: "framed (fs_rel (adds_content S)) (os_chmod p m)"
  unfolding os_chmod_def
proof (rule disk.framed_at_path)
  fix f x f' assume "fs_chmod (resolve p) m f = Inr (x, f')"
  then consider d k where "fs_get f (resolve p) = Some (FileN d k)" "f' = AList.update (resolve p) (FileN d m) f"
    | "f' = AList.update (resolve p) (DirN m) f"
    by (auto simp: fs_chmod_def fs_get_def split: option.splits node.splits if_splits)
  then show "adds_content S f f'"
  proof cases
    case 1
    then show ?thesis by (auto intro: adds_content_update_file)
  next
    case 2
    then show ?thesis by (intro adds_content_get) (use get_update_cases in metis)
  qed
qed

lemma disk_write: "d \<in> S \<Longrightarrow> framed (fs_rel (adds_content S)) (os_write p d)"
  unfolding os_write_def
  by (rule disk.framed_at_path)
     (auto simp: fs_write_def intro!: adds_content_update_file split: option.splits node.splits)

lemma disk_rename: "framed (fs_rel (adds_content S)) (os_rename p q)"
  unfolding os_rename_def
proof (rule disk.framed_at_path)
  fix f x f' assume "fs_rename (resolve p) (resolve q) f = Inr (x, f')"
  then obtain d m where d: "fs_get f (resolve p) = Some (FileN d m)"
    "f' = AList.update (resolve q) (FileN d m) (AList.delete (resolve p) f)"
    by (auto simp: fs_rename_def split: option.splits node.splits if_splits)
  show "adds_content S f f'"
    by (rule adds_content_get, unfold d(2))
       (use d(1) get_update_cases get_delete_cases in metis)
qed

lemma disk_create_temp: "[] \<in> S \<Longrightarrow> framed (fs_rel (adds_content S)) (os_create_temp d)"
proof -
  assume "[] \<in> S"
  then have "framed (fs_rel (adds_content S)) (at_path d (fs_create_temp s))" for s
    by (intro disk.framed_at_path)
       (auto simp: fs_create_temp_def intro!: adds_content_update_file split: option.splits if_splits)
  then have "framed (fs_rel (adds_content S)) (\<lambda>w. at_path d (fs_create_temp (seed w)) w)"
    unfolding framed_def by blast
  then show ?thesis unfolding os_create_temp_def by (intro disk.frame_intros)
qed

lemma disk_mkdir_all: "framed (fs_rel (adds_content S)) (os_mkdir_all p perm)"
  using dirs_framed_mkdir_all [of p perm] adds_content_dirs unfolding framed_def fs_rel_def by blast

lemma disk_AtomicWrite:
  "data \<in> S \<Longrightarrow> [] \<in> S \<Longrightarrow> framed (fs_rel (adds_content S)) (AtomicWrite p data)"
  unfolding AtomicWrite_def atomicWrite_def atomicWrite_body_def outcome_def
  by (auto intro!: disk.frame_intros disk.framed_reads disk_create_temp disk_write disk_rename
      disk_chmod disk_remove split: sum.splits)

lemma disk_reports:
  "framed (fs_rel (adds_content S)) (ClearPeriod dir t period dry)"
  "framed (fs_rel (adds_content S)) (Cleanup dir m)"
  "framed (fs_rel (adds_content S)) (DuplicateExists dir t period)"
  by (auto simp: ClearPeriod_def Cleanup_def DuplicateExists_def GetAll_def walkReports_def
      remove_logged_def Let_def intro!: disk.frame_intros disk.framed_walk disk_remove)

subsection \<open>The pieces of \<open>Write\<close>\<close>

lemma same_existing_dirs: "framed (fs_rel (=)) (existing_dirs ds)"
  unfolding existing_dirs_def by (induction ds) (auto intro!: same_intros simp del: ret_apply)

lemma same_duplicate_in: "framed (fs_rel (=)) (duplicate_in t period ds)"
  by (induction ds) (auto intro!: same_intros same_walkReports simp del: ret_apply)

lemma framed_from_same: "framed (fs_rel (=)) m \<Longrightarrow> (\<And>f. P f f) \<Longrightarrow> framed (fs_rel P) m"
  unfolding framed_def fs_rel_def by metis

lemma same_handleDuplicates:
  assumes "dry \<or> \<not> force"
  shows "framed (fs_rel (=)) (handleDuplicates c force dry t period)"
proof (cases force)
  case False
  then show ?thesis
    unfolding handleDuplicates_def collector_duplicateExists_def
    by (auto intro!: same_intros same_existing_dirs same_duplicate_in)
next
  case True
  then have dry using assms by simp
  then have "framed (fs_rel (=)) (ClearPeriod (collectedDir c) t period dry)"
    unfolding ClearPeriod_def Let_def
    by (auto intro!: same_intros same_walkReports)
  with True show ?thesis
    unfolding handleDuplicates_def by (auto intro!: same_intros split: sum.splits)
qed

lemma disk_handleDuplicates: "framed (fs_rel (adds_content S)) (handleDuplicates c force dry t period)"
proof -
  have "framed (fs_rel (adds_content S)) (collector_duplicateExists c t period)"
    using framed_from_same [OF same_existing_dirs] framed_from_same [OF same_duplicate_in] disk.P_refl
    unfolding collector_duplicateExists_def by (intro disk.frame_intros) blast+
  then show ?thesis
    unfolding handleDuplicates_def
    by (auto intro!: disk.frame_intros disk.framed_reads disk_reports split: sum.splits)
qed

lemma disk_Write:
  assumes "framed (fs_rel (=)) (cons (c_source c))" "[] \<in> S"
    and "\<And>b w w'. cons (c_source c) w = (Inr b, w') \<Longrightarrow>
      (if b then marshal (insights_json ins) else OptOutPayload) \<in> S"
  shows "framed (fs_rel (adds_content S)) (Write cons c ins period force dry)"
proof -
  have c: "framed (fs_rel (adds_content S)) (cons (c_source c))"
    using framed_from_same [OF assms(1)] disk.P_refl by blast
  have w: "framed (fs_rel (adds_content S)) (collector_write c (if b then marshal (insights_json ins) else OptOutPayload) t)"
    if "cons (c_source c) w = (Inr b, w')" for b w w' t
    unfolding collector_write_def
    by (intro disk.frame_intros disk_AtomicWrite assms(2) assms(3) [OF that])
  have m: "framed (fs_rel (adds_content S)) (collector_makeDirs c)"
    unfolding collector_makeDirs_def by (intro disk.frame_intros disk_mkdir_all)
  show ?thesis
    unfolding Write_def Let_def
    by (cases dry; simp only: if_True if_False;
        rule effect_frame.framed_on_error [OF disk.frame], rule effect_frame.framed_bindE_result [OF disk.frame])
       (auto intro!: disk.frame_intros c m disk_reports disk_handleDuplicates w
         simp: on_error_eq_Inr simp del: ret_apply split del: if_split)
qed

subsection \<open>Duplicates\<close>

text \<open>A directory that exists, or whose absence is plain.\<close>

definition dir_or_absent :: "fsys \<Rightarrow> string \<Rightarrow> bool" where
  "dir_or_absent f d \<longleftrightarrow> d \<noteq> [] \<and> (is_dir_at f (resolve d) \<or>
     (fs_get f (resolve d) = None \<and> missing f (resolve d) = ENOENT))"

definition has_duplicate :: "fsys \<Rightarrow> collector \<Rightarrow> int \<Rightarrow> u32 \<Rightarrow> bool" where
  "has_duplicate f c t period \<longleftrightarrow>
     (\<exists>d\<in>{collectedDir c, uploadedDir c}. is_dir_at f (resolve d) \<and>
        list_ex (in_window (GetPeriodStart t period) t) (reports_in f d))"

lemma existing_dirs_quiet:
  assumes "quiet w" "\<forall>d\<in>set ds. dir_or_absent (fs w) d"
  shows "existing_dirs ds w = (Inr (filter (\<lambda>d. is_dir_at (fs w) (resolve d)) ds), w)"
  using assms(2)
proof (induction ds)
  case Nil
  then show ?case by (simp add: existing_dirs_def)
next
  case (Cons d ds)
  then have d: "dir_or_absent (fs w) d" by simp
  have st: "os_stat d w = (if is_dir_at (fs w) (resolve d) then (Inr (the (fs_get (fs w) (resolve d))), w)
      else (Inl (PathError ENOENT), w))"
    using d assms(1) by (auto simp: os_stat_quiet dir_or_absent_def is_dir_at_def split: option.splits)
  have "existing_dirs (d # ds) w = attempt (os_stat d) (\<lambda>st.
      if (case st of Inl e \<Rightarrow> os_is_not_exist e | Inr _ \<Rightarrow> False) then existing_dirs ds
      else bindE (existing_dirs ds) (\<lambda>xs. ret (d # xs))) w"
    unfolding existing_dirs_def by (simp only: foldr.simps o_apply)
  with st Cons show ?case by (simp add: attempt_def bindE_def os_is_not_exist_def)
qed

lemma duplicate_in_quiet:
  assumes "\<forall>d\<in>set ds. report_dir w d"
  shows "duplicate_in t period ds w =
    (Inr (\<exists>d\<in>set ds. list_ex (in_window (GetPeriodStart t period) t) (reports_in (fs w) d)), w)"
  using assms
  by (induction ds) (auto simp: bindE_def on_error_def DuplicateExists_quiet list_ex_iff)

lemma collector_duplicateExists_quiet:
  assumes "quiet w" "fs_wf (fs w)" "dir_or_absent (fs w) (collectedDir c)" "dir_or_absent (fs w) (uploadedDir c)"
  shows "collector_duplicateExists c t period w = (Inr (has_duplicate (fs w) c t period), w)"
proof -
  let ?ds = "filter (\<lambda>d. is_dir_at (fs w) (resolve d)) [collectedDir c, uploadedDir c]"
  have "existing_dirs [collectedDir c, uploadedDir c] w = (Inr ?ds, w)"
    using assms by (intro existing_dirs_quiet) auto
  moreover have "duplicate_in t period ?ds w =
    (Inr (\<exists>d\<in>set ?ds. list_ex (in_window (GetPeriodStart t period) t) (reports_in (fs w) d)), w)"
    using assms by (intro duplicate_in_quiet) (auto simp: report_dir_def dir_or_absent_def)
  moreover have "(\<exists>d\<in>set ?ds. list_ex (in_window (GetPeriodStart t period) t) (reports_in (fs w) d)) \<longleftrightarrow>
      has_duplicate (fs w) c t period" by (auto simp: has_duplicate_def)
  ultimately show ?thesis by (simp only: collector_duplicateExists_def bindE_Inr)
qed

subsection \<open>Storing a report without faults\<close>

lemma is_file_content: "is_file_at f p \<longleftrightarrow> file_content f p \<noteq> None"
  by (auto simp: is_file_at_def file_content_def split: option.splits node.splits)

lemma adds_dirs_creatable: "adds_dirs f f' \<Longrightarrow> creatable f p \<Longrightarrow> creatable f' p"
  by (simp add: creatable_def is_file_content adds_dirs_content)

lemma makeDirs_quiet:
  assumes "quiet w" "collectedDir c \<noteq> []" "uploadedDir c \<noteq> []"
    "creatable (fs w) (resolve (collectedDir c))" "creatable (fs w) (resolve (uploadedDir c))"
  shows "\<exists>f'. collector_makeDirs c w = (Inr (), w\<lparr>fs := f'\<rparr>) \<and> adds_dirs (fs w) f' \<and>
    is_dir_at f' (resolve (collectedDir c)) \<and>
    (\<forall>q. q \<notin> range (\<lambda>i. take i (resolve (collectedDir c))) \<and>
         q \<notin> range (\<lambda>i. take i (resolve (uploadedDir c))) \<longrightarrow> fs_get f' q = fs_get (fs w) q)"
proof -
  obtain f1 where f1: "os_mkdir_all (collectedDir c) 488 w = (Inr (), w\<lparr>fs := f1\<rparr>)"
    "is_dir_at f1 (resolve (collectedDir c))" "adds_dirs (fs w) f1"
    "\<forall>q. q \<notin> range (\<lambda>i. take i (resolve (collectedDir c))) \<longrightarrow> fs_get f1 q = fs_get (fs w) q"
    using os_mkdir_all_quiet [OF assms(1,2,4)] by blast
  obtain f2 where f2: "os_mkdir_all (uploadedDir c) 488 (w\<lparr>fs := f1\<rparr>) = (Inr (), w\<lparr>fs := f2\<rparr>)"
    "adds_dirs f1 f2"
    "\<forall>q. q \<notin> range (\<lambda>i. take i (resolve (uploadedDir c))) \<longrightarrow> fs_get f2 q = fs_get f1 q"
    using os_mkdir_all_quiet [of "w\<lparr>fs := f1\<rparr>" "uploadedDir c" 488] assms(1,3)
      adds_dirs_creatable [OF f1(3) assms(5)] by auto
  have "is_dir_at f2 (resolve (collectedDir c))"
    using f2(2) f1(2) unfolding adds_dirs_def is_dir_at_def by (metis option.case(1))
  moreover have "collector_makeDirs c w = (Inr (), w\<lparr>fs := f2\<rparr>)"
    using f1(1) f2(1) by (simp add: collector_makeDirs_def bindE_def on_error_def)
  ultimately show ?thesis using dirs.P_trans [OF f1(3) f2(2)] f1(4) f2(3) by metis
qed

text \<open>One more file means at most one more report.\<close>

lemma reports_in_new_file:
  assumes "fs_wf f" "fs_wf f'"
    "\<And>n. plain_name n \<Longrightarrow> n \<noteq> m \<Longrightarrow>
      is_file_at f' (resolve dir @ [n]) \<longleftrightarrow> is_file_at f (resolve dir @ [n])"
  shows "length (reports_in f' dir) \<le> Suc (length (reports_in f dir))"
proof -
  have "\<exists>X. set (reports_in f' dir) \<subseteq> X \<union> set (reports_in f dir) \<and> finite X \<and> card X \<le> 1"
  proof (cases "report_New (path_join [dir, m])")
    case (Inl e)
    then have "set (reports_in f' dir) \<subseteq> {} \<union> set (reports_in f dir)"
      using assms(3) by (auto simp: reports_in_iff [OF assms(1)] reports_in_iff [OF assms(2)]) (metis sum.distinct(1))
    then show ?thesis by (intro exI [of _ "{}"]) auto
  next
    case (Inr r)
    then have "set (reports_in f' dir) \<subseteq> {r} \<union> set (reports_in f dir)"
      using assms(3) by (auto simp: reports_in_iff [OF assms(1)] reports_in_iff [OF assms(2)]) (metis Inr_inject)
    then show ?thesis by (intro exI [of _ "{r}"]) auto
  qed
  then obtain X where X: "set (reports_in f' dir) \<subseteq> X \<union> set (reports_in f dir)" "finite X" "card X \<le> 1"
    by blast
  have "length (reports_in f' dir) = card (set (reports_in f' dir))"
    using distinct_reports_in [OF assms(2)] by (simp add: distinct_card)
  also have "\<dots> \<le> card (X \<union> set (reports_in f dir))" using X by (intro card_mono) auto
  also have "\<dots> \<le> card X + card (set (reports_in f dir))" by (rule card_Un_le)
  also have "\<dots> \<le> Suc (length (reports_in f dir))" using X(3) card_length [of "reports_in f dir"] by linarith
  finally show ?thesis .
qed

lemma Cleanup_few:
  assumes "report_dir w dir" "length (reports_in (fs w) dir) \<le> unat m" "uint m < 2 ^ 31"
  shows "Cleanup dir m w = (Inr (), w)"
  using assms by (simp add: Cleanup_def bindE_def GetAll_quiet Let_def)

text \<open>The time that names a report, and what is written.\<close>

definition report_time :: "collector \<Rightarrow> insights \<Rightarrow> int" where
  "report_time c ins = (if CollectionTime ins = 0 then c_time c else CollectionTime ins)"

definition report_data :: "bool \<Rightarrow> insights \<Rightarrow> string" where
  "report_data consent ins = (if consent then marshal (insights_json ins) else OptOutPayload)"

text \<open>Where a report can be stored: no fault pending, the directories exist or can be made,
  and there is room for one more report.\<close>

definition can_store :: "'z os_scheme \<Rightarrow> collector \<Rightarrow> int \<Rightarrow> bool" where
  "can_store w c t \<longleftrightarrow> quiet w \<and> fs_wf (fs w) \<and>
     dir_or_absent (fs w) (collectedDir c) \<and> dir_or_absent (fs w) (uploadedDir c) \<and>
     creatable (fs w) (resolve (collectedDir c)) \<and> creatable (fs w) (resolve (uploadedDir c)) \<and>
     fs_get (fs w) (resolve (collectedDir c) @ [report_name t]) = None \<and>
     resolve (collectedDir c) @ [report_name t] \<notin> (\<lambda>i. take i (resolve (uploadedDir c))) ` {0..length (resolve (uploadedDir c))} \<and>
     length (reports_in (fs w) (collectedDir c)) < unat (c_maxReports c) \<and> uint (c_maxReports c) < 2 ^ 31"

lemma not_prefix_range:
  "q \<notin> (\<lambda>i. take i p) ` {0..length p} \<Longrightarrow> q \<notin> range (\<lambda>i. take i p)"
proof
  assume a: "q \<notin> (\<lambda>i. take i p) ` {0..length p}" "q \<in> range (\<lambda>i. take i p)"
  then obtain i where "q = take i p" by blast
  then have "q = take (min i (length p)) p" by (simp add: min_def)
  with a(1) show False by (metis atLeastAtMost_iff image_eqI min.cobounded2 zero_le)
qed

lemma store_quiet:
  assumes "can_store w c t"
  shows "\<exists>f'. bindE (on_error (\<lambda>_. Errorf ''failed to create directories'') (collector_makeDirs c)) (\<lambda>_.
      bindE (on_error (\<lambda>_. Errorf ''failed to write insights report'') (collector_write c data t)) (\<lambda>_.
      on_error (\<lambda>_. Errorf ''failed to clean up old reports'')
        (Cleanup (collectedDir c) (c_maxReports c)))) w = (Inr (), w\<lparr>fs := f'\<rparr>) \<and> fs_wf f' \<and>
    is_dir_at f' (resolve (collectedDir c)) \<and>
    (\<forall>q. file_content f' q = (if q = resolve (collectedDir c) @ [report_name t] then Some data
       else file_content (fs w) q))"
proof -
  let ?D = "resolve (collectedDir c)" and ?n = "report_name t"
  note h = assms [unfolded can_store_def dir_or_absent_def]
  obtain f1 where f1: "collector_makeDirs c w = (Inr (), w\<lparr>fs := f1\<rparr>)" "adds_dirs (fs w) f1" "is_dir_at f1 ?D"
    "\<forall>q. q \<notin> range (\<lambda>i. take i ?D) \<and> q \<notin> range (\<lambda>i. take i (resolve (uploadedDir c))) \<longrightarrow>
      fs_get f1 q = fs_get (fs w) q"
    using makeDirs_quiet [of w c] h by blast
  have fr: "framed (fs_rel keeps_wf) (collector_makeDirs c)"
    unfolding collector_makeDirs_def by (intro wf.frame_intros wf_framed_mkdir_all)
  have wf1: "fs_wf f1" using wf.frame_elim [OF fr f1(1)] h by (simp add: fs_rel_def keeps_wf_def)
  have "?D @ [?n] \<notin> range (\<lambda>i. take i ?D)" by (metis (no_types, lifting) imageE take_neq_snoc)
  moreover have "?D @ [?n] \<notin> range (\<lambda>i. take i (resolve (uploadedDir c)))"
    using h by (intro not_prefix_range) blast
  ultimately have "fs_get f1 (?D @ [?n]) = None" using f1(4) h by metis
  then have "\<not> is_dir_at f1 (?D @ [?n])" by (simp add: is_dir_at_def)
  then obtain f2 where f2: "AtomicWrite (path_join [collectedDir c, ?n]) data (w\<lparr>fs := f1\<rparr>) = (Inr (), w\<lparr>fs := f2\<rparr>)"
    "fs_wf f2" "\<forall>q. fs_get f2 q = (if q = ?D @ [?n] then Some (FileN data 384) else fs_get f1 q)"
    using AtomicWrite_quiet [of "w\<lparr>fs := f1\<rparr>" ?n "collectedDir c" data] h wf1 f1(3) by auto
  have wr: "collector_write c data t (w\<lparr>fs := f1\<rparr>) = (Inr (), w\<lparr>fs := f2\<rparr>)"
    using f2(1) by (simp add: collector_write_def on_error_def report_name_def const_defs)
  have d2: "is_dir_at f2 ?D" using f1(3) f2(3) by (simp add: is_dir_at_def)
  have c2: "file_content f2 q = (if q = ?D @ [?n] then Some data else file_content (fs w) q)" for q
    using f2(3) adds_dirs_content [OF f1(2), of q] by (simp add: file_content_def)
  have "length (reports_in f2 (collectedDir c)) \<le> Suc (length (reports_in (fs w) (collectedDir c)))"
    using h f2(2) c2 by (intro reports_in_new_file [of _ _ ?n]) (auto simp: is_file_content)
  then have "Cleanup (collectedDir c) (c_maxReports c) (w\<lparr>fs := f2\<rparr>) = (Inr (), w\<lparr>fs := f2\<rparr>)"
    using h f2(2) d2 by (intro Cleanup_few) (auto simp: report_dir_def)
  then show ?thesis using f1(1) wr f2(2) d2 c2
    by (intro exI [of _ f2]) (simp add: bindE_def on_error_def)
qed

lemma Write_quiet:
  assumes "can_store w c (report_time c ins)" "cons (c_source c) w = (Inr consent, w)"
    and "\<not> has_duplicate (fs w) c (report_time c ins) period"
  shows "\<exists>f'. Write cons c ins period False False w = (Inr (), w\<lparr>fs := f'\<rparr>) \<and> fs_wf f' \<and>
    is_dir_at f' (resolve (collectedDir c)) \<and>
    (\<forall>q. file_content f' q =
       (if q = resolve (collectedDir c) @ [report_name (report_time c ins)]
        then Some (report_data consent ins) else file_content (fs w) q))"
proof -
  have "collector_duplicateExists c (report_time c ins) period w = (Inr False, w)"
    using collector_duplicateExists_quiet [of w c "report_time c ins" period] assms(1,3)
    by (simp add: can_store_def)
  then have "handleDuplicates c False False (report_time c ins) period w = (Inr (), w)"
    by (simp add: handleDuplicates_def bindE_def)
  then have "Write cons c ins period False False w =
    on_error (ErrorfW ''insights write failed'')
      (bindE (on_error (\<lambda>_. Errorf ''failed to create directories'') (collector_makeDirs c)) (\<lambda>_.
       bindE (on_error (\<lambda>_. Errorf ''failed to write insights report'')
         (collector_write c (report_data consent ins) (report_time c ins))) (\<lambda>_.
      on_error (\<lambda>_. Errorf ''failed to clean up old reports'')
        (Cleanup (collectedDir c) (c_maxReports c))))) w"
    using assms(2)
    unfolding Write_def Let_def report_time_def [symmetric] report_data_def [symmetric]
    by (simp only: on_error_apply bindE_apply prod.case sum.case if_False)
  then show ?thesis
    using store_quiet [OF assms(1), of "report_data consent ins"] by (auto simp: on_error_def)
qed

section \<open>A concrete instance\<close>

definition example_collector :: collector where
  "example_collector =
     \<lparr>c_source = ''s'', collectedDir = ''c/s/local'', uploadedDir = ''c/s/uploaded'',
      sourceMetricsPath = [], sourceMetricsJSON = None, c_maxReports = 150, c_time = 42\<rparr>"

definition example_insights :: insights where
  "example_insights =
     \<lparr>InsightsVersion = ''Dev'', CollectionTime = 0,
      SysInfo = \<lparr>Hardware = JObj [], Software = JObj [], Platform = None\<rparr>, SourceMetrics = None\<rparr>"

definition example_disk :: os where
  "example_disk =
     \<lparr>fs = [([''c''], DirN 493), ([''c'', ''s''], DirN 493), ([''c'', ''s'', ''uploaded''], DirN 493),
            ([''c'', ''s'', ''uploaded'', ''30.json''], FileN ''{}'' 384)], faults = [], seed = 0\<rparr>"

definition example_consent_fn :: "bool \<Rightarrow> string \<Rightarrow> (os, bool) io" where
  "example_consent_fn b s = ret b"

lemma example_consent_fn_reads: "framed (fs_rel (=)) (example_consent_fn b s)"
  by (simp add: example_consent_fn_def same_intros del: ret_apply)

section \<open>Properties\<close>

text \<open>C5: without consent nothing that was collected reaches the disk. Whatever system calls
  fail, if the consent of the source is never granted, every content a file has after \<open>Write\<close>
  some file had before, or it is the opt-out payload, or empty (a temporary file not yet
  written).\<close>

theorem Write_respects_consent:
  assumes "framed (fs_rel (=)) (cons (c_source c))" "\<And>w. fst (cons (c_source c) w) \<noteq> Inr True"
    and "Write cons c ins period force dry w = (res, w')"
    and "file_content (fs w') q = Some d"
  shows "d = OptOutPayload \<or> d = [] \<or> (\<exists>q'. file_content (fs w) q' = Some d)"
proof -
  have "b = False" if "cons (c_source c) w1 = (Inr b, w2)" for b w1 w2
    using assms(2) [of w1] that by (cases b) auto
  then have "framed (fs_rel (adds_content {OptOutPayload, []})) (Write cons c ins period force dry)"
    using assms(1) by (intro disk_Write) auto
  then have "contents (fs w') \<subseteq> contents (fs w) \<union> {OptOutPayload, []}"
    using disk.frame_elim assms(3) by (fastforce simp: fs_rel_def adds_content_def)
  then show ?thesis using assms(4) by (auto simp: contents_def)
qed

theorem Write_respects_consent_witness:
  "let w' = snd (Write (example_consent_fn False) example_collector example_insights 5 False False example_disk) in
   file_content (fs w') [''c'', ''s'', ''local'', ''42.json''] = Some OptOutPayload \<and>
   (OptOutPayload = OptOutPayload \<or> OptOutPayload = [] \<or>
     (\<exists>q'. file_content (fs example_disk) q' = Some OptOutPayload))"
proof -
  let ?r = "Write (example_consent_fn False) example_collector example_insights 5 False False example_disk"
  have f: "file_content (fs (snd ?r)) [''c'', ''s'', ''local'', ''42.json''] = Some OptOutPayload"
    by code_simp
  have n: "fst (example_consent_fn False (c_source example_collector) w) \<noteq> Inr True" for w
    by (simp add: example_consent_fn_def)
  have "OptOutPayload = OptOutPayload \<or> OptOutPayload = [] \<or>
     (\<exists>q'. file_content (fs example_disk) q' = Some OptOutPayload)"
    by (rule Write_respects_consent [OF example_consent_fn_reads n surjective_pairing f])
  with f show ?thesis by (simp only: Let_def simp_thms)
qed

text \<open>\<open>Write\<close> stores one report. Without faults and without an earlier report in the
  period, in the collected or the uploaded directory, it succeeds; the file named by the
  collection time (or the collector's time when there is none) holds the encoded insights with
  consent and the opt-out payload without; no other file changes.\<close>

theorem Write_stores:
  assumes "can_store w c (report_time c ins)" "cons (c_source c) w = (Inr consent, w)"
    and "\<not> has_duplicate (fs w) c (report_time c ins) period"
  shows "\<exists>f'. Write cons c ins period False False w = (Inr (), w\<lparr>fs := f'\<rparr>) \<and>
    (\<forall>q. file_content f' q =
       (if q = resolve (collectedDir c) @ [report_name (report_time c ins)]
        then Some (report_data consent ins) else file_content (fs w) q))"
  using Write_quiet [of w c ins cons consent period] assms by blast

theorem Write_stores_witness:
  "\<exists>f'. Write (example_consent_fn True) example_collector example_insights 5 False False example_disk
      = (Inr (), example_disk\<lparr>fs := f'\<rparr>) \<and>
    (\<forall>q. file_content f' q =
       (if q = resolve (collectedDir example_collector)
            @ [report_name (report_time example_collector example_insights)]
        then Some (report_data True example_insights) else file_content (fs example_disk) q))"
  by (rule Write_stores) code_simp+



text \<open>A dry run of \<open>Write\<close> leaves the file system as it is, whatever system calls fail and
  even when it would clear reports.\<close>

theorem Write_dry_run:
  assumes "framed (fs_rel (=)) (cons (c_source c))" "Write cons c ins period force True w = (res, w')"
  shows "fs w' = fs w"
proof -
  have "framed (fs_rel (=)) (Write cons c ins period force True)"
    unfolding Write_def Let_def
    by (auto intro!: same_intros assms(1) same_handleDuplicates simp del: ret_apply)
  then show ?thesis using assms(2) by (rule framed_same)
qed

theorem Write_dry_run_witness:
  "fs (snd (Write (example_consent_fn True) example_collector example_insights 12 True True example_disk))
     = fs example_disk"
  by (rule Write_dry_run [OF example_consent_fn_reads surjective_pairing])

end
