(* ===== verification/Go_Regexp.thy ===== *)
theory Go_Regexp
  imports Go_Strings
begin

text \<open>
  The regular expressions of Go's \<open>regexp\<close> package as far as the collectors use them: classes,
  sequences, alternatives, greedy and lazy repetition, capturing groups and the anchors, with and
  without the multi-line flag. A match is the leftmost one, and among those the one a
  backtracking search finds first; so running an expression gives the list of all ways to match
  at a place in the order of preference. Strings are matched byte by byte, which for the
  expressions of the source finds the same groups as going by characters.
\<close>

section \<open>Expressions\<close>

datatype rx =
    RChr "char \<Rightarrow> bool"
  | REps
  | RSeq rx rx
  | RAlt rx rx
  | RStar bool rx
  | RGrp nat rx
  | RBegin bool
  | REnd bool

definition newline :: char where "newline = CHR 0x0A"

text \<open>The class \<open>\s\<close>, which lacks the vertical tab, and \<open>.\<close>.\<close>

definition rx_space :: "char \<Rightarrow> bool" where
  "rx_space c = (c \<in> {CHR '' '', CHR 0x09, CHR 0x0A, CHR 0x0C, CHR 0x0D})"

definition rx_dot :: "char \<Rightarrow> bool" where
  "rx_dot c = (c \<noteq> newline)"

definition rx_plus :: "rx \<Rightarrow> rx" where
  "rx_plus r = RSeq r (RStar True r)"

definition rx_opt :: "rx \<Rightarrow> rx" where
  "rx_opt r = RAlt r REps"

definition rx_lit :: "string \<Rightarrow> rx" where
  "rx_lit s = foldr (\<lambda>c r. RSeq (RChr (\<lambda>x. x = c)) r) s REps"

definition rx_seq :: "rx list \<Rightarrow> rx" where
  "rx_seq rs = foldr RSeq rs REps"

section \<open>Matching\<close>

text \<open>A place in the text is the byte before it and the text after it; the groups captured so far
  come with it, the latest first.\<close>

type_synonym rx_place = "char option \<times> string \<times> (nat \<times> string) list"

function rx_run :: "rx \<Rightarrow> rx_place \<Rightarrow> rx_place list" where
  "rx_run (RChr P) (p, s, c) = (case s of [] \<Rightarrow> [] | x # xs \<Rightarrow> if P x then [(Some x, xs, c)] else [])"
| "rx_run REps st = [st]"
| "rx_run (RSeq r1 r2) st = concat (map (rx_run r2) (rx_run r1 st))"
| "rx_run (RAlt r1 r2) st = rx_run r1 st @ rx_run r2 st"
| "rx_run (RStar greedy r) (p, s, c) =
     (let more = concat (map (\<lambda>st. if length (fst (snd st)) < length s then rx_run (RStar greedy r) st else [])
                   (rx_run r (p, s, c))) in
      if greedy then more @ [(p, s, c)] else (p, s, c) # more)"
| "rx_run (RGrp n r) (p, s, c) =
     map (\<lambda>(p', s', c'). (p', s', (n, take (length s - length s') s) # c')) (rx_run r (p, s, c))"
| "rx_run (RBegin multi) (p, s, c) =
     (if p = None \<or> multi \<and> p = Some newline then [(p, s, c)] else [])"
| "rx_run (REnd multi) (p, s, c) =
     (if s = [] \<or> multi \<and> hd s = newline then [(p, s, c)] else [])"
  by pat_completeness auto
termination
  by (relation "measures [\<lambda>(r, _). size r, \<lambda>(_, st). length (fst (snd st))]") auto

text \<open>The leftmost match: the text skipped, the text matched, the groups, and the place after.\<close>

fun rx_search :: "rx \<Rightarrow> char option \<Rightarrow> string \<Rightarrow> (string \<times> string \<times> (nat \<times> string) list \<times> char option \<times> string) option" where
  "rx_search r p s =
     (case rx_run r (p, s, []) of
        (p', s', c) # _ \<Rightarrow> Some ([], take (length s - length s') s, c, p', s')
      | [] \<Rightarrow> (case s of [] \<Rightarrow> None
               | x # xs \<Rightarrow> map_option (\<lambda>(skip, rest). (x # skip, rest)) (rx_search r (Some x) xs)))"

declare rx_search.simps [simp del]

definition match_string :: "rx \<Rightarrow> string \<Rightarrow> bool" where
  "match_string r s = (rx_search r None s \<noteq> None)"

text \<open>\<open>FindStringSubmatch\<close>: the groups by number; one that took no part is empty.\<close>

definition group :: "(nat \<times> string) list \<Rightarrow> nat \<Rightarrow> string" where
  "group c n = (case map_of c n of None \<Rightarrow> [] | Some t \<Rightarrow> t)"

definition find_submatch :: "rx \<Rightarrow> string \<Rightarrow> (nat \<Rightarrow> string) option" where
  "find_submatch r s = map_option (\<lambda>(_, _, c, _). group c) (rx_search r None s)"

text \<open>All matches from left to right with the text before each, and the text after the last. None
  of the expressions matches the empty string, so each match shortens the text.\<close>

fun find_all_from :: "nat \<Rightarrow> rx \<Rightarrow> char option \<Rightarrow> string \<Rightarrow> (string \<times> (nat \<times> string) list) list \<times> string" where
  "find_all_from 0 r p s = ([], s)"
| "find_all_from (Suc n) r p s =
     (case rx_search r p s of
        None \<Rightarrow> ([], s)
      | Some (skip, m, c, p', s') \<Rightarrow>
          (case find_all_from n r p' s' of (ms, tail) \<Rightarrow> ((skip, c) # ms, tail)))"

definition find_all :: "rx \<Rightarrow> string \<Rightarrow> (string \<times> (nat \<times> string) list) list \<times> string" where
  "find_all r s = find_all_from (length s) r None s"

definition find_all_submatch :: "rx \<Rightarrow> string \<Rightarrow> (nat \<Rightarrow> string) list" where
  "find_all_submatch r s = map (\<lambda>(_, c). group c) (fst (find_all r s))"

definition rx_split :: "rx \<Rightarrow> string \<Rightarrow> string list" where
  "rx_split r s = (case find_all r s of (ms, tail) \<Rightarrow> map fst ms @ [tail])"

text \<open>\<open>ReplaceAllString\<close> with the empty string.\<close>

definition rx_delete :: "rx \<Rightarrow> string \<Rightarrow> string" where
  "rx_delete r s = concat (rx_split r s)"

end
