(* ===== verification/Cmdutils.thy ===== *)
theory Cmdutils
  imports Fileutils Go_Json Go_Regexp
begin

text \<open>
  The machine the collectors look at, the package \<open>cmdutils\<close> that runs commands on it, and the
  decoding of JSON into the structs of the collectors (\<open>fileutils.ParseJSON\<close>). The machine is the
  file system of the model, extended by the answers to what the file system cannot tell: the
  commands (which may answer differently each time they are run) and the symbolic links.
\<close>

section \<open>The machine\<close>

record cmd_out =
  stdout :: string
  stderr :: string
  cmd_err :: "go_error option"

text \<open>A command is run with its time limit in seconds, its environment and its arguments; the first
  argument counts the commands run before it.\<close>

record machine = os +
  m_exec :: "nat \<Rightarrow> int option \<Rightarrow> string list \<Rightarrow> string list \<Rightarrow> cmd_out"
  m_environ :: "string list"
  m_runs :: nat
  m_eval_symlinks :: "string \<Rightarrow> go_error + string"
  m_readlink :: "string \<Rightarrow> go_error + string"

text \<open>Calls that cannot fail.\<close>

definition bindP :: "('s \<Rightarrow> 'a \<times> 's) \<Rightarrow> ('a \<Rightarrow> 's \<Rightarrow> 'b \<times> 's) \<Rightarrow> 's \<Rightarrow> 'b \<times> 's" where
  "bindP m k w = (case m w of (x, w') \<Rightarrow> k x w')"

definition retP :: "'a \<Rightarrow> 's \<Rightarrow> 'a \<times> 's" where
  "retP x w = (x, w)"

section \<open>Running commands\<close>

definition Run :: "int option \<Rightarrow> string list \<Rightarrow> 'z machine_scheme \<Rightarrow> cmd_out \<times> 'z machine_scheme" where
  "Run deadline argv w =
     (m_exec w (m_runs w) deadline (m_environ w @ [''LANG=C'', ''LC_ALL=C'', ''LANGUAGE=C'']) argv,
      w\<lparr>m_runs := Suc (m_runs w)\<rparr>)"

definition RunWithTimeout :: "int \<Rightarrow> string list \<Rightarrow> 'z machine_scheme \<Rightarrow> cmd_out \<times> 'z machine_scheme" where
  "RunWithTimeout timeout argv = Run (Some timeout) argv"

definition rx_cr_nl :: rx where
  "rx_cr_nl = RSeq (rx_opt (rx_lit [CHR 0x0D])) (rx_lit [newline])"

definition listEntryRegex :: rx where
  "listEntryRegex = rx_seq
     [RBegin True, RStar True (RChr rx_space), RGrp 1 (rx_plus (RChr (\<lambda>c. \<not> rx_space c))),
      RStar True (RChr rx_space), rx_lit '':'', RStar True (RChr (\<lambda>c. rx_space c \<and> c \<noteq> newline)),
      RGrp 2 (RStar False (RChr rx_dot)), RStar True (RChr rx_space), REnd True]"

definition listReplaceRegex :: rx where
  "listReplaceRegex = RSeq rx_cr_nl (RStar True (RChr rx_space))"

definition listSplitRegex :: rx where
  "listSplitRegex = RSeq rx_cr_nl rx_cr_nl"

text \<open>A section becomes the map of its entries: a later entry with the same key wins.\<close>

definition list_section :: "string list option \<Rightarrow> string \<Rightarrow> (string \<times> string) list option" where
  "list_section keep section =
     (case find_all_submatch listEntryRegex section of
        [] \<Rightarrow> None
      | es \<Rightarrow> Some (fold (\<lambda>e v.
          if (case keep of None \<Rightarrow> True | Some ks \<Rightarrow> e 1 \<in> set ks)
          then AList.update (e 1) (rx_delete listReplaceRegex (e 2)) v else v) es []))"

definition RunListFmt ::
    "string list \<Rightarrow> string list option \<Rightarrow> ('z machine_scheme, (string \<times> string) list list) io" where
  "RunListFmt args keep w =
     (if keep = Some [] then (Inl (Errorf ''empty filter will always produce nothing''), w)
      else case RunWithTimeout 15 args w of (out, w') \<Rightarrow>
        (case cmd_err out of
           Some e \<Rightarrow> (Inl e, w')
         | None \<Rightarrow>
            (let sections = filter (\<lambda>s. s \<noteq> []) (rx_split listSplitRegex (stdout out));
                 res = List.map_filter (list_section keep) sections in
             if res = [] then (Inl (Errorf ''output contained no sections''), w') else (Inr res, w'))))"

section \<open>Decoding structs\<close>

text \<open>
  \<open>json.Unmarshal\<close> into a struct: the keys of a field are compared without regard to case, unknown
  keys are skipped, and a value of the wrong type is an error. \<open>dec v cur\<close> decodes a value into a
  field that holds \<open>cur\<close>; a repeated key decodes again.
\<close>

fun decode_field :: "string \<Rightarrow> (json \<Rightarrow> 'a \<Rightarrow> 'a option) \<Rightarrow> 'a \<Rightarrow> (string \<times> json) list \<Rightarrow> 'a option" where
  "decode_field name dec cur [] = Some cur"
| "decode_field name dec cur ((k, v) # kvs) =
     (if to_lower k = to_lower name
      then (case dec v cur of None \<Rightarrow> None | Some x \<Rightarrow> decode_field name dec x kvs)
      else decode_field name dec cur kvs)"

lemma decode_field_same:
  "(\<And>k v x. (k, v) \<in> set kvs \<Longrightarrow> dec v x = dec' v x) \<Longrightarrow> decode_field name dec cur kvs = decode_field name dec' cur kvs"
proof (induction kvs arbitrary: cur)
  case (Cons kv kvs)
  obtain k v where kv: "kv = (k, v)" by fastforce
  have "dec v cur = dec' v cur" using Cons.prems [of k v] kv by simp
  moreover have "decode_field name dec x kvs = decode_field name dec' x kvs" for x
    using Cons.IH Cons.prems by (metis list.set_intros(2))
  ultimately show ?case using kv by (simp split: option.split)
qed simp

lemma decode_field_cong [fundef_cong]:
  "name = name' \<Longrightarrow> cur = cur' \<Longrightarrow> kvs = kvs' \<Longrightarrow> (\<And>k v x. (k, v) \<in> set kvs' \<Longrightarrow> dec v x = dec' v x) \<Longrightarrow>
   decode_field name dec cur kvs = decode_field name' dec' cur' kvs'"
  using decode_field_same [of kvs dec dec' name cur] by blast

definition dec_string :: "json \<Rightarrow> string \<Rightarrow> string option" where
  "dec_string v cur = (case v of JStr s \<Rightarrow> Some s | JNull \<Rightarrow> Some cur | _ \<Rightarrow> None)"

definition dec_bool :: "json \<Rightarrow> bool \<Rightarrow> bool option" where
  "dec_bool v cur = (case v of JBool b \<Rightarrow> Some b | JNull \<Rightarrow> Some cur | _ \<Rightarrow> None)"

definition dec_struct :: "((string \<times> json) list \<Rightarrow> 'a \<Rightarrow> 'a option) \<Rightarrow> json \<Rightarrow> 'a \<Rightarrow> 'a option" where
  "dec_struct f v cur = (case v of JObj kvs \<Rightarrow> f kvs cur | JNull \<Rightarrow> Some cur | _ \<Rightarrow> None)"

text \<open>A slice of structs; a null element is the zero value, which \<open>dec JNull\<close> gives.\<close>

definition dec_slice :: "(json \<Rightarrow> 'a option) \<Rightarrow> json \<Rightarrow> 'a list \<Rightarrow> 'a list option" where
  "dec_slice dec v cur = (case v of JArr xs \<Rightarrow> those (map dec xs) | JNull \<Rightarrow> Some [] | _ \<Rightarrow> None)"

lemma dec_slice_cong [fundef_cong]:
  "v = v' \<Longrightarrow> cur = cur' \<Longrightarrow> (\<And>xs x. v' = JArr xs \<Longrightarrow> x \<in> set xs \<Longrightarrow> dec x = dec' x) \<Longrightarrow>
   dec_slice dec v cur = dec_slice dec' v' cur'"
  by (auto simp: dec_slice_def split: json.split intro!: arg_cong [where f = those])

definition ParseJSON :: "(json \<Rightarrow> 'a option) \<Rightarrow> string \<Rightarrow> go_error + 'a" where
  "ParseJSON dec data =
     (case Option.bind (json_parse data) dec of
        None \<Rightarrow> Inl (Errorf ''couldn't parse JSON'')
      | Some x \<Rightarrow> Inr x)"

text \<open>A list of structs, or a single struct as a list of one.\<close>

definition UnmarshalJSON :: "(json \<Rightarrow> 'a option) \<Rightarrow> string \<Rightarrow> go_error + 'a list" where
  "UnmarshalJSON dec data =
     (case Option.bind (json_parse data) (\<lambda>v. dec_slice dec v []) of
        Some xs \<Rightarrow> Inr xs
      | None \<Rightarrow>
         (case Option.bind (json_parse data) dec of
            None \<Rightarrow> Inl (Errorf ''couldn't parse JSON'')
          | Some x \<Rightarrow> Inr [x]))"

end
