(* ===== verification/Platform_Linux.thy ===== *)
theory Platform_Linux
  imports Cmdutils
begin

text \<open>
  The package \<open>collector/sysinfo/platform\<close> on Linux: detection of the Windows subsystem, the desktop
  session and the state of Ubuntu Pro. The D-Bus connection, the environment and the decoders of
  UTF-16 and of ini files are not part of the repository: like the injected functions of
  \<open>platformOptions\<close> they are fields of the options.
\<close>

section \<open>Data\<close>

record WSL =
  SubsystemVersion :: int
  Systemd :: string
  Interop :: string
  Version :: string
  KernelVersion :: string

record Desktop =
  DesktopEnvironment :: string
  SessionName :: string
  SessionType :: string

record platform_info =
  pi_WSL :: WSL
  pi_Desktop :: Desktop
  ProAttached :: bool

definition no_wsl :: WSL where
  "no_wsl = \<lparr>SubsystemVersion = 0, Systemd = [], Interop = [], Version = [], KernelVersion = []\<rparr>"

definition no_desktop :: Desktop where
  "no_desktop = \<lparr>DesktopEnvironment = [], SessionName = [], SessionType = []\<rparr>"

definition no_platform :: platform_info where
  "no_platform = \<lparr>pi_WSL = no_wsl, pi_Desktop = no_desktop, ProAttached = False\<rparr>"

text \<open>The value of a D-Bus property, whose type the caller tests.\<close>

datatype variant = VBool bool | VOther

text \<open>The connector gives an error or a connection, which answers the question for a property of
  an object of a destination.\<close>

record platform_options =
  pl_root :: string
  detectVirtCmd :: "string list"
  systemdAnalyzeCmd :: "string list"
  wslVersionCmd :: "string list"
  proStatusCmd :: "string list"
  proDBusConnector :: "go_error + (string \<Rightarrow> string \<Rightarrow> string \<Rightarrow> go_error + variant)"
  getenv :: "string \<Rightarrow> string"
  utf16_decode :: "string \<Rightarrow> string option"
  ini_interop_enabled :: "string \<Rightarrow> go_error + (go_error + bool)"

definition defaultPlatformOptions ::
    "(go_error + (string \<Rightarrow> string \<Rightarrow> string \<Rightarrow> go_error + variant)) \<Rightarrow> (string \<Rightarrow> string) \<Rightarrow> (string \<Rightarrow> string option) \<Rightarrow>
     (string \<Rightarrow> go_error + (go_error + bool)) \<Rightarrow> platform_options" where
  "defaultPlatformOptions connectSystemBus env utf16 ini =
     \<lparr>pl_root = ''/'', detectVirtCmd = [''systemd-detect-virt''],
      systemdAnalyzeCmd = [''systemd-analyze'', ''time'', ''--system''], wslVersionCmd = [''wsl.exe'', ''-v''],
      proStatusCmd = [''pro'', ''api'', ''u.pro.status.is_attached.v1''],
      proDBusConnector = connectSystemBus, getenv = env, utf16_decode = utf16, ini_interop_enabled = ini\<rparr>"

definition proDBusDest :: string where "proDBusDest = ''com.canonical.UbuntuAdvantage''"
definition proDBusPath :: string where "proDBusPath = ''/com/canonical/UbuntuAdvantage/Manager''"
definition proDBusIface :: string where "proDBusIface = ''com.canonical.UbuntuAdvantage.Manager''"
definition proDBusProp :: string where "proDBusProp = proDBusIface @ ''.Attached''"

section \<open>The Windows subsystem\<close>

definition isWSL :: "platform_options \<Rightarrow> 'z machine_scheme \<Rightarrow> bool \<times> 'z machine_scheme" where
  "isWSL p w =
     (case RunWithTimeout 15 (detectVirtCmd p) w of (out, w') \<Rightarrow>
        if cmd_err out \<noteq> None then (False, w') else (contains_str (stdout out) ''wsl'', w'))"

definition getWSLSubsystemVersion :: "platform_options \<Rightarrow> 'z machine_scheme \<Rightarrow> int \<times> 'z machine_scheme" where
  "getWSLSubsystemVersion p =
     bindP (isWSL p) (\<lambda>wsl.
       if \<not> wsl then retP 0
       else bindP (ReadFileLogError (path_join [pl_root p, ''proc/version''])) (\<lambda>kVersion.
         retP (if contains_str kVersion ''-Microsoft (Microsoft@Microsoft.com)'' then 1 else 2)))"

text \<open>\<open>strings.Fields\<close>.\<close>

function string_fields :: "string \<Rightarrow> string list" where
  "string_fields s =
     (let t = dropWhile is_space s in
      if t = [] then []
      else takeWhile (\<lambda>c. \<not> is_space c) t # string_fields (dropWhile (\<lambda>c. \<not> is_space c) t))"
  by pat_completeness auto
termination
proof (relation "measure length")
  fix s t :: string
  assume t: "t = dropWhile is_space s" "t \<noteq> []"
  then have "\<not> is_space (hd t)" using hd_dropWhile by metis
  then have "length (dropWhile (\<lambda>c. \<not> is_space c) t) < length t"
    using t(2) by (cases t) (simp_all add: length_dropWhile_le less_Suc_eq_le)
  also have "length t \<le> length s" using t(1) by (simp add: length_dropWhile_le)
  finally show "(dropWhile (\<lambda>c. \<not> is_space c) t, s) \<in> measure length" by simp
qed simp

declare string_fields.simps [simp del]

definition getKernelVersion :: "platform_options \<Rightarrow> 'z machine_scheme \<Rightarrow> string \<times> 'z machine_scheme" where
  "getKernelVersion p =
     bindP (ReadFileLogError (path_join [pl_root p, ''proc/version''])) (\<lambda>k.
       retP (if length (string_fields k) < 3 then [] else string_fields k ! 2))"

definition wasSystemdUsed :: "platform_options \<Rightarrow> 'z machine_scheme \<Rightarrow> bool \<times> 'z machine_scheme" where
  "wasSystemdUsed p w =
     (case RunWithTimeout 15 (systemdAnalyzeCmd p) w of (out, w') \<Rightarrow>
        if contains_str (stderr out) ''System has not been booted with systemd as init system'' then (False, w')
        else if cmd_err out \<noteq> None then (False, w')
        else if stdout out = [] then (False, w')
        else (contains_str (stdout out) ''Startup finished in'', w'))"

text \<open>The file \<open>wsl.conf\<close> is read by \<open>ini.Load\<close>, whose error tells whether it exists; then its key
  \<open>enabled\<close> is read as a truth value.\<close>

definition interopEnabled :: "platform_options \<Rightarrow> 'z machine_scheme \<Rightarrow> bool \<times> 'z machine_scheme" where
  "interopEnabled p =
     bindP (getWSLSubsystemVersion p) (\<lambda>v.
       if v = 0 then retP False
       else bindP (os_read_file (path_join [pl_root p, ''etc/wsl.conf''])) (\<lambda>res.
         retP (case res of
             Inl e \<Rightarrow> os_is_not_exist e
           | Inr content \<Rightarrow>
               (case ini_interop_enabled p content of
                  Inl _ \<Rightarrow> False
                | Inr (Inl _) \<Rightarrow> True
                | Inr (Inr b) \<Rightarrow> b))))"

definition getWSLRegex :: "string \<Rightarrow> rx" where
  "getWSLRegex entry = rx_seq
     [RBegin True, RStar True (RChr rx_space), RStar True (RChr rx_dot), rx_lit entry, RStar True (RChr rx_space),
      RStar True (RChr rx_dot),
      RAlt (RChr (\<lambda>c. c = CHR '':'' \<or> c = CHR 0x7C)) (rx_lit [CHR 0xEF, CHR 0xBC, CHR 0x9A]),
      rx_plus (RChr rx_space), RGrp 1 (rx_plus (RChr (\<lambda>c. \<not> rx_space c))), RStar True (RChr rx_space), REnd True]"

definition wsl_version :: "platform_options \<Rightarrow> string \<Rightarrow> string" where
  "wsl_version p out =
     (case utf16_decode p out of
        None \<Rightarrow> []
      | Some decoded \<Rightarrow>
          (case find_all_submatch (getWSLRegex ''WSL'') (trim_space decoded) of
             [] \<Rightarrow> []
           | m # _ \<Rightarrow> m 1))"

definition collectWSL :: "platform_options \<Rightarrow> 'z machine_scheme \<Rightarrow> WSL \<times> 'z machine_scheme" where
  "collectWSL p =
     bindP (getWSLSubsystemVersion p) (\<lambda>v.
       if v = 0 then retP no_wsl
       else bindP (getKernelVersion p) (\<lambda>k.
         bindP (wasSystemdUsed p) (\<lambda>sd.
         bindP (interopEnabled p) (\<lambda>io.
           let info = \<lparr>SubsystemVersion = v, Systemd = (if sd then ''used'' else ''not used''),
                 Interop = (if io then ''enabled'' else ''disabled''), Version = [], KernelVersion = k\<rparr> in
           if \<not> io then retP info
           else bindP (RunWithTimeout 15 (wslVersionCmd p)) (\<lambda>out.
             retP (if cmd_err out \<noteq> None then info else info\<lparr>Version := wsl_version p (stdout out)\<rparr>))))))"

section \<open>Desktop and Ubuntu Pro\<close>

definition getDesktop :: "platform_options \<Rightarrow> Desktop" where
  "getDesktop p = \<lparr>DesktopEnvironment = getenv p ''XDG_CURRENT_DESKTOP'',
     SessionName = getenv p ''XDG_SESSION_DESKTOP'', SessionType = getenv p ''XDG_SESSION_TYPE''\<rparr>"

definition isProAttachedDBus :: "platform_options \<Rightarrow> go_error + bool" where
  "isProAttachedDBus p =
     (case proDBusConnector p of
        Inl e \<Rightarrow> Inl (Errorf ''failed to connect to system bus'')
      | Inr getProperty \<Rightarrow>
          (case getProperty proDBusDest proDBusPath proDBusProp of
             Inl e \<Rightarrow> Inl (Errorf ''failed to get property'')
           | Inr (VBool b) \<Rightarrow> Inr b
           | Inr VOther \<Rightarrow> Inl (Errorf ''unexpected type for property'')))"

definition decode_pro_status :: "json \<Rightarrow> bool option" where
  "decode_pro_status v =
     dec_struct (\<lambda>kvs b. decode_field ''Data''
       (dec_struct (\<lambda>kvs b. decode_field ''Attributes''
         (dec_struct (\<lambda>kvs b. decode_field ''is_attached'' dec_bool b kvs)) b kvs)) b kvs) v False"

definition isProAttachedCLI :: "platform_options \<Rightarrow> ('z machine_scheme, bool) io" where
  "isProAttachedCLI p w =
     (case RunWithTimeout 15 (proStatusCmd p) w of (out, w') \<Rightarrow>
        (case cmd_err out of
           Some e \<Rightarrow> (Inl (Errorf ''failed to run pro api''), w')
         | None \<Rightarrow> (ParseJSON decode_pro_status (stdout out), w')))"

definition isProAttached :: "platform_options \<Rightarrow> 'z machine_scheme \<Rightarrow> bool \<times> 'z machine_scheme" where
  "isProAttached p =
     (case isProAttachedDBus p of
        Inr b \<Rightarrow> retP b
      | Inl _ \<Rightarrow> bindP (isProAttachedCLI p) (\<lambda>res. retP (case res of Inl _ \<Rightarrow> False | Inr b \<Rightarrow> b)))"

section \<open>Collecting\<close>

definition collectPlatform :: "platform_options \<Rightarrow> ('z machine_scheme, platform_info) io" where
  "collectPlatform p =
     bindP (collectWSL p) (\<lambda>wsl.
       let desktop = (if SubsystemVersion wsl = 0 then getDesktop p else no_desktop) in
       bindP (isProAttached p) (\<lambda>attached.
         retP (Inr \<lparr>pi_WSL = wsl, pi_Desktop = desktop, ProAttached = attached\<rparr>)))"

definition platform_Collect :: "platform_options \<Rightarrow> ('z machine_scheme, platform_info) io" where
  "platform_Collect p = collectPlatform p"

text \<open>The JSON of the structs, with the fields omitted that are empty.\<close>

definition omitempty :: "string \<Rightarrow> string \<Rightarrow> (string \<times> json) list" where
  "omitempty k s = (if s = [] then [] else [(k, JStr s)])"

definition wsl_json :: "WSL \<Rightarrow> json" where
  "wsl_json x = JObj ((if SubsystemVersion x = 0 then [] else [(''subsystemVersion'', JNum (show_int (SubsystemVersion x)))]) @
     omitempty ''systemd'' (Systemd x) @ omitempty ''interop'' (Interop x) @ omitempty ''version'' (Version x) @
     omitempty ''kernelVersion'' (KernelVersion x))"

definition desktop_json :: "Desktop \<Rightarrow> json" where
  "desktop_json x = JObj (omitempty ''desktopEnvironment'' (DesktopEnvironment x) @
     omitempty ''sessionName'' (SessionName x) @ omitempty ''sessionType'' (SessionType x))"

definition platform_json :: "platform_info \<Rightarrow> json" where
  "platform_json x = JObj ((if pi_WSL x = no_wsl then [] else [(''wsl'', wsl_json (pi_WSL x))]) @
     (if pi_Desktop x = no_desktop then [] else [(''desktop'', desktop_json (pi_Desktop x))]) @
     (if ProAttached x then [(''proAttached'', JBool True)] else []))"

section \<open>Facts\<close>

lemma getWSLSubsystemVersion_range:
  "fst (getWSLSubsystemVersion p w) \<in> {0, 1, 2}"
  by (auto simp: getWSLSubsystemVersion_def bindP_def retP_def split: prod.splits)

lemma collectWSL_version: "SubsystemVersion (fst (collectWSL p w)) \<in> {0, 1, 2}"
  using getWSLSubsystemVersion_range [of p w]
  by (auto simp: collectWSL_def bindP_def retP_def no_wsl_def Let_def split: prod.splits)

lemma collectWSL_none: "SubsystemVersion (fst (collectWSL p w)) = 0 \<Longrightarrow> fst (collectWSL p w) = no_wsl"
  by (auto simp: collectWSL_def bindP_def retP_def Let_def split: prod.splits if_splits)

end
