(* ===== verification/Software_Linux.thy ===== *)
theory Software_Linux
  imports Platform_Linux
begin

text \<open>
  The package \<open>collector/sysinfo/software\<close> on Linux: the distribution from \<open>os-release\<close> or
  \<open>lsb-release\<close>, the language, the time zone and the firmware. The YAML decoder is not part of the
  repository and is a field of the options, beside the injected functions of \<open>platformOptions\<close>.
\<close>

section \<open>Data\<close>

record osInfo =
  Family :: string
  Distro :: string
  os_Version :: string
  Edition :: string

record bios =
  bios_Vendor :: string
  bios_Version :: string

record software_info =
  si_OS :: osInfo
  Timezone :: string
  Lang :: string
  si_Bios :: bios

record software_options =
  sw_root :: string
  langFunc :: "string option"
  snapEnvFunc :: string
  yaml_confinement :: "string \<Rightarrow> string option"
  timezone :: string

definition no_bios :: bios where "no_bios = \<lparr>bios_Vendor = [], bios_Version = []\<rparr>"

definition GOOS :: string where "GOOS = ''linux''"

text \<open>The environment as \<open>os.LookupEnv\<close> sees it.\<close>

definition default_software_options ::
    "(string \<Rightarrow> string option) \<Rightarrow> (string \<Rightarrow> string option) \<Rightarrow> string \<Rightarrow> software_options" where
  "default_software_options env yaml zone =
     \<lparr>sw_root = ''/'', langFunc = env ''LANG'', snapEnvFunc = (case env ''SNAP'' of None \<Rightarrow> [] | Some s \<Rightarrow> s),
      yaml_confinement = yaml, timezone = zone\<rparr>"

section \<open>The distribution\<close>

definition isConfinedSnap :: "(string \<Rightarrow> string option) \<Rightarrow> string \<Rightarrow> 'z machine_scheme \<Rightarrow> bool \<times> 'z machine_scheme" where
  "isConfinedSnap yaml snapDir =
     (if snapDir = [] then retP False
      else bindP (os_read_file (path_join [snapDir, ''meta'', ''snap.yaml''])) (\<lambda>res.
        retP (case res of
            Inl _ \<Rightarrow> False
          | Inr content \<Rightarrow>
              (case yaml content of
                 None \<Rightarrow> False
               | Some confinement \<Rightarrow> confinement = ''strict'' \<or> confinement = ''devmode''))))"

definition osReleaseFields :: "(string \<times> string) list" where
  "osReleaseFields = [(''ID'', ''Distribution ID''), (''NAME'', ''Name''), (''VERSION_ID'', ''Release'')]"

definition lsbReleaseFields :: "(string \<times> string) list" where
  "lsbReleaseFields = [(''DISTRIB_ID'', ''Distribution ID''), (''DISTRIB_RELEASE'', ''Release'')]"

text \<open>\<open>strings.Trim(s, cutset)\<close>.\<close>

definition trim_chars :: "char list \<Rightarrow> string \<Rightarrow> string" where
  "trim_chars cs s = rev (dropWhile (\<lambda>c. c \<in> set cs) (rev (dropWhile (\<lambda>c. c \<in> set cs) s)))"

definition quotes :: "char list" where "quotes = [CHR 0x22, CHR 0x27]"

definition parse_line :: "(string \<times> string) list \<Rightarrow> string \<Rightarrow> (string \<times> string) list \<Rightarrow> (string \<times> string) list" where
  "parse_line fieldMap raw data =
     (let line = trim_space raw in
      if line = [] \<or> has_prefix line ''#'' then data
      else case cut_at (CHR ''='') line of (k, v, ok) \<Rightarrow>
        if \<not> ok then data
        else let key = trim_space k; val = trim_chars quotes (trim_space v) in
          (case map_of fieldMap key of
             None \<Rightarrow> data
           | Some field \<Rightarrow> AList.update field val data))"

definition parseKeyValueFile :: "string \<Rightarrow> (string \<times> string) list \<Rightarrow> (string \<times> string) list" where
  "parseKeyValueFile content fieldMap = fold (parse_line fieldMap) (split_on newline content) []"

text \<open>A Go map index gives the zero value for a missing key.\<close>

definition map_index :: "(string \<times> string) list \<Rightarrow> string \<Rightarrow> string" where
  "map_index m k = (case map_of m k of None \<Rightarrow> [] | Some v \<Rightarrow> v)"

definition collectOSFromLSBRelease :: "string \<Rightarrow> ('z machine_scheme, osInfo) io" where
  "collectOSFromLSBRelease path =
     bindE (on_error (\<lambda>_. Errorf ''failed to read'') (os_read_file path)) (\<lambda>content.
       let data = parseKeyValueFile content lsbReleaseFields in
       if data = [] then throw (Errorf ''contained no usable data'')
       else ret \<lparr>Family = GOOS, Distro = map_index data ''Distribution ID'', os_Version = map_index data ''Release'',
              Edition = []\<rparr>)"

definition to_upper_char :: "char \<Rightarrow> char" where
  "to_upper_char c =
     (let n = of_char c :: nat in if 97 \<le> n \<and> n \<le> 122 then char_of (n - 32) else c)"

definition capitalize :: "string \<Rightarrow> string" where
  "capitalize s = (case s of [] \<Rightarrow> [] | c # cs \<Rightarrow> to_upper_char c # cs)"

definition equal_fold :: "string \<Rightarrow> string \<Rightarrow> bool" where
  "equal_fold s t = (to_lower s = to_lower t)"

definition distro_name :: "(string \<times> string) list \<Rightarrow> string" where
  "distro_name data =
     (let distro = capitalize (map_index data ''Distribution ID'') in
      case map_of data ''Name'' of
        Some name \<Rightarrow> if equal_fold distro name then name else distro
      | None \<Rightarrow> distro)"

definition collectOSFromFile :: "string \<Rightarrow> ('z machine_scheme, osInfo) io" where
  "collectOSFromFile path =
     bindE (on_error (\<lambda>_. Errorf ''failed to read'') (os_read_file path)) (\<lambda>content.
       let data = parseKeyValueFile content osReleaseFields in
       if data = [] then throw (Errorf ''contained no usable data'')
       else ret \<lparr>Family = GOOS, Distro = distro_name data, os_Version = map_index data ''Release'', Edition = []\<rparr>)"

text \<open>The last of the paths that exist.\<close>

fun last_existing :: "string \<Rightarrow> string list \<Rightarrow> 'z machine_scheme \<Rightarrow> string \<times> 'z machine_scheme" where
  "last_existing cur [] w = (cur, w)"
| "last_existing cur (p # ps) w =
     (case os_stat p w of (res, w') \<Rightarrow>
        last_existing (case res of Inl _ \<Rightarrow> cur | Inr _ \<Rightarrow> p) ps w')"

definition release_paths :: "string \<Rightarrow> string list" where
  "release_paths root = map (\<lambda>p. path_join [root, p])
     [''usr/lib/os-release'', ''etc/os-release'', ''var/lib/snapd/hostfs/usr/lib/os-release'',
      ''var/lib/snapd/hostfs/etc/os-release'']"

definition collect_os_release :: "software_options \<Rightarrow> ('z machine_scheme, osInfo) io" where
  "collect_os_release s w =
     (case last_existing [] (release_paths (sw_root s)) w of (path, w') \<Rightarrow>
        if path = [] then (Inl (Errorf ''no os-release file found''), w') else collectOSFromFile path w')"

definition collectOS :: "software_options \<Rightarrow> ('z machine_scheme, osInfo) io" where
  "collectOS s =
     bindP (isConfinedSnap (yaml_confinement s) (snapEnvFunc s)) (\<lambda>confined.
       if \<not> confined then collect_os_release s
       else let lsbPath = path_join [sw_root s, ''etc/lsb-release''] in
         attempt (os_stat lsbPath) (\<lambda>st.
           case st of
             Inl _ \<Rightarrow> collect_os_release s
           | Inr _ \<Rightarrow> attempt (collectOSFromLSBRelease lsbPath) (\<lambda>res.
               case res of Inr info \<Rightarrow> ret info | Inl _ \<Rightarrow> collect_os_release s)))"

section \<open>Language and firmware\<close>

definition collectLang :: "software_options \<Rightarrow> string \<times> go_error option" where
  "collectLang s =
     (case langFunc s of
        None \<Rightarrow> ([], Some (Errorf ''LANG environment variable not set''))
      | Some lang \<Rightarrow> (fst (cut_at (CHR ''.'') lang), None))"

text \<open>A value that spans several lines is dropped.\<close>

definition single_line :: "string \<Rightarrow> string" where
  "single_line s = (if newline \<in> set s then [] else s)"

definition collectBios :: "software_options \<Rightarrow> platform_info \<Rightarrow> 'z machine_scheme \<Rightarrow> bios \<times> 'z machine_scheme" where
  "collectBios s pi =
     (if SubsystemVersion (pi_WSL pi) \<noteq> 0 then retP no_bios
      else bindP (ReadFileLogError (path_join [sw_root s, ''sys/class/dmi/id/bios_vendor''])) (\<lambda>vendor.
        bindP (ReadFileLogError (path_join [sw_root s, ''sys/class/dmi/id/bios_version''])) (\<lambda>version.
          retP \<lparr>bios_Vendor = single_line vendor, bios_Version = single_line version\<rparr>)))"

section \<open>Collecting\<close>

definition software_Collect ::
    "software_options \<Rightarrow> platform_info \<Rightarrow> 'z machine_scheme \<Rightarrow> (go_error option \<times> software_info) \<times> 'z machine_scheme" where
  "software_Collect s pi =
     bindP (collectOS s) (\<lambda>res.
       let os = (case res of
           Inr info \<Rightarrow> info
         | Inl _ \<Rightarrow> \<lparr>Family = GOOS, Distro = [], os_Version = [], Edition = []\<rparr>) in
       bindP (collectBios s pi) (\<lambda>b.
         retP (None, \<lparr>si_OS = os, Timezone = timezone s, Lang = fst (collectLang s), si_Bios = b\<rparr>)))"

definition os_json :: "osInfo \<Rightarrow> json" where
  "os_json x = JObj ([(''family'', JStr (Family x)), (''distribution'', JStr (Distro x)), (''version'', JStr (os_Version x))] @
     omitempty ''edition'' (Edition x))"

definition bios_json :: "bios \<Rightarrow> json" where
  "bios_json x = JObj [(''vendor'', JStr (bios_Vendor x)), (''version'', JStr (bios_Version x))]"

definition no_os :: osInfo where
  "no_os = \<lparr>Family = [], Distro = [], os_Version = [], Edition = []\<rparr>"

definition software_json :: "software_info \<Rightarrow> json" where
  "software_json x = JObj ((if si_OS x = no_os then [] else [(''os'', os_json (si_OS x))]) @
     omitempty ''timezone'' (Timezone x) @ omitempty ''language'' (Lang x) @
     (if si_Bios x = no_bios then [] else [(''bios'', bios_json (si_Bios x))]))"

section \<open>Facts on key-value files\<close>

text \<open>A line as \<open>os-release\<close> has it.\<close>

definition kv_line :: "string \<times> string \<Rightarrow> string" where
  "kv_line kv = fst kv @ ''='' @ [CHR 0x22] @ snd kv @ [CHR 0x22]"

definition kv_key_ok :: "string \<Rightarrow> bool" where
  "kv_key_ok k \<longleftrightarrow> k \<noteq> [] \<and> (\<forall>c\<in>set k. \<not> is_space c \<and> c \<noteq> CHR ''='' \<and> c \<noteq> CHR ''#'')"

definition kv_val_ok :: "string \<Rightarrow> bool" where
  "kv_val_ok v \<longleftrightarrow> newline \<notin> set v \<and>
     (v \<noteq> [] \<longrightarrow> hd v \<notin> set quotes \<and> last v \<notin> set quotes)"

lemma dropWhile_hd: "s \<noteq> [] \<Longrightarrow> \<not> P (hd s) \<Longrightarrow> dropWhile P s = s"
  by (cases s) auto

lemma trim_chars_quoted:
  "v = [] \<or> hd v \<notin> set quotes \<and> last v \<notin> set quotes \<Longrightarrow> trim_chars quotes ([CHR 0x22] @ v @ [CHR 0x22]) = v"
  by (cases "v = []")
     (auto simp: trim_chars_def quotes_def dropWhile_hd hd_rev dropWhile_append1 dropWhile_append3)

lemma trim_space_id: "s \<noteq> [] \<Longrightarrow> \<not> is_space (hd s) \<Longrightarrow> \<not> is_space (last s) \<Longrightarrow> trim_space s = s"
  by (simp add: trim_space_def dropWhile_hd hd_rev)

lemma parse_line_kv:
  assumes "kv_key_ok k" "kv_val_ok v"
  shows "parse_line fm (kv_line (k, v)) data =
    (case map_of fm k of None \<Rightarrow> data | Some field \<Rightarrow> AList.update field v data)"
proof -
  have k: "k \<noteq> []" "\<not> is_space (hd k)" "\<not> is_space (last k)" "CHR ''='' \<notin> set k" "hd k \<noteq> CHR ''#''"
    using assms(1) by (auto simp: kv_key_ok_def)
  have q: "\<not> is_space (CHR 0x22)" by (simp add: is_space_def)
  have line: "trim_space (kv_line (k, v)) = k @ CHR ''='' # ([CHR 0x22] @ v @ [CHR 0x22])"
    using k q by (subst trim_space_id) (simp_all add: kv_line_def)
  have val: "trim_space ([CHR 0x22] @ v @ [CHR 0x22]) = [CHR 0x22] @ v @ [CHR 0x22]"
    using q by (intro trim_space_id) simp_all
  have pre: "\<not> has_prefix (k @ CHR ''='' # ([CHR 0x22] @ v @ [CHR 0x22])) ''#''"
    using k by (cases k) (simp_all add: has_prefix_def)
  have tv: "trim_chars quotes ([CHR 0x22] @ v @ [CHR 0x22]) = v"
    using assms(2) by (intro trim_chars_quoted) (auto simp: kv_val_ok_def)
  show ?thesis
    unfolding parse_line_def Let_def line cut_at_sep [OF k(4)]
    using k(1) pre trim_space_id [OF k(1-3)] by (simp only: val tv prod.case) simp
qed

lemma fold_kv_lines:
  assumes "\<forall>kv\<in>set kvs. kv_key_ok (fst kv) \<and> kv_val_ok (snd kv)" "distinct (map fst fm)" "distinct (map snd fm)"
    "(key, field) \<in> set fm"
  shows "map_of (fold (parse_line fm) (map kv_line kvs) []) field = map_of (rev kvs) key"
  using assms(1)
proof (induction kvs rule: rev_induct)
  case (snoc kv kvs)
  obtain k v where kv: "kv = (k, v)" by fastforce
  let ?d = "fold (parse_line fm) (map kv_line kvs) []"
  have IH: "map_of ?d field = map_of (rev kvs) key" using snoc by simp
  have step: "fold (parse_line fm) (map kv_line (kvs @ [kv])) [] =
      (case map_of fm k of None \<Rightarrow> ?d | Some f \<Rightarrow> AList.update f v ?d)"
    using parse_line_kv [of k v fm] snoc.prems kv by simp
  have fm: "map_of fm key = Some field" using assms(2,4) by simp
  have "map_of fm k = Some field \<Longrightarrow> k = key"
    using fm assms(2,3) by (metis assms(4) eq_key_imp_eq_value map_of_SomeD distinct_map inj_onD snd_conv prod.inject)
  then show ?case using step IH fm kv by (auto simp: update_conv' split: option.splits)
qed simp

section \<open>Properties\<close>



end
