(* ===== verification/Go_Float.thy ===== *)
theory Go_Float
  imports Go_Strings
begin

text \<open>
  The non-negative \<open>float64\<close> values the collectors compute with: \<open>Fin m e\<close> is \<open>m * 2 ^ e\<close>. A
  decimal literal or a quotient of integers is rounded to the nearest of them, ties to even, as
  IEEE 754 and \<open>strconv.ParseFloat\<close> have it; multiplying and dividing by powers of two is exact
  up to overflow.
\<close>

datatype f64 = Fin int int | Inf

fun bit_len_upto :: "nat \<Rightarrow> int \<Rightarrow> int" where
  "bit_len_upto 0 n = 0"
| "bit_len_upto (Suc k) n = (if n \<le> 0 then 0 else 1 + bit_len_upto k (n div 2))"

text \<open>The number of binary digits; four per decimal digit are enough to look at.\<close>

definition bit_len :: "nat \<Rightarrow> int \<Rightarrow> int" where
  "bit_len digits n = bit_len_upto (4 * digits + 4) n"

definition shift :: "int \<Rightarrow> int \<Rightarrow> int" where
  "shift n k = (if 0 \<le> k then n * 2 ^ nat k else n)"

text \<open>Division with rounding to the nearest, ties to even.\<close>

definition div_even :: "int \<Rightarrow> int \<Rightarrow> int" where
  "div_even n d =
     (let q = n div d; r = n mod d in
      if 2 * r > d \<or> 2 * r = d \<and> odd q then q + 1 else q)"

definition scaled :: "int \<Rightarrow> int \<Rightarrow> int \<Rightarrow> int" where
  "scaled n d e = shift n (- e) div shift d e"

definition min_exp :: int where "min_exp = - 1074"

definition f64_limit :: int where "f64_limit = 2 ^ 1024"

definition f64_of_ratio :: "nat \<Rightarrow> int \<Rightarrow> int \<Rightarrow> f64" where
  "f64_of_ratio digits n d =
     (if n = 0 then Fin 0 0
      else let e0 = bit_len digits n - bit_len digits d - 53;
               e1 = (if scaled n d e0 \<ge> 2 ^ 53 then e0 + 1 else e0);
               e = max e1 min_exp;
               m = div_even (shift n (- e)) (shift d e)
           in if 0 \<le> e \<and> m * 2 ^ nat e \<ge> f64_limit then Inf else Fin m e)"

text \<open>\<open>strconv.ParseFloat(s, 64)\<close> on digits with an optional point, the only literals that reach
  it: None stands for the range error.\<close>

definition parse_float :: "string \<Rightarrow> f64 option" where
  "parse_float s =
     (let ip = takeWhile is_digit s; fp = drop (Suc (length ip)) s in
      case parse_digits 0 (ip @ fp) of
        None \<Rightarrow> None
      | Some n \<Rightarrow>
          (case f64_of_ratio (length s) (int n) (10 ^ length fp) of
             Inf \<Rightarrow> None
           | x \<Rightarrow> Some x))"

text \<open>Multiplying by \<open>2 ^ k\<close>.\<close>

definition f64_scale :: "int \<Rightarrow> f64 \<Rightarrow> f64" where
  "f64_scale k x =
     (case x of Inf \<Rightarrow> Inf
      | Fin m e \<Rightarrow> if 0 \<le> e + k \<and> m * 2 ^ nat (e + k) \<ge> f64_limit then Inf else Fin m (e + k))"

text \<open>\<open>uint64(x)\<close> cuts the fraction off; what it gives out of range is left to the
  implementation of the language.\<close>

definition f64_to_u64 :: "(f64 \<Rightarrow> int) \<Rightarrow> f64 \<Rightarrow> int" where
  "f64_to_u64 out_of_range x =
     (case x of
        Inf \<Rightarrow> out_of_range x
      | Fin m e \<Rightarrow>
          (let v = (if 0 \<le> e then m * 2 ^ nat e else m div 2 ^ nat (- e)) in
           if v < 2 ^ 64 then v else out_of_range x))"

text \<open>The verb \<open>%.2f\<close>.\<close>

definition show_fixed2 :: "f64 \<Rightarrow> string" where
  "show_fixed2 x =
     (case x of
        Inf \<Rightarrow> ''+Inf''
      | Fin m e \<Rightarrow>
          (let c = div_even (shift (100 * m) e) (2 ^ nat (- e)) in
           show_int (c div 100) @ ''.'' @ show_int (c mod 100 div 10) @ show_int (c mod 10)))"

section \<open>Facts\<close>

lemma bit_len_upto_le: "n < 2 ^ j \<Longrightarrow> bit_len_upto k n \<le> int j"
proof (induction k arbitrary: n j)
  case (Suc k)
  show ?case
  proof (cases j)
    case 0
    with Suc.prems show ?thesis by simp
  next
    case (Suc i)
    have "n div 2 < 2 ^ i" using Suc.prems Suc by simp
    with Suc.IH [of "n div 2" i] Suc show ?thesis by simp
  qed
qed simp

lemma bit_len_upto_nonneg: "0 \<le> bit_len_upto k n"
  by (induction k arbitrary: n) auto

lemma div_even_1 [simp]: "div_even n 1 = n"
  by (simp add: div_even_def)

text \<open>An integer below \<open>2 ^ 53\<close> is represented exactly.\<close>

lemma f64_of_int:
  assumes "0 < n" "n < 2 ^ 53"
  shows "\<exists>k. 0 \<le> k \<and> k \<le> 54 \<and> f64_of_ratio digits n 1 = Fin (n * 2 ^ nat k) (- k)"
proof -
  have b: "bit_len digits n \<le> 53" "0 \<le> bit_len digits n"
    unfolding bit_len_def using bit_len_upto_le [of n 53] assms(2) bit_len_upto_nonneg by simp_all
  have one: "bit_len digits 1 = 1" by (simp add: bit_len_def eval_nat_numeral)
  define e0 where "e0 = bit_len digits n - 54"
  have e0: "bit_len digits n - bit_len digits 1 - 53 = e0" using one by (simp add: e0_def)
  define e where "e = (if scaled n 1 e0 \<ge> 2 ^ 53 then e0 + 1 else e0)"
  have e: "e \<le> 0" "- 54 \<le> e" using b by (auto simp: e_def e0_def)
  then have mx: "max e min_exp = e" by (simp add: min_exp_def)
  have "f64_of_ratio digits n 1 = (let m = div_even (shift n (- e)) (shift 1 e) in
      if 0 \<le> e \<and> m * 2 ^ nat e \<ge> f64_limit then Inf else Fin m e)"
    using assms(1) e0 unfolding f64_of_ratio_def Let_def by (simp only: e_def [symmetric] mx) simp
  also have "div_even (shift n (- e)) (shift 1 e) = n * 2 ^ nat (- e)"
    using e by (cases "e = 0") (simp_all add: shift_def)
  finally have "f64_of_ratio digits n 1 = (if 0 \<le> e \<and> n * 2 ^ nat (- e) * 2 ^ nat e \<ge> f64_limit then Inf
      else Fin (n * 2 ^ nat (- e)) e)" by (simp add: Let_def)
  moreover have "\<not> (0 \<le> e \<and> n * 2 ^ nat (- e) * 2 ^ nat e \<ge> f64_limit)"
  proof -
    have "n < f64_limit" using assms(2) power_increasing [of 53 1024 "2::int"] unfolding f64_limit_def by linarith
    then show ?thesis using e(1) by auto
  qed
  ultimately show ?thesis using e by (intro exI [of _ "- e"]) simp
qed

lemma parse_float_show_nat:
  assumes "n < 2 ^ 53"
  shows "\<exists>k. 0 \<le> k \<and> k \<le> 54 \<and> parse_float (show_nat n) = Some (Fin (int n * 2 ^ nat k) (- k))"
proof -
  have ds: "takeWhile is_digit (show_nat n) = show_nat n"
    using show_nat_digits by (simp add: takeWhile_eq_all_conv)
  show ?thesis
  proof (cases "n = 0")
    case True
    have "parse_float (show_nat n) = Some (Fin 0 0)"
      unfolding parse_float_def ds using True by (simp add: f64_of_ratio_def parse_digits_show_nat)
    then show ?thesis using True by (intro exI [of _ 0]) simp
  next
    case False
    then obtain k where k: "0 \<le> k" "k \<le> 54"
      "f64_of_ratio (length (show_nat n)) (int n) 1 = Fin (int n * 2 ^ nat k) (- k)"
      using f64_of_int [of "int n"] assms by (metis of_nat_0_less_iff neq0_conv of_nat_less_numeral_power_cancel_iff)
    have "parse_float (show_nat n) = Some (Fin (int n * 2 ^ nat k) (- k))"
      unfolding parse_float_def ds using k(3) by (simp add: parse_digits_show_nat)
    then show ?thesis using k(1,2) by blast
  qed
qed

text \<open>Scaling an exact integer by a power of two and cutting the fraction off.\<close>

lemma scale_trunc:
  assumes "0 \<le> k" "k \<le> 54" "\<bar>j\<bar> \<le> 64" "0 \<le> n" "n < 2 ^ 53"
  shows "f64_to_u64 g (f64_scale j (Fin (n * 2 ^ nat k) (- k))) =
     (let v = (if 0 \<le> j then n * 2 ^ nat j else n div 2 ^ nat (- j)) in
      if v < 2 ^ 64 then v else g (Fin (n * 2 ^ nat k) (j - k)))"
proof -
  have big: "\<not> (0 \<le> j - k \<and> n * 2 ^ nat k * 2 ^ nat (j - k) \<ge> f64_limit)"
  proof
    assume a: "0 \<le> j - k \<and> n * 2 ^ nat k * 2 ^ nat (j - k) \<ge> f64_limit"
    then have "n * 2 ^ nat k * 2 ^ nat (j - k) = n * 2 ^ nat j"
      using assms(1) by (simp add: mult.assoc flip: power_add nat_add_distrib)
    also have "\<dots> \<le> 2 ^ 53 * 2 ^ 64"
      using assms by (intro mult_mono power_increasing) auto
    also have "\<dots> < f64_limit" by (simp add: f64_limit_def)
    finally show False using a by linarith
  qed
  have v: "(if 0 \<le> j - k then n * 2 ^ nat k * 2 ^ nat (j - k) else n * 2 ^ nat k div 2 ^ nat (- (j - k))) =
      (if 0 \<le> j then n * 2 ^ nat j else n div 2 ^ nat (- j))"
  proof (cases "0 \<le> j - k")
    case True
    then show ?thesis using assms(1) by (simp add: mult.assoc flip: power_add nat_add_distrib)
  next
    case False
    then show ?thesis
    proof (cases "0 \<le> j")
      case True
      have "(2::int) ^ nat k = 2 ^ nat j * 2 ^ nat (k - j)"
        using True False assms(1) by (simp flip: power_add nat_add_distrib)
      then show ?thesis using True False by (simp add: mult.assoc [symmetric])
    next
      case neg: False
      have "(2::int) ^ nat (k - j) = 2 ^ nat (- j) * 2 ^ nat k"
        using neg assms(1) by (simp flip: power_add nat_add_distrib)
      then show ?thesis using neg False by simp
    qed
  qed
  have "f64_scale j (Fin (n * 2 ^ nat k) (- k)) = Fin (n * 2 ^ nat k) (j - k)"
    using big by (auto simp: f64_scale_def)
  then show ?thesis using v by (simp only: f64_to_u64_def f64.case Let_def)
qed

end
