(* ===== verification/Hardware_Linux.thy ===== *)
theory Hardware_Linux
  imports Software_Linux Go_Float
begin

text \<open>
  The package \<open>collector/sysinfo/hardware\<close> on Linux: product and devices from sysfs, the processors
  from \<open>lscpu\<close>, the memory from \<open>/proc/meminfo\<close>, the disks from \<open>lsblk\<close> and the screens from Wayland
  or \<open>xrandr\<close>. What the C library of Wayland answers is a field of the options, like the injected
  provider of the code.
\<close>

section \<open>Data\<close>

record product =
  pr_Family :: string
  pr_Name :: string
  pr_Vendor :: string

record cpu =
  cpu_Name :: string
  cpu_Vendor :: string
  Arch :: string
  Cpus :: int
  Sockets :: int
  Cores :: int
  Threads :: int

record gpu =
  dev_Name :: string
  dev_Device :: string
  dev_Vendor :: string
  dev_Driver :: string

record accelerator = gpu +
  acc_Type :: string

datatype disk = Disk (disk_size: int) (disk_type: string) (disk_children: "disk list")

record screen =
  PhysicalResolution :: string
  screen_Size :: string
  Resolution :: string
  RefreshRate :: string

record hardware_info =
  Product :: product
  CPU :: cpu
  GPUs :: "gpu list"
  Accelerators :: "accelerator list"
  Mem :: int
  Blks :: "disk list"
  Screens :: "screen list"

text \<open>What Wayland answers: the result of connecting, whether memory ran out, and the displays
  as width, height, refresh rate in millihertz, physical width and height.\<close>

record wayland =
  wl_init :: int
  wl_memory_error :: bool
  wl_displays :: "(int \<times> int \<times> int \<times> int \<times> int) list"

record hardware_options =
  hw_root :: string
  cpuInfoCmd :: "string list"
  lsblkCmd :: "string list"
  screenCmd :: "string list"
  hw_wayland :: wayland
  hw_arch :: string
  hw_large_u64 :: "f64 \<Rightarrow> int"

definition default_hardware_options :: "wayland \<Rightarrow> string \<Rightarrow> (f64 \<Rightarrow> int) \<Rightarrow> hardware_options" where
  "default_hardware_options wl arch large =
     \<lparr>hw_root = ''/'', cpuInfoCmd = [''lscpu'', ''-J''],
      lsblkCmd = [''lsblk'', ''-o'', ''NAME,SIZE,TYPE,RM'', ''--tree'', ''-J''], screenCmd = [''xrandr''],
      hw_wayland = wl, hw_arch = arch, hw_large_u64 = large\<rparr>"

definition no_product :: product where "no_product = \<lparr>pr_Family = [], pr_Name = [], pr_Vendor = []\<rparr>"

definition no_cpu :: cpu where
  "no_cpu = \<lparr>cpu_Name = [], cpu_Vendor = [], Arch = [], Cpus = 0, Sockets = 0, Cores = 0, Threads = 0\<rparr>"

section \<open>Product\<close>

definition collectProduct :: "hardware_options \<Rightarrow> platform_info \<Rightarrow> 'z machine_scheme \<Rightarrow> product \<times> 'z machine_scheme" where
  "collectProduct h pi =
     (if SubsystemVersion (pi_WSL pi) \<noteq> 0 then retP no_product
      else bindP (ReadFileLogError (path_join [hw_root h, ''sys/class/dmi/id/sys_vendor''])) (\<lambda>vendor.
        bindP (ReadFileLogError (path_join [hw_root h, ''sys/class/dmi/id/product_name''])) (\<lambda>name.
        bindP (ReadFileLogError (path_join [hw_root h, ''sys/class/dmi/id/product_family''])) (\<lambda>family.
          retP \<lparr>pr_Family = single_line family, pr_Name = single_line name, pr_Vendor = single_line vendor\<rparr>))))"

section \<open>Processors\<close>

datatype lscpuEntry = LscpuEntry (lscpu_field: string) (lscpu_data: string) (lscpu_children: "lscpuEntry list")

definition usedCPUFields :: "string list" where
  "usedCPUFields = [''CPU(s):'', ''Socket(s):'', ''Core(s) per socket:'', ''Thread(s) per core:'', ''Architecture:'',
     ''Vendor ID:'', ''Model name:'']"

fun decode_lscpuEntry :: "json \<Rightarrow> lscpuEntry option" where
  "decode_lscpuEntry (JObj kvs) =
     (case (decode_field ''field'' dec_string [] kvs, decode_field ''data'' dec_string [] kvs,
            decode_field ''children'' (\<lambda>v cur. dec_slice decode_lscpuEntry v cur) [] kvs) of
        (Some f, Some d, Some cs) \<Rightarrow> Some (LscpuEntry f d cs)
      | _ \<Rightarrow> None)"
| "decode_lscpuEntry JNull = Some (LscpuEntry [] [] [])"
| "decode_lscpuEntry v = None"

definition decode_lscpu :: "json \<Rightarrow> lscpuEntry list option" where
  "decode_lscpu v = dec_struct (\<lambda>kvs es. decode_field ''lscpu'' (\<lambda>v cur. dec_slice decode_lscpuEntry v cur) es kvs) v []"

fun populateCPUInfo :: "lscpuEntry list \<Rightarrow> (string \<times> string) list \<Rightarrow> (string \<times> string) list" where
  "populateCPUInfo [] info = info"
| "populateCPUInfo (LscpuEntry f d cs # es) info =
     (let info1 = (if f \<in> set usedCPUFields then AList.update f d info else info) in
      populateCPUInfo es (populateCPUInfo cs info1))"

definition parse_count :: "string \<Rightarrow> int option" where
  "parse_count s = map_option int (parse_uint64 s)"

definition cpu_of :: "string \<Rightarrow> (string \<times> string) list \<Rightarrow> cpu" where
  "cpu_of arch data =
     (let count = (\<lambda>k. parse_count (map_index data k));
          sockets = (case count ''Socket(s):'' of None \<Rightarrow> 0 | Some n \<Rightarrow> n);
          cores = (case count ''Core(s) per socket:'' of None \<Rightarrow> 0 | Some n \<Rightarrow> n);
          threads = (case count ''Thread(s) per core:'' of None \<Rightarrow> 0 | Some n \<Rightarrow> n);
          cpus = (case count ''CPU(s):'' of None \<Rightarrow> (threads * cores mod 2 ^ 64) * sockets mod 2 ^ 64 | Some n \<Rightarrow> n) in
      \<lparr>cpu_Name = map_index data ''Model name:'', cpu_Vendor = map_index data ''Vendor ID:'',
       Arch = (case map_of data ''Architecture:'' of None \<Rightarrow> arch | Some v \<Rightarrow> v),
       Cpus = cpus, Sockets = sockets, Cores = cores, Threads = threads\<rparr>)"

definition collectCPU :: "hardware_options \<Rightarrow> ('z machine_scheme, cpu) io" where
  "collectCPU h w =
     (case RunWithTimeout 15 (cpuInfoCmd h) w of (out, w') \<Rightarrow>
        (case cmd_err out of
           Some _ \<Rightarrow> (Inl (Errorf ''failed to run lscpu''), w')
         | None \<Rightarrow>
            (case ParseJSON decode_lscpu (stdout out) of
               Inl _ \<Rightarrow> (Inl (Errorf ''failed to parse CPU json''), w')
             | Inr es \<Rightarrow> (Inr (cpu_of (hw_arch h) (populateCPUInfo es [])), w'))))"

section \<open>Graphics and accelerators\<close>

definition gpuSymlinkRegex :: rx where
  "gpuSymlinkRegex = rx_seq [RBegin False, rx_lit ''card'', rx_plus (RChr is_digit), REnd False]"

definition accelSymlinkRegex :: rx where
  "accelSymlinkRegex = rx_seq [RBegin False, rx_lit ''accel'', rx_plus (RChr is_digit), REnd False]"

text \<open>The directory of a device, found by following two links.\<close>

definition device_dir :: "string \<Rightarrow> string \<Rightarrow> ('z machine_scheme, string) io" where
  "device_dir dir name w =
     (case m_eval_symlinks w (path_join [dir, name]) of
        Inl _ \<Rightarrow> (Inl (Errorf ''failed to follow symlink''), w)
      | Inr d \<Rightarrow>
         (case m_eval_symlinks w (path_join [d, ''device'']) of
            Inl _ \<Rightarrow> (Inl (Errorf ''failed to follow device symlink''), w)
          | Inr devDir \<Rightarrow> (Inr devDir, w)))"

definition driver_name :: "string \<Rightarrow> 'z machine_scheme \<Rightarrow> string \<times> 'z machine_scheme" where
  "driver_name devDir w =
     (case m_readlink w (path_join [devDir, ''driver'']) of Inl _ \<Rightarrow> ([], w) | Inr l \<Rightarrow> (path_base l, w))"

definition collectGPU :: "hardware_options \<Rightarrow> string \<Rightarrow> ('z machine_scheme, gpu) io" where
  "collectGPU h cardName =
     bindE (device_dir (path_join [hw_root h, ''sys/class/drm'']) cardName) (\<lambda>devDir.
       bindP (ReadFileLogError (path_join [devDir, ''vendor''])) (\<lambda>vendor.
       bindP (ReadFileLog (path_join [devDir, ''label''])) (\<lambda>name.
       bindP (ReadFileLogError (path_join [devDir, ''device''])) (\<lambda>device.
       bindP (driver_name devDir) (\<lambda>driver.
         ret \<lparr>dev_Name = single_line name, dev_Device = single_line device, dev_Vendor = single_line vendor,
              dev_Driver = driver\<rparr>)))))"

definition collectAccelerator :: "hardware_options \<Rightarrow> string \<Rightarrow> ('z machine_scheme, accelerator) io" where
  "collectAccelerator h accelName =
     bindE (device_dir (path_join [hw_root h, ''sys/class/accel'']) accelName) (\<lambda>devDir.
       bindP (ReadFileLogError (path_join [devDir, ''vendor''])) (\<lambda>vendor.
       bindP (ReadFileLog (path_join [devDir, ''label''])) (\<lambda>name.
       bindP (ReadFileLogError (path_join [devDir, ''device''])) (\<lambda>device.
       bindP (ReadFileLog (path_join [devDir, ''class''])) (\<lambda>class.
       bindP (driver_name devDir) (\<lambda>driver.
         ret \<lparr>dev_Name = single_line name, dev_Device = single_line device, dev_Vendor = single_line vendor,
              dev_Driver = driver, acc_Type = single_line class\<rparr>))))))"

text \<open>The entries that match are collected one by one; those that fail are skipped.\<close>

fun collect_each :: "(string \<Rightarrow> ('s, 'a) io) \<Rightarrow> string list \<Rightarrow> 's \<Rightarrow> 'a list \<times> 's" where
  "collect_each f [] w = ([], w)"
| "collect_each f (n # ns) w =
     (case f n w of (res, w1) \<Rightarrow>
      case collect_each f ns w1 of (xs, w2) \<Rightarrow>
        (case res of Inl _ \<Rightarrow> xs | Inr x \<Rightarrow> x # xs, w2))"

definition collectGPUs :: "hardware_options \<Rightarrow> platform_info \<Rightarrow> ('z machine_scheme, gpu list) io" where
  "collectGPUs h pi =
     (if SubsystemVersion (pi_WSL pi) \<noteq> 0 then ret []
      else bindE (on_error (\<lambda>_. Errorf ''failed to read GPU directory in sysfs'')
          (os_read_dir (path_join [hw_root h, ''sys/class/drm'']))) (\<lambda>ds.
        bindP (collect_each (collectGPU h) (filter (match_string gpuSymlinkRegex) (map fst ds))) (\<lambda>gpus.
          if gpus = [] then throw (Errorf ''no GPU information found'') else ret gpus)))"

definition collectAccelerators :: "hardware_options \<Rightarrow> ('z machine_scheme, accelerator list) io" where
  "collectAccelerators h =
     attempt (os_read_dir (path_join [hw_root h, ''sys/class/accel''])) (\<lambda>res.
       case res of
         Inl e \<Rightarrow> if os_is_not_exist e then ret []
                  else throw (Errorf ''failed to read acceleration device directory in sysfs'')
       | Inr ds \<Rightarrow> bindP (collect_each (collectAccelerator h) (filter (match_string accelSymlinkRegex) (map fst ds))) ret)"

section \<open>Memory\<close>

definition meminfoRegex :: rx where
  "meminfoRegex = rx_seq
     [RBegin False, RGrp 1 (rx_plus (RChr (\<lambda>c. \<not> rx_space c \<and> c \<noteq> CHR '':''))), rx_lit '':'',
      RStar True (RChr rx_space), RGrp 2 (rx_plus (RChr is_digit)),
      rx_opt (RSeq (rx_plus (RChr rx_space)) (RGrp 3 (rx_plus (RChr (\<lambda>c. \<not> rx_space c))))),
      RStar True (RChr rx_space), REnd False]"

fun mem_total :: "string list \<Rightarrow> int" where
  "mem_total [] = 0"
| "mem_total (l # ls) =
     (if l = [] then mem_total ls
      else case find_submatch meminfoRegex l of
        None \<Rightarrow> mem_total ls
      | Some m \<Rightarrow>
          if m 1 \<noteq> ''MemTotal'' then mem_total ls
          else (case parse_int64 (m 2) of
                  None \<Rightarrow> 0
                | Some v \<Rightarrow> fst (ConvertUnitToStandard (m 3) v)))"

definition collectMemory :: "hardware_options \<Rightarrow> ('z machine_scheme, int) io" where
  "collectMemory h =
     bindE (on_error (\<lambda>_. Errorf ''failed to read meminfo'') (os_read_file (path_join [hw_root h, ''proc/meminfo'']))) (\<lambda>f.
       ret (mem_total (split_on newline f)))"

section \<open>Disks\<close>

datatype lsblkEntry =
  LsblkEntry (lsblk_size: string) (lsblk_type: string) (lsblk_rm: bool) (lsblk_children: "lsblkEntry list")

fun decode_lsblkEntry :: "json \<Rightarrow> lsblkEntry option" where
  "decode_lsblkEntry (JObj kvs) =
     (case (decode_field ''size'' dec_string [] kvs, decode_field ''type'' dec_string [] kvs,
            decode_field ''rm'' dec_bool False kvs,
            decode_field ''children'' (\<lambda>v cur. dec_slice decode_lsblkEntry v cur) [] kvs) of
        (Some s, Some t, Some rm, Some cs) \<Rightarrow> Some (LsblkEntry s t rm cs)
      | _ \<Rightarrow> None)"
| "decode_lsblkEntry JNull = Some (LsblkEntry [] [] False [])"
| "decode_lsblkEntry v = None"

definition decode_lsblk :: "json \<Rightarrow> lsblkEntry list option" where
  "decode_lsblk v =
     dec_struct (\<lambda>kvs es. decode_field ''blockdevices'' (\<lambda>v cur. dec_slice decode_lsblkEntry v cur) es kvs) v []"

definition blockSizeRegex :: rx where
  "blockSizeRegex = rx_seq
     [RBegin False, RStar True (RChr rx_space),
      RGrp 1 (RSeq (rx_plus (RChr is_digit)) (rx_opt (RSeq (rx_lit ''.'') (RStar True (RChr is_digit))))),
      RStar True (RChr rx_space), RGrp 2 (RStar True (RChr (\<lambda>c. \<not> rx_space c))), RStar True (RChr rx_space), REnd False]"

text \<open>\<open>fileutils.ConvertUnitToStandard\<close> at type \<open>float64\<close>: multiplying and dividing by powers of 1024.\<close>

definition ConvertUnitToStandard_f64 :: "string \<Rightarrow> f64 \<Rightarrow> f64" where
  "ConvertUnitToStandard_f64 unit v =
     (let u = to_lower unit; mib = (\<lambda>x. f64_scale (- 10) (f64_scale (- 10) x)) in
      if u = [] \<or> u = ''b'' then mib v
      else if u = ''k'' \<or> u = ''kb'' \<or> u = ''kib'' then mib (f64_scale 10 v)
      else if u = ''m'' \<or> u = ''mb'' \<or> u = ''mib'' then mib ((f64_scale 10 ^^ 2) v)
      else if u = ''g'' \<or> u = ''gb'' \<or> u = ''gib'' then mib ((f64_scale 10 ^^ 3) v)
      else if u = ''t'' \<or> u = ''tb'' \<or> u = ''tib'' then mib ((f64_scale 10 ^^ 4) v)
      else v)"

definition getSize :: "(f64 \<Rightarrow> int) \<Rightarrow> string \<Rightarrow> int" where
  "getSize large s =
     (case find_submatch blockSizeRegex s of
        None \<Rightarrow> 0
      | Some m \<Rightarrow>
         (case parse_float (m 1) of
            None \<Rightarrow> 0
          | Some v \<Rightarrow> f64_to_u64 large (ConvertUnitToStandard_f64 (m 2) v)))"

function populateBlkInfo :: "(f64 \<Rightarrow> int) \<Rightarrow> lsblkEntry list \<Rightarrow> int \<Rightarrow> disk list" where
  "populateBlkInfo large entries depth =
     (if depth < 0 then []
      else concat (map (\<lambda>e.
        if lsblk_rm e then []
        else if to_lower (lsblk_type e) \<in> {''disk'', ''crypt'', ''lvm'', ''part''}
        then [Disk (getSize large (lsblk_size e)) (lsblk_type e) (populateBlkInfo large (lsblk_children e) (depth - 1))]
        else []) entries))"
  by pat_completeness auto
termination by (relation "measure (\<lambda>(_, _, depth). nat (depth + 1))") auto

declare populateBlkInfo.simps [simp del]

definition collectDisks :: "hardware_options \<Rightarrow> ('z machine_scheme, disk list) io" where
  "collectDisks h w =
     (case RunWithTimeout 15 (lsblkCmd h) w of (out, w') \<Rightarrow>
        (case cmd_err out of
           Some _ \<Rightarrow> (Inl (Errorf ''failed to run lsblk''), w')
         | None \<Rightarrow>
            (case ParseJSON decode_lsblk (stdout out) of
               Inl _ \<Rightarrow> (Inl (Errorf ''failed to convert json to a valid lsblk struct''), w')
             | Inr es \<Rightarrow>
                (let info = populateBlkInfo (hw_large_u64 h) es 10 in
                 if info = [] then (Inl (Errorf ''no Block information found''), w') else (Inr info, w')))))"

section \<open>Screens\<close>

definition rx_digits_x_digits :: rx where
  "rx_digits_x_digits = rx_seq [rx_plus (RChr is_digit), rx_lit ''x'', rx_plus (RChr is_digit)]"

definition screenHeaderRegex :: rx where
  "screenHeaderRegex = rx_seq
     [RBegin True, RGrp 1 (rx_plus (RChr (\<lambda>c. \<not> rx_space c))), rx_plus (RChr rx_space), rx_lit ''connected'',
      rx_plus (RChr rx_space), rx_opt (RSeq (RGrp 2 (rx_lit ''primary'')) (rx_plus (RChr rx_space))),
      RGrp 3 rx_digits_x_digits, RStar False (RChr rx_dot),
      RGrp 4 (rx_seq [rx_plus (RChr is_digit), rx_lit ''mm'', rx_plus (RChr rx_space), rx_lit ''x'',
        rx_plus (RChr rx_space), rx_plus (RChr is_digit), rx_lit ''mm'']), RStar True (RChr rx_dot), REnd True]"

definition screenConfigRegex :: rx where
  "screenConfigRegex = rx_seq
     [RBegin True, RStar True (RChr rx_space), RGrp 1 rx_digits_x_digits, RChr rx_space, RStar False (RChr rx_dot),
      RGrp 2 (rx_seq [rx_plus (RChr is_digit), rx_lit ''.'', rx_plus (RChr is_digit)]), rx_opt (rx_lit ''+''),
      rx_lit ''*'', rx_opt (rx_lit ''+''), RStar True (RChr rx_dot), REnd True]"

text \<open>The display of a given refresh rate in millihertz, printed with two digits.\<close>

definition show_refresh :: "int \<Rightarrow> string" where
  "show_refresh mhz = (if mhz < 0 then ''-'' else []) @ show_fixed2 (f64_of_ratio 10 \<bar>mhz\<bar> 1000)"

definition wayland_screen :: "int \<times> int \<times> int \<times> int \<times> int \<Rightarrow> screen" where
  "wayland_screen d = (case d of (width, height, refresh, phys_width, phys_height) \<Rightarrow>
     \<lparr>PhysicalResolution = (if width \<noteq> 0 \<and> height \<noteq> 0 then show_int width @ ''x'' @ show_int height else []),
      screen_Size = (if phys_width \<noteq> 0 \<and> phys_height \<noteq> 0
         then show_int phys_width @ ''mm x '' @ show_int phys_height @ ''mm'' else []),
      Resolution = [],
      RefreshRate = (if refresh \<noteq> 0 then show_refresh refresh else [])\<rparr>)"

definition cScreensWayland :: "hardware_options \<Rightarrow> go_error + screen list" where
  "cScreensWayland h =
     (if wl_init (hw_wayland h) \<noteq> 0 then Inl (Errorf ''failed to connect to Wayland display'')
      else if wl_memory_error (hw_wayland h) then Inl (Errorf ''failed to get displays'')
      else Inr (map wayland_screen (wl_displays (hw_wayland h))))"

text \<open>Each header of \<open>xrandr\<close> belongs to the text up to the next one.\<close>

definition xrandr_screens :: "string \<Rightarrow> screen list" where
  "xrandr_screens data =
     List.map_filter (\<lambda>(header, text).
       case find_submatch screenConfigRegex text of
         None \<Rightarrow> None
       | Some v \<Rightarrow> Some \<lparr>PhysicalResolution = [], screen_Size = header 4, Resolution = v 1, RefreshRate = v 2\<rparr>)
     (zip (find_all_submatch screenHeaderRegex data) (tl (rx_split screenHeaderRegex data)))"

definition collectScreens :: "hardware_options \<Rightarrow> platform_info \<Rightarrow> ('z machine_scheme, screen list) io" where
  "collectScreens h pi w =
     (if SubsystemVersion (pi_WSL pi) \<noteq> 0 then (Inr [], w)
      else case cScreensWayland h of
        Inr (s # ss) \<Rightarrow> (Inr (s # ss), w)
      | _ \<Rightarrow>
         (case RunWithTimeout 15 (screenCmd h) w of (out, w') \<Rightarrow>
            (case cmd_err out of
               Some _ \<Rightarrow> (Inl (Errorf ''failed to run xrandr''), w')
             | None \<Rightarrow>
                (let info = xrandr_screens (stdout out) in
                 if info = [] then (Inl (Errorf ''no Screen information found''), w') else (Inr info, w')))))"

section \<open>Collecting\<close>

definition or_else :: "'a \<Rightarrow> ('s, 'a) io \<Rightarrow> 's \<Rightarrow> 'a \<times> 's" where
  "or_else d m w = (case m w of (res, w') \<Rightarrow> (case res of Inl _ \<Rightarrow> d | Inr x \<Rightarrow> x, w'))"

definition hardware_Collect ::
    "hardware_options \<Rightarrow> platform_info \<Rightarrow> 'z machine_scheme \<Rightarrow> (go_error option \<times> hardware_info) \<times> 'z machine_scheme" where
  "hardware_Collect h pi =
     bindP (collectProduct h pi) (\<lambda>pr.
     bindP (or_else (no_cpu\<lparr>Arch := hw_arch h\<rparr>) (collectCPU h)) (\<lambda>c.
     bindP (or_else [] (collectGPUs h pi)) (\<lambda>gs.
     bindP (or_else [] (collectAccelerators h)) (\<lambda>accs.
     bindP (or_else 0 (collectMemory h)) (\<lambda>mem.
     bindP (or_else [] (collectDisks h)) (\<lambda>blks.
     bindP (or_else [] (collectScreens h pi)) (\<lambda>scr.
       retP (None, \<lparr>Product = pr, CPU = c, GPUs = gs, Accelerators = accs, Mem = mem, Blks = blks, Screens = scr\<rparr>))))))))"

section \<open>JSON\<close>

definition num_json :: "int \<Rightarrow> json" where
  "num_json n = JNum (show_int n)"

definition product_json :: "product \<Rightarrow> json" where
  "product_json x = JObj [(''family'', JStr (pr_Family x)), (''name'', JStr (pr_Name x)), (''vendor'', JStr (pr_Vendor x))]"

definition cpu_json :: "cpu \<Rightarrow> json" where
  "cpu_json x = JObj [(''name'', JStr (cpu_Name x)), (''vendor'', JStr (cpu_Vendor x)), (''architecture'', JStr (Arch x)),
     (''cpus'', num_json (Cpus x)), (''sockets'', num_json (Sockets x)), (''coresPerSocket'', num_json (Cores x)),
     (''threadsPerCore'', num_json (Threads x))]"

definition gpu_json :: "gpu \<Rightarrow> json" where
  "gpu_json x = JObj (omitempty ''name'' (dev_Name x) @ omitempty ''device'' (dev_Device x) @
     [(''vendor'', JStr (dev_Vendor x)), (''driver'', JStr (dev_Driver x))])"

definition accelerator_json :: "accelerator \<Rightarrow> json" where
  "accelerator_json x = JObj (omitempty ''name'' (dev_Name x) @ omitempty ''device'' (dev_Device x) @
     omitempty ''vendor'' (dev_Vendor x) @ omitempty ''driver'' (dev_Driver x) @ omitempty ''type'' (acc_Type x))"

definition omit_nil :: "string \<Rightarrow> json list \<Rightarrow> (string \<times> json) list" where
  "omit_nil k xs = (if xs = [] then [] else [(k, JArr xs)])"

fun disk_json :: "disk \<Rightarrow> json" where
  "disk_json (Disk s t cs) =
     JObj ([(''size'', num_json s)] @ omitempty ''type'' t @ omit_nil ''children'' (map disk_json cs))"

definition screen_json :: "screen \<Rightarrow> json" where
  "screen_json x = JObj (omitempty ''physicalResolution'' (PhysicalResolution x) @ omitempty ''size'' (screen_Size x) @
     omitempty ''resolution'' (Resolution x) @ omitempty ''refreshRate'' (RefreshRate x))"

definition hardware_json :: "hardware_info \<Rightarrow> json" where
  "hardware_json x = JObj ((if Product x = no_product then [] else [(''product'', product_json (Product x))]) @
     (if CPU x = no_cpu then [] else [(''cpu'', cpu_json (CPU x))]) @
     omit_nil ''gpus'' (map gpu_json (GPUs x)) @ omit_nil ''accelerators'' (map accelerator_json (Accelerators x)) @
     (if Mem x = 0 then [] else [(''memory'', JObj [(''size'', num_json (Mem x))])]) @
     omit_nil ''disks'' (map disk_json (Blks x)) @ omit_nil ''screens'' (map screen_json (Screens x)))"

end
