(* ===== verification/Regexp_Facts.thy ===== *)
theory Regexp_Facts
  imports Go_Regexp
begin

text \<open>
  Facts on matching. \<open>rx_hd r st st'\<close> says that the first way in which \<open>r\<close> matches at \<open>st\<close> ends at
  \<open>st'\<close>; its rules follow an expression piece by piece as long as each greedy repetition stops
  where its class does, which is how the fixed formats the collectors read are matched.
\<close>

definition rx_hd :: "rx \<Rightarrow> rx_place \<Rightarrow> rx_place \<Rightarrow> bool" where
  "rx_hd r st st' \<longleftrightarrow> (\<exists>more. rx_run r st = st' # more)"

text \<open>The byte before the place reached after reading \<open>u\<close>.\<close>

definition prev_after :: "string \<Rightarrow> char option \<Rightarrow> char option" where
  "prev_after u p = (if u = [] then p else Some (last u))"

lemma prev_after_Nil [simp]: "prev_after [] p = p"
  by (simp add: prev_after_def)

lemma prev_after_Cons: "prev_after (x # u) p = prev_after u (Some x)"
  by (simp add: prev_after_def)

lemma rx_hd_seq: "rx_hd r1 st st1 \<Longrightarrow> rx_hd r2 st1 st2 \<Longrightarrow> rx_hd (RSeq r1 r2) st st2"
  by (auto simp: rx_hd_def)

lemma rx_hd_eps: "rx_hd REps st st"
  by (simp add: rx_hd_def)

lemma rx_hd_chr: "P x \<Longrightarrow> rx_hd (RChr P) (p, x # s, c) (Some x, s, c)"
  by (simp add: rx_hd_def)

lemma rx_hd_alt1: "rx_hd r1 st st' \<Longrightarrow> rx_hd (RAlt r1 r2) st st'"
  by (auto simp: rx_hd_def)

lemma rx_hd_alt2: "rx_run r1 st = [] \<Longrightarrow> rx_hd r2 st st' \<Longrightarrow> rx_hd (RAlt r1 r2) st st'"
  by (auto simp: rx_hd_def)

lemma rx_hd_grp:
  "rx_hd r (p, s, c) (p', s', c') \<Longrightarrow> rx_hd (RGrp n r) (p, s, c) (p', s', (n, take (length s - length s') s) # c')"
  by (auto simp: rx_hd_def)

lemma rx_hd_begin: "rx_hd (RBegin m) (None, s, c) (None, s, c)"
  by (simp add: rx_hd_def)

lemma rx_hd_end: "rx_hd (REnd m) (p, [], c) (p, [], c)"
  by (simp add: rx_hd_def)

lemma rx_hd_star:
  assumes "list_all P u" "v = [] \<or> \<not> P (hd v)"
  shows "rx_hd (RStar True (RChr P)) (p, u @ v, c) (prev_after u p, v, c)"
  using assms(1)
proof (induction u arbitrary: p)
  case Nil
  show ?case using assms(2) by (cases v) (simp_all add: rx_hd_def)
next
  case (Cons x u)
  then obtain more where "rx_run (RStar True (RChr P)) (Some x, u @ v, c) = (prev_after u (Some x), v, c) # more"
    by (auto simp: rx_hd_def)
  then show ?case using Cons.prems by (simp add: rx_hd_def prev_after_Cons)
qed

lemma rx_hd_plus:
  assumes "list_all P u" "u \<noteq> []" "v = [] \<or> \<not> P (hd v)"
  shows "rx_hd (rx_plus (RChr P)) (p, u @ v, c) (prev_after u p, v, c)"
proof -
  obtain x u' where u: "u = x # u'" using assms(2) by (cases u) auto
  have "rx_hd (RStar True (RChr P)) (Some x, u' @ v, c) (prev_after u' (Some x), v, c)"
    using assms u by (intro rx_hd_star) auto
  moreover have "rx_hd (RChr P) (p, u @ v, c) (Some x, u' @ v, c)"
    using rx_hd_chr assms(1) u by simp
  ultimately show ?thesis unfolding rx_plus_def using rx_hd_seq u by (metis prev_after_Cons)
qed

lemma rx_hd_lit: "rx_hd (rx_lit u) (p, u @ v, c) (prev_after u p, v, c)"
proof (induction u arbitrary: p)
  case Nil
  then show ?case by (simp add: rx_lit_def rx_hd_eps)
next
  case (Cons x u)
  have "rx_hd (RSeq (RChr (\<lambda>y. y = x)) (rx_lit u)) (p, x # u @ v, c) (prev_after u (Some x), v, c)"
    by (rule rx_hd_seq [OF rx_hd_chr Cons.IH]) simp
  then show ?case by (simp add: rx_lit_def prev_after_Cons)
qed

text \<open>A group around a match of \<open>u\<close> captures \<open>u\<close>.\<close>

lemma rx_hd_grp_text:
  "rx_hd r (p, u @ v, c) (p', v, c') \<Longrightarrow> rx_hd (RGrp n r) (p, u @ v, c) (p', v, (n, u) # c')"
  using rx_hd_grp [of r p "u @ v" c p' v c' n] by simp

lemma rx_seq_Cons: "rx_seq (r # rs) = RSeq r (rx_seq rs)"
  by (simp add: rx_seq_def)

lemma rx_seq_Nil: "rx_seq [] = REps"
  by (simp add: rx_seq_def)

lemma rx_hd_seq_Cons: "rx_hd r st st1 \<Longrightarrow> rx_hd (rx_seq rs) st1 st2 \<Longrightarrow> rx_hd (rx_seq (r # rs)) st st2"
  by (simp add: rx_seq_Cons rx_hd_seq)

lemma rx_hd_seq_Nil: "rx_hd (rx_seq []) st st"
  by (simp add: rx_seq_Nil rx_hd_eps)

lemma find_submatch_hd:
  "rx_hd r (None, s, []) (p', s', c) \<Longrightarrow> find_submatch r s = Some (group c)"
  by (auto simp: rx_hd_def find_submatch_def rx_search.simps)

lemma match_string_hd: "rx_hd r (None, s, []) (p', s', c) \<Longrightarrow> match_string r s"
  by (auto simp: rx_hd_def match_string_def rx_search.simps)

section \<open>Expressions anchored at both ends\<close>

lemma rx_run_anchor: "rx_run (RBegin False) (Some x, s, c) = []"
  by simp

lemma search_anchored:
  "rx_search (rx_seq (RBegin False # rs)) (Some x) s = None"
  by (induction s arbitrary: x) (simp_all add: rx_search.simps rx_seq_Cons)

lemma match_anchored: "match_string (rx_seq (RBegin False # rs)) s \<longleftrightarrow> rx_run (rx_seq rs) (None, s, []) \<noteq> []"
proof (cases s)
  case Nil
  then show ?thesis by (auto simp: match_string_def rx_search.simps rx_seq_Cons neq_Nil_conv split: list.splits)
next
  case (Cons x xs)
  then show ?thesis
    by (auto simp: match_string_def rx_search.simps [of _ None] rx_seq_Cons search_anchored [unfolded rx_seq_Cons]
        split: list.splits)
qed

text \<open>What repeating a class reads.\<close>

lemma rx_star_Cons:
  "set (rx_run (RStar g (RChr P)) (p, x # s, c)) =
     insert (p, x # s, c) (if P x then set (rx_run (RStar g (RChr P)) (Some x, s, c)) else {})"
  by (subst rx_run.simps) (simp add: Let_def del: rx_run.simps(5))

lemma rx_star_sound:
  "(p', s', c') \<in> set (rx_run (RStar g (RChr P)) (p, s, c)) \<Longrightarrow> \<exists>u. s = u @ s' \<and> list_all P u"
proof (induction s arbitrary: p)
  case Nil
  then show ?case by (auto split: if_splits)
next
  case (Cons x s)
  then have "(p', s', c') = (p, x # s, c) \<or> P x \<and> (p', s', c') \<in> set (rx_run (RStar g (RChr P)) (Some x, s, c))"
    unfolding rx_star_Cons by (simp split: if_splits del: rx_run.simps(5))
  then show ?case
  proof (elim disjE)
    assume "P x \<and> (p', s', c') \<in> set (rx_run (RStar g (RChr P)) (Some x, s, c))"
    with Cons.IH obtain u where "s = u @ s'" "list_all P u" "P x" by blast
    then have "x # s = (x # u) @ s' \<and> list_all P (x # u)" by simp
    then show ?thesis by blast
  next
    assume "(p', s', c') = (p, x # s, c)"
    then have "x # s = [] @ s' \<and> list_all P []" by simp
    then show ?thesis by blast
  qed
qed

lemma rx_lit_run: "rx_run (rx_lit u) (p, s, c) = (if has_prefix s u then [(prev_after u p, drop (length u) s, c)] else [])"
proof (induction u arbitrary: p s)
  case Nil
  then show ?case by (simp add: rx_lit_def has_prefix_def)
next
  case (Cons x u)
  have "rx_run (rx_lit (x # u)) (p, s, c) =
      (case s of [] \<Rightarrow> [] | y # ys \<Rightarrow> if y = x then rx_run (rx_lit u) (Some y, ys, c) else [])"
    by (auto simp: rx_lit_def split: list.splits)
  then show ?case using Cons.IH by (auto simp: has_prefix_def prev_after_Cons split: list.splits)
qed

text \<open>A fixed word and digits, and nothing else.\<close>

lemma match_word_digits:
  "match_string (rx_seq [RBegin False, rx_lit word, rx_plus (RChr P), REnd False]) s \<longleftrightarrow>
     (\<exists>ds. s = word @ ds \<and> ds \<noteq> [] \<and> list_all P ds)"
proof
  assume "match_string (rx_seq [RBegin False, rx_lit word, rx_plus (RChr P), REnd False]) s"
  then have "rx_run (rx_seq [rx_lit word, rx_plus (RChr P), REnd False]) (None, s, []) \<noteq> []"
    unfolding match_anchored .
  then obtain st where "st \<in> set (rx_run (rx_seq [rx_lit word, rx_plus (RChr P), REnd False]) (None, s, []))"
    by (cases "rx_run (rx_seq [rx_lit word, rx_plus (RChr P), REnd False]) (None, s, [])") auto
  then obtain s1 st2 where s1: "has_prefix s word" "s1 = drop (length word) s"
    "st2 \<in> set (rx_run (rx_plus (RChr P)) (prev_after word None, s1, []))" "rx_run (REnd False) st2 \<noteq> []"
    by (auto simp: rx_seq_Cons rx_seq_Nil rx_lit_run split: if_splits)
  obtain p' s' c' where st2: "st2 = (p', s', c')" by (cases st2)
  then have end': "s' = []" using s1(4) by (auto split: if_splits)
  obtain x xs where x: "s1 = x # xs" "P x" "st2 \<in> set (rx_run (RStar True (RChr P)) (Some x, xs, []))"
    using s1(3) by (auto simp: rx_plus_def split: list.splits if_splits)
  then have "list_all P xs" using rx_star_sound [of p' s' c' True P "Some x" xs "[]"] st2 end' by auto
  then have "s = word @ s1 \<and> s1 \<noteq> [] \<and> list_all P s1"
    using s1(1,2) x by (metis append_take_drop_id has_prefix_def list.discI list.pred_inject(2))
  then show "\<exists>ds. s = word @ ds \<and> ds \<noteq> [] \<and> list_all P ds" by blast
next
  assume "\<exists>ds. s = word @ ds \<and> ds \<noteq> [] \<and> list_all P ds"
  then obtain ds where ds: "s = word @ ds" "ds \<noteq> []" "list_all P ds" by blast
  have "rx_hd (rx_plus (RChr P)) (prev_after word None, ds, []) (prev_after ds (prev_after word None), [], [])"
    using rx_hd_plus [OF ds(3,2), of "[]"] by simp
  then have "rx_hd (rx_seq [rx_plus (RChr P), REnd False]) (prev_after word None, ds, [])
      (prev_after ds (prev_after word None), [], [])"
    by (rule rx_hd_seq_Cons [OF _ rx_hd_seq_Cons [OF rx_hd_end rx_hd_seq_Nil]])
  then show "match_string (rx_seq [RBegin False, rx_lit word, rx_plus (RChr P), REnd False]) s"
    unfolding ds(1) by (rule match_string_hd [OF rx_hd_seq_Cons [OF rx_hd_begin rx_hd_seq_Cons [OF rx_hd_lit]]])
qed

section \<open>All matches\<close>

text \<open>The length of the text is enough for finding all matches of an expression that never matches
  the empty string: more fuel changes nothing.\<close>

definition consumes :: "rx \<Rightarrow> bool" where
  "consumes r \<longleftrightarrow> (\<forall>p s skip m c p' s'. rx_search r p s = Some (skip, m, c, p', s') \<longrightarrow> length s' < length s)"

lemma find_all_from_fuel:
  "consumes r \<Longrightarrow> length s \<le> n \<Longrightarrow> length s \<le> k \<Longrightarrow> find_all_from n r p s = find_all_from k r p s"
proof (induction n arbitrary: k p s)
  case 0
  then have "rx_search r p [] = None" by (cases "rx_search r p []") (fastforce simp: consumes_def)+
  with 0 show ?case by (cases k) simp_all
next
  case (Suc n)
  show ?case
  proof (cases "rx_search r p s")
    case None
    then show ?thesis by (cases k) simp_all
  next
    case (Some x)
    obtain skip m c p' s' where x: "x = (skip, m, c, p', s')" by (cases x)
    then have "length s' < length s" using Suc.prems(1) Some by (auto simp: consumes_def)
    then obtain k' where k: "k = Suc k'" "length s' \<le> k'" "length s' \<le> n" using Suc.prems by (cases k) auto
    have "find_all_from n r p' s' = find_all_from k' r p' s'" by (rule Suc.IH [OF Suc.prems(1) k(3,2)])
    then show ?thesis using Some x k(1) by simp
  qed
qed

end
