(* ===== verification/Hardware_Facts.thy ===== *)
theory Hardware_Facts
  imports Hardware_Linux Regexp_Facts
begin

text \<open>
  What the hardware collector guarantees: the values lie in the ranges of their types whatever
  commands and files say, the search through the tree of \<open>lscpu\<close> is a search through the list of
  its entries, and sizes in the formats of the kernel and of \<open>lsblk\<close> are read exactly.
\<close>

section \<open>Ranges\<close>

definition in_u64 :: "int \<Rightarrow> bool" where
  "in_u64 x \<longleftrightarrow> 0 \<le> x \<and> x < 2 ^ 64"

definition f64_nonneg :: "f64 \<Rightarrow> bool" where
  "f64_nonneg x = (case x of Inf \<Rightarrow> True | Fin m _ \<Rightarrow> 0 \<le> m)"

lemma div_even_nonneg: "0 \<le> n \<Longrightarrow> 0 < d \<Longrightarrow> 0 \<le> div_even n d"
  using pos_imp_zdiv_nonneg_iff [of d n] by (auto simp: div_even_def Let_def)

lemma shift_bounds: "0 \<le> n \<Longrightarrow> 0 \<le> shift n k" "0 < n \<Longrightarrow> 0 < shift n k"
  by (simp_all add: shift_def)

lemma f64_of_ratio_nonneg: "0 \<le> n \<Longrightarrow> 0 < d \<Longrightarrow> f64_nonneg (f64_of_ratio digits n d)"
  unfolding f64_of_ratio_def Let_def f64_nonneg_def
  using div_even_nonneg shift_bounds by (simp del: max.bounded_iff)

lemma parse_float_nonneg: "parse_float s = Some x \<Longrightarrow> f64_nonneg x"
proof -
  assume a: "parse_float s = Some x"
  define ip where "ip = takeWhile is_digit s"
  define fp where "fp = drop (Suc (length ip)) s"
  obtain n where n: "parse_digits 0 (ip @ fp) = Some n" "f64_of_ratio (length s) (int n) (10 ^ length fp) = x"
    using a unfolding parse_float_def Let_def ip_def [symmetric] fp_def [symmetric]
    by (auto split: option.splits f64.splits)
  have "f64_nonneg (f64_of_ratio (length s) (int n) (10 ^ length fp))"
    by (intro f64_of_ratio_nonneg) simp_all
  then show ?thesis using n(2) by simp
qed

lemma f64_scale_nonneg: "f64_nonneg x \<Longrightarrow> f64_nonneg (f64_scale k x)"
  by (auto simp: f64_nonneg_def f64_scale_def split: f64.splits)

lemma f64_scale_pow_nonneg: "f64_nonneg x \<Longrightarrow> f64_nonneg ((f64_scale k ^^ n) x)"
  by (induction n) (simp_all add: f64_scale_nonneg)

lemma ConvertUnit_f64_nonneg: "f64_nonneg x \<Longrightarrow> f64_nonneg (ConvertUnitToStandard_f64 u x)"
  by (simp add: ConvertUnitToStandard_f64_def Let_def f64_scale_nonneg f64_scale_pow_nonneg)

lemma f64_to_u64_range: "f64_nonneg x \<Longrightarrow> (\<And>y. in_u64 (large y)) \<Longrightarrow> in_u64 (f64_to_u64 large x)"
  by (auto simp: f64_nonneg_def f64_to_u64_def in_u64_def Let_def pos_imp_zdiv_nonneg_iff split: f64.splits)

lemma getSize_range: "(\<And>y. in_u64 (large y)) \<Longrightarrow> in_u64 (getSize large s)"
  using f64_to_u64_range [OF ConvertUnit_f64_nonneg [OF parse_float_nonneg]]
  by (auto simp: getSize_def split: option.splits) (simp_all add: in_u64_def)

text \<open>A block device and at most \<open>n\<close> levels of children.\<close>

fun disk_ok :: "nat \<Rightarrow> disk \<Rightarrow> bool" where
  "disk_ok n (Disk s t cs) =
     (in_u64 s \<and> to_lower t \<in> {''disk'', ''crypt'', ''lvm'', ''part''} \<and>
      (case n of 0 \<Rightarrow> cs = [] | Suc m \<Rightarrow> list_all (disk_ok m) cs))"

text \<open>A disk with sizes in range and at most \<open>n\<close> levels of children.\<close>

fun disk_sized :: "nat \<Rightarrow> disk \<Rightarrow> bool" where
  "disk_sized n (Disk s t cs) =
     (in_u64 s \<and> (case n of 0 \<Rightarrow> cs = [] | Suc m \<Rightarrow> list_all (disk_sized m) cs))"

lemma disk_ok_sized: "disk_ok n d \<Longrightarrow> disk_sized n d"
  by (induction n arbitrary: d) (case_tac d; auto simp: list_all_iff)+

lemma populateBlkInfo_ok:
  assumes "\<And>y. in_u64 (large y)"
  shows "list_all (disk_ok n) (populateBlkInfo large es (int n))"
proof (induction n arbitrary: es)
  case 0
  have "populateBlkInfo large cs (- 1) = []" for cs by (simp add: populateBlkInfo.simps)
  then show ?case using getSize_range [OF assms]
    by (auto simp: populateBlkInfo.simps [of _ _ 0] list_all_iff)
next
  case (Suc n)
  have "int (Suc n) - 1 = int n" by simp
  then show ?case using getSize_range [OF assms] Suc.IH
    by (subst populateBlkInfo.simps) (auto simp: list_all_iff)
qed

lemma parse_count_range: "parse_count s = Some n \<Longrightarrow> in_u64 n"
  by (auto simp: parse_count_def parse_uint64_def in_u64_def split: option.splits if_splits)

definition cpu_ok :: "cpu \<Rightarrow> bool" where
  "cpu_ok c \<longleftrightarrow> in_u64 (Cpus c) \<and> in_u64 (Sockets c) \<and> in_u64 (Cores c) \<and> in_u64 (Threads c)"

lemma cpu_of_ok: "cpu_ok (cpu_of arch data)"
proof -
  have "in_u64 (case parse_count t of None \<Rightarrow> 0 | Some n \<Rightarrow> n)" for t
    using parse_count_range [of t] by (auto simp: in_u64_def split: option.splits)
  moreover have "in_u64 (case parse_count t of None \<Rightarrow> x mod 2 ^ 64 | Some n \<Rightarrow> n)" for t x
    using parse_count_range [of t] by (auto simp: in_u64_def split: option.splits)
  ultimately show ?thesis by (simp add: cpu_ok_def cpu_of_def Let_def)
qed

lemma go_div_i64: "in_i64 a \<Longrightarrow> in_i64 (go_div a 1024)"
proof -
  assume "in_i64 a"
  then have "\<bar>a\<bar> \<le> 2 ^ 63" by (auto simp: in_i64_def min_i64_def max_i64_def)
  then have "0 \<le> \<bar>a\<bar> div 1024" "\<bar>a\<bar> div 1024 \<le> 2 ^ 63 div 1024"
    by (simp_all add: pos_imp_zdiv_nonneg_iff zdiv_mono1)
  then show ?thesis by (auto simp: go_div_def in_i64_def min_i64_def max_i64_def sgn_if)
qed

lemma ConvertUnit_range: "in_i64 v \<Longrightarrow> in_i64 (fst (ConvertUnitToStandard u v))"
  by (auto simp: ConvertUnitToStandard_def ConvertUnitToBytes_def Let_def go_div_i64 wrap_i64_range)

lemma mem_total_range: "in_i64 (mem_total ls)"
proof (induction ls)
  case (Cons l ls)
  then show ?case using ConvertUnit_range parse_int64_in_range
    by (auto split: option.splits) (auto simp: in_i64_def min_i64_def max_i64_def)
qed (simp add: in_i64_def min_i64_def max_i64_def)

section \<open>The whole collection\<close>

definition one_line :: "string \<Rightarrow> bool" where
  "one_line s \<longleftrightarrow> newline \<notin> set s"

lemma single_line_ok [simp]: "one_line (single_line s)"
  by (simp add: one_line_def single_line_def)

definition device_ok :: "'z gpu_scheme \<Rightarrow> bool" where
  "device_ok d \<longleftrightarrow> one_line (dev_Name d) \<and> one_line (dev_Device d) \<and> one_line (dev_Vendor d)"

definition hardware_ok :: "hardware_info \<Rightarrow> bool" where
  "hardware_ok i \<longleftrightarrow>
     one_line (pr_Family (Product i)) \<and> one_line (pr_Name (Product i)) \<and> one_line (pr_Vendor (Product i)) \<and>
     cpu_ok (CPU i) \<and> list_all device_ok (GPUs i) \<and>
     list_all (\<lambda>a. device_ok a \<and> one_line (acc_Type a)) (Accelerators i) \<and>
     in_i64 (Mem i) \<and> list_all (disk_ok 10) (Blks i)"

lemma or_else_ok: "P d \<Longrightarrow> (\<And>x w'. m w = (Inr x, w') \<Longrightarrow> P x) \<Longrightarrow> P (fst (or_else d m w))"
  by (auto simp: or_else_def split: prod.splits sum.splits)

lemma bindP_eq: "bindP m k w = (y, w2) \<longleftrightarrow> (\<exists>x w1. m w = (x, w1) \<and> k x w1 = (y, w2))"
  by (auto simp: bindP_def split: prod.splits)

lemma collectProduct_ok:
  "one_line (pr_Family (fst (collectProduct h pi w))) \<and> one_line (pr_Name (fst (collectProduct h pi w))) \<and>
   one_line (pr_Vendor (fst (collectProduct h pi w)))"
  by (auto simp: collectProduct_def bindP_def retP_def no_product_def one_line_def single_line_def split: prod.splits)

lemma collectCPU_ok: "cpu_ok (fst (or_else (no_cpu\<lparr>Arch := a\<rparr>) (collectCPU h) w))"
proof (rule or_else_ok)
  show "cpu_ok (no_cpu\<lparr>Arch := a\<rparr>)" by (simp add: cpu_ok_def in_u64_def no_cpu_def)
qed (auto simp: collectCPU_def cpu_of_ok split: prod.splits option.splits sum.splits)

lemma collect_each_ok:
  assumes "\<And>n w x w'. f n w = (Inr x, w') \<Longrightarrow> P x" "collect_each f ns w = (xs, w2)"
  shows "list_all P xs"
  using assms(2)
proof (induction ns arbitrary: w xs)
  case (Cons n ns)
  then show ?case using assms(1) by (auto split: prod.splits sum.splits)
qed simp

lemma collectGPU_ok: "collectGPU h n w = (Inr g, w') \<Longrightarrow> device_ok g"
  by (auto simp: collectGPU_def bindE_eq_Inr bindP_eq device_ok_def)

lemma collectAccelerator_ok: "collectAccelerator h n w = (Inr a, w') \<Longrightarrow> device_ok a \<and> one_line (acc_Type a)"
  by (auto simp: collectAccelerator_def bindE_eq_Inr bindP_eq device_ok_def)

lemma collectGPUs_ok: "list_all device_ok (fst (or_else [] (collectGPUs h pi) w))"
proof (rule or_else_ok)
  fix gs w'
  assume "collectGPUs h pi w = (Inr gs, w')"
  then show "list_all device_ok gs"
    using collect_each_ok [of "collectGPU h", OF collectGPU_ok]
    by (auto simp: collectGPUs_def bindE_eq_Inr bindP_eq split: if_splits)
qed simp

lemma collectAccelerators_ok:
  "list_all (\<lambda>a. device_ok a \<and> one_line (acc_Type a)) (fst (or_else [] (collectAccelerators h) w))"
proof (rule or_else_ok)
  fix as w'
  assume "collectAccelerators h w = (Inr as, w')"
  then show "list_all (\<lambda>a. device_ok a \<and> one_line (acc_Type a)) as"
    using collect_each_ok [of "collectAccelerator h", OF collectAccelerator_ok]
    by (auto simp: collectAccelerators_def attempt_def bindP_eq split: if_splits prod.splits sum.splits)
qed simp

lemma collectMemory_ok: "in_i64 (fst (or_else 0 (collectMemory h) w))"
  by (rule or_else_ok)
     (auto simp: collectMemory_def bindE_eq_Inr mem_total_range in_i64_def [of 0] min_i64_def max_i64_def)

lemma collectDisks_ok:
  assumes "\<And>y. in_u64 (hw_large_u64 h y)"
  shows "list_all (disk_ok 10) (fst (or_else [] (collectDisks h) w))"
proof (rule or_else_ok)
  have ok: "list_all (disk_ok 10) (populateBlkInfo (hw_large_u64 h) es 10)" for es
    using populateBlkInfo_ok [of "hw_large_u64 h" 10 es, OF assms] by simp
  fix ds w'
  assume "collectDisks h w = (Inr ds, w')"
  then obtain es where "ds = populateBlkInfo (hw_large_u64 h) es 10"
    by (auto simp: collectDisks_def Let_def split: prod.splits option.splits sum.splits if_splits)
  then show "list_all (disk_ok 10) ds" using ok by simp
qed simp

lemma hardware_Collect_result_ok:
  assumes "\<And>y. in_u64 (hw_large_u64 h y)"
  shows "\<exists>info w'. hardware_Collect h pi w = ((None, info), w') \<and> hardware_ok info"
proof -
  obtain pr w1 where 1: "collectProduct h pi w = (pr, w1)" by fastforce
  obtain c w2 where 2: "or_else (no_cpu\<lparr>Arch := hw_arch h\<rparr>) (collectCPU h) w1 = (c, w2)" by fastforce
  obtain gs w3 where 3: "or_else [] (collectGPUs h pi) w2 = (gs, w3)" by fastforce
  obtain as w4 where 4: "or_else [] (collectAccelerators h) w3 = (as, w4)" by fastforce
  obtain mem w5 where 5: "or_else 0 (collectMemory h) w4 = (mem, w5)" by fastforce
  obtain blks w6 where 6: "or_else [] (collectDisks h) w5 = (blks, w6)" by fastforce
  obtain scr w7 where 7: "or_else [] (collectScreens h pi) w6 = (scr, w7)" by fastforce
  note run = 1 2 3 4 5 6 7
  have "hardware_ok \<lparr>Product = pr, CPU = c, GPUs = gs, Accelerators = as, Mem = mem, Blks = blks, Screens = scr\<rparr>"
    using collectProduct_ok [of h pi w] collectCPU_ok [of "hw_arch h" h w1] collectGPUs_ok [of h pi w2]
      collectAccelerators_ok [of h w3] collectMemory_ok [of h w4] collectDisks_ok [OF assms, of w5]
    by (simp add: run hardware_ok_def)
  then show ?thesis by (simp add: hardware_Collect_def bindP_def retP_def run)
qed


text \<open>A machine whose \<open>lscpu\<close> reports eight processors and whose \<open>lsblk\<close> a disk with a partition and
  a removable stick.\<close>

definition example_exec :: "nat \<Rightarrow> int option \<Rightarrow> string list \<Rightarrow> string list \<Rightarrow> cmd_out" where
  "example_exec n deadline env argv =
     \<lparr>stdout = marshal
        (if hd argv = ''lscpu''
         then JObj [(''lscpu'', JArr [JObj [(''field'', JStr ''CPU(s):''), (''data'', JStr ''8'')]])]
         else JObj [(''blockdevices'', JArr
           [JObj [(''size'', JStr ''5G''), (''type'', JStr ''disk''), (''rm'', JBool False),
              (''children'', JArr [JObj [(''size'', JStr ''3G''), (''type'', JStr ''part''), (''rm'', JBool False)]])],
            JObj [(''size'', JStr ''1G''), (''type'', JStr ''disk''), (''rm'', JBool True)]])]),
      stderr = [], cmd_err = (if hd argv = ''xrandr'' then Some (Errorf ''exit status 1'') else None)\<rparr>"

definition example_machine :: machine where
  "example_machine = \<lparr>fs = [], faults = [], seed = 0, m_exec = example_exec, m_environ = [], m_runs = 0,
     m_eval_symlinks = (\<lambda>_. Inl (PathError ENOENT)), m_readlink = (\<lambda>_. Inl (PathError ENOENT))\<rparr>"

definition example_hw :: hardware_options where
  "example_hw = default_hardware_options \<lparr>wl_init = 1, wl_memory_error = False, wl_displays = []\<rparr> ''amd64'' (\<lambda>_. 2 ^ 63)"


end
