(* ===== verification/Hardware_Readings.thy ===== *)
theory Hardware_Readings
  imports Hardware_Facts
begin

text \<open>
  Exact readings of the hardware collector: the search through the tree of \<open>lscpu\<close> is a search
  through the list of its entries, and sizes in the formats of \<open>lsblk\<close> and of \<open>/proc/meminfo\<close> come
  out exactly, rounded down to mebibytes. The names of device directories are recognised as
  intended.
\<close>

section \<open>The tree of \<open>lscpu\<close>\<close>

text \<open>The entries in the order the code meets them: each before its children.\<close>

fun lscpu_flat :: "lscpuEntry list \<Rightarrow> (string \<times> string) list" where
  "lscpu_flat [] = []"
| "lscpu_flat (LscpuEntry f d cs # es) = (f, d) # lscpu_flat cs @ lscpu_flat es"

lemma populateCPUInfo_flat:
  "populateCPUInfo es info =
     fold (\<lambda>(f, d) m. if f \<in> set usedCPUFields then AList.update f d m else m) (lscpu_flat es) info"
  by (induction es info rule: populateCPUInfo.induct) (simp_all add: Let_def)

lemma fold_update_last:
  "map_of (fold (\<lambda>(f, d) m. if f \<in> F then AList.update f d m else m) xs info) k =
     (if k \<in> F then map_of (rev xs @ info) k else map_of info k)"
proof (induction xs arbitrary: info)
  case (Cons x xs)
  obtain f d where x: "x = (f, d)" by fastforce
  show ?case unfolding fold_Cons comp_apply Cons.IH x
    by (auto simp: update_conv' map_add_def split: option.splits)
qed simp

text \<open>Searching the tree of \<open>lscpu\<close> is searching the list of its entries: the value of a field
  is that of the last entry with its name, at whatever depth, and only the fields in use are
  kept.\<close>

theorem populateCPUInfo_equiv:
  "map_of (populateCPUInfo es []) k =
     (if k \<in> set usedCPUFields then map_of (rev (lscpu_flat es)) k else None)"
  using fold_update_last [of "set usedCPUFields" "lscpu_flat es" "[]" k] by (simp add: populateCPUInfo_flat)

section \<open>Sizes\<close>

lemma digits_show_nat: "list_all is_digit (show_nat n)"
  by (simp add: list_all_iff show_nat_digits)

lemma digit_not_space: "is_digit c \<Longrightarrow> \<not> rx_space c" "is_digit c \<Longrightarrow> c \<noteq> CHR ''.''"
  by (auto simp: is_digit_def rx_space_def)

definition unit_ok :: "string \<Rightarrow> bool" where
  "unit_ok u \<longleftrightarrow> list_all (\<lambda>c. \<not> rx_space c \<and> \<not> is_digit c \<and> c \<noteq> CHR ''.'') u"

lemma list_all_hd: "list_all P u \<Longrightarrow> u \<noteq> [] \<Longrightarrow> P (hd u)"
  by (cases u) auto

lemma blockSize_match:
  assumes "unit_ok u"
  shows "\<exists>m. find_submatch blockSizeRegex (show_nat n @ u) = Some m \<and> m 1 = show_nat n \<and> m 2 = u"
proof -
  let ?ds = "show_nat n"
  have u: "u = [] \<or> \<not> is_digit (hd u)" "u = [] \<or> hd u \<noteq> CHR ''.''" "u = [] \<or> \<not> rx_space (hd u)"
    "list_all (\<lambda>c. \<not> rx_space c) u"
    using assms list_all_hd [of _ u] unfolding unit_ok_def by (fastforce simp: list_all_iff)+
  have h: "\<not> rx_space (hd (?ds @ u))"
    using list_all_hd [OF digits_show_nat show_nat_nonempty] digit_not_space by simp
  have s1: "rx_hd (RStar True (RChr rx_space)) (None, ?ds @ u, []) (None, ?ds @ u, [])"
    using rx_hd_star [of rx_space "[]" "?ds @ u" None "[]"] h by simp
  have d: "rx_hd (rx_plus (RChr is_digit)) (None, ?ds @ u, []) (prev_after ?ds None, u, [])"
    by (rule rx_hd_plus [OF digits_show_nat show_nat_nonempty u(1)])
  have "rx_run (RSeq (rx_lit ''.'') (RStar True (RChr is_digit))) (prev_after ?ds None, u, []) = []"
    using u(2) by (cases u) (simp_all add: rx_lit_run has_prefix_def)
  then have o: "rx_hd (rx_opt (RSeq (rx_lit ''.'') (RStar True (RChr is_digit)))) (prev_after ?ds None, u, [])
      (prev_after ?ds None, u, [])"
    unfolding rx_opt_def by (rule rx_hd_alt2) (rule rx_hd_eps)
  have g1: "rx_hd (RGrp 1 (RSeq (rx_plus (RChr is_digit)) (rx_opt (RSeq (rx_lit ''.'') (RStar True (RChr is_digit))))))
      (None, ?ds @ u, []) (prev_after ?ds None, u, [(1, ?ds)])"
    by (rule rx_hd_grp_text) (rule rx_hd_seq [OF d o])
  have s2: "rx_hd (RStar True (RChr rx_space)) (prev_after ?ds None, u, [(1, ?ds)]) (prev_after ?ds None, u, [(1, ?ds)])"
    using rx_hd_star [of rx_space "[]" u "prev_after ?ds None"] u(3) by simp
  have "rx_hd (RStar True (RChr (\<lambda>c. \<not> rx_space c))) (prev_after ?ds None, u @ [], [(1, ?ds)])
      (prev_after u (prev_after ?ds None), [], [(1, ?ds)])"
    by (rule rx_hd_star [OF u(4)]) simp
  then have g2: "rx_hd (RGrp 2 (RStar True (RChr (\<lambda>c. \<not> rx_space c)))) (prev_after ?ds None, u, [(1, ?ds)])
      (prev_after u (prev_after ?ds None), [], [(2, u), (1, ?ds)])"
    using rx_hd_grp_text by fastforce
  have s3: "rx_hd (RStar True (RChr rx_space)) (p, [], c) (p, [], c)" for p c
    using rx_hd_star [of rx_space "[]" "[]" p c] by simp
  have "rx_hd blockSizeRegex (None, ?ds @ u, []) (prev_after u (prev_after ?ds None), [], [(2, u), (1, ?ds)])"
    unfolding blockSizeRegex_def
    by (intro rx_hd_seq_Cons [OF rx_hd_begin] rx_hd_seq_Cons [OF s1] rx_hd_seq_Cons [OF g1] rx_hd_seq_Cons [OF s2]
        rx_hd_seq_Cons [OF g2] rx_hd_seq_Cons [OF s3] rx_hd_seq_Cons [OF rx_hd_end] rx_hd_seq_Nil)
  then show ?thesis using find_submatch_hd [of blockSizeRegex "?ds @ u"] by (auto simp: group_def)
qed

text \<open>The names of units have no blank, digit or point, in any case.\<close>

lemma unit_scale_ok:
  assumes "unit_scale (to_lower u) = Some k"
  shows "unit_ok u"
proof -
  have keep: "rx_space c \<or> is_digit c \<or> c = CHR ''.'' \<Longrightarrow> to_lower_char c = c" for c
    by (auto simp: rx_space_def is_digit_def to_lower_char_def Let_def)
  let ?units = "[[], ''b'', ''k'', ''kb'', ''kib'', ''m'', ''mb'', ''mib'', ''g'', ''gb'', ''gib'', ''t'', ''tb'', ''tib'']"
  have "to_lower u \<in> set ?units" using assms unfolding unit_scale_def by (auto split: if_splits)
  moreover have "list_all unit_ok ?units" by code_simp
  ultimately have "unit_ok (to_lower u)" unfolding list_all_iff by (elim bspec [rotated])
  then show ?thesis using keep by (fastforce simp: unit_ok_def to_lower_def list_all_iff)
qed

lemma f64_scale_Fin:
  assumes "0 \<le> m" "m < 2 ^ 107" "e + j \<le> 128"
  shows "f64_scale j (Fin m e) = Fin m (e + j)"
proof -
  have "m * 2 ^ nat (e + j) < f64_limit" if "0 \<le> e + j"
  proof -
    have "m * 2 ^ nat (e + j) \<le> 2 ^ 107 * 2 ^ 128"
      using assms by (intro mult_mono power_increasing) auto
    also have "\<dots> < f64_limit" by (simp add: f64_limit_def)
    finally show ?thesis .
  qed
  then show ?thesis by (cases "0 \<le> e + j") (simp_all add: f64_scale_def)
qed

lemma ConvertUnit_f64_exact:
  assumes "0 \<le> m" "m < 2 ^ 107" "e \<le> 0" "unit_scale (to_lower u) = Some k"
  shows "\<exists>j. k = 2 ^ nat j \<and> 0 \<le> j \<and> j \<le> 40 \<and> ConvertUnitToStandard_f64 u (Fin m e) = Fin m (e + (j - 20))"
proof -
  have sc: "f64_scale i (Fin m e') = Fin m (e' + i)" if "e' \<le> 40" "i \<le> 20" for e' i
    using f64_scale_Fin [OF assms(1,2)] that by simp
  consider "to_lower u \<in> {[], ''b''}" "k = 2 ^ 0" | "to_lower u \<in> {''k'', ''kb'', ''kib''}" "k = 2 ^ 10"
    | "to_lower u \<in> {''m'', ''mb'', ''mib''}" "k = 2 ^ 20" | "to_lower u \<in> {''g'', ''gb'', ''gib''}" "k = 2 ^ 30"
    | "to_lower u \<in> {''t'', ''tb'', ''tib''}" "k = 2 ^ 40"
    using assms(4) unfolding unit_scale_def by (simp only: split: if_splits) simp_all
  then show ?thesis
  proof cases
    case 1
    then show ?thesis using assms(3) by (intro exI [of _ 0]) (auto simp: ConvertUnitToStandard_f64_def sc)
  next
    case 2
    then show ?thesis using assms(3) by (intro exI [of _ 10]) (auto simp: ConvertUnitToStandard_f64_def sc)
  next
    case 3
    then show ?thesis using assms(3)
      by (intro exI [of _ 20]) (auto simp: ConvertUnitToStandard_f64_def sc eval_nat_numeral)
  next
    case 4
    then show ?thesis using assms(3)
      by (intro exI [of _ 30]) (auto simp: ConvertUnitToStandard_f64_def sc numeral_3_eq_3)
  next
    case 5
    then show ?thesis using assms(3)
      by (intro exI [of _ 40]) (auto simp: ConvertUnitToStandard_f64_def sc eval_nat_numeral)
  qed
qed



section \<open>Memory\<close>

text \<open>A line of \<open>meminfo\<close>: the name, a colon, blanks, the number, and a blank and the unit if there is
  one.\<close>

definition mem_line :: "string \<times> nat \<times> nat \<times> string \<Rightarrow> string" where
  "mem_line e = (case e of (name, blanks, n, u) \<Rightarrow>
     name @ '':'' @ replicate blanks (CHR '' '') @ show_nat n @ (if u = [] then [] else CHR '' '' # u))"

definition mem_entry_ok :: "string \<times> nat \<times> nat \<times> string \<Rightarrow> bool" where
  "mem_entry_ok e = (case e of (name, blanks, n, u) \<Rightarrow>
     name \<noteq> [] \<and> list_all (\<lambda>c. \<not> rx_space c \<and> c \<noteq> CHR '':'') name \<and> list_all (\<lambda>c. \<not> rx_space c) u)"

lemma meminfo_match:
  assumes "mem_entry_ok (name, blanks, n, u)"
  shows "\<exists>m. find_submatch meminfoRegex (mem_line (name, blanks, n, u)) = Some m \<and>
    m 1 = name \<and> m 2 = show_nat n \<and> m 3 = u"
proof -
  let ?ds = "show_nat n" and ?bl = "replicate blanks (CHR '' '')" and ?t = "if u = [] then [] else CHR '' '' # u"
  have nm: "name \<noteq> []" "list_all (\<lambda>c. \<not> rx_space c \<and> c \<noteq> CHR '':'') name" "list_all (\<lambda>c. \<not> rx_space c) u"
    using assms by (simp_all add: mem_entry_ok_def)
  have sp: "rx_space (CHR '' '')" by (simp add: rx_space_def)
  let ?p1 = "prev_after name None" let ?p2 = "prev_after '':'' ?p1" let ?p3 = "prev_after ?bl ?p2"
  let ?p4 = "prev_after ?ds ?p3" let ?c2 = "[(2, ?ds), (1, name)]"
  have g1: "rx_hd (RGrp 1 (rx_plus (RChr (\<lambda>c. \<not> rx_space c \<and> c \<noteq> CHR '':'')))) (None, name @ '':'' @ ?bl @ ?ds @ ?t, [])
      (?p1, '':'' @ ?bl @ ?ds @ ?t, [(1, name)])"
    by (intro rx_hd_grp_text rx_hd_plus nm) simp
  have l: "rx_hd (rx_lit '':'') (?p1, '':'' @ ?bl @ ?ds @ ?t, c) (?p2, ?bl @ ?ds @ ?t, c)" for c
    by (rule rx_hd_lit)
  have b: "rx_hd (RStar True (RChr rx_space)) (?p2, ?bl @ ?ds @ ?t, c) (?p3, ?ds @ ?t, c)" for c
    using sp list_all_hd [OF digits_show_nat show_nat_nonempty, of n] digit_not_space(1)
    by (intro rx_hd_star) (simp_all add: list_all_iff)
  have g2: "rx_hd (RGrp 2 (rx_plus (RChr is_digit))) (?p3, ?ds @ ?t, [(1, name)]) (?p4, ?t, ?c2)"
    by (intro rx_hd_grp_text rx_hd_plus digits_show_nat show_nat_nonempty) (simp add: is_digit_def)
  have s: "rx_hd (RStar True (RChr rx_space)) (p, [], c) (p, [], c)" for p c
    using rx_hd_star [of rx_space "[]" "[]" p c] by simp
  let ?opt = "rx_opt (RSeq (rx_plus (RChr rx_space)) (RGrp 3 (rx_plus (RChr (\<lambda>c. \<not> rx_space c)))))"
  let ?c3 = "(if u = [] then [] else [(3, u)]) @ ?c2"
  have o: "\<exists>p. rx_hd ?opt (?p4, ?t, ?c2) (p, [], ?c3)"
  proof (cases "u = []")
    case True
    then have "rx_run (RSeq (rx_plus (RChr rx_space)) (RGrp 3 (rx_plus (RChr (\<lambda>c. \<not> rx_space c))))) (?p4, ?t, ?c2) = []"
      by (simp add: rx_plus_def)
    then show ?thesis using True rx_hd_alt2 [OF _ rx_hd_eps] unfolding rx_opt_def by fastforce
  next
    case False
    have "rx_hd (rx_plus (RChr rx_space)) (?p4, '' '' @ u, ?c2) (prev_after '' '' ?p4, u, ?c2)"
      using sp nm(3) list_all_hd [OF nm(3) False] by (intro rx_hd_plus) simp_all
    moreover have "rx_hd (RGrp 3 (rx_plus (RChr (\<lambda>c. \<not> rx_space c)))) (prev_after '' '' ?p4, u @ [], ?c2)
        (prev_after u (prev_after '' '' ?p4), [], (3, u) # ?c2)"
      by (intro rx_hd_grp_text rx_hd_plus nm False) simp
    ultimately show ?thesis using False unfolding rx_opt_def
      by (auto intro!: exI rx_hd_alt1 rx_hd_seq)
  qed
  then obtain p where p: "rx_hd ?opt (?p4, ?t, ?c2) (p, [], ?c3)" ..
  have "rx_hd meminfoRegex (None, name @ '':'' @ ?bl @ ?ds @ ?t, []) (p, [], ?c3)"
    unfolding meminfoRegex_def
    by (intro rx_hd_seq_Cons [OF rx_hd_begin] rx_hd_seq_Cons [OF g1] rx_hd_seq_Cons [OF l] rx_hd_seq_Cons [OF b]
        rx_hd_seq_Cons [OF g2] rx_hd_seq_Cons [OF p] rx_hd_seq_Cons [OF s] rx_hd_seq_Cons [OF rx_hd_end] rx_hd_seq_Nil)
  then have "find_submatch meminfoRegex (mem_line (name, blanks, n, u)) = Some (group ?c3)"
    using find_submatch_hd unfolding mem_line_def by (metis (no_types, lifting) case_prod_conv)
  then show ?thesis by (auto simp: group_def)
qed

lemma mem_total_lines:
  assumes "list_all mem_entry_ok es" "list_all (\<lambda>(_, _, n, _). int n < 2 ^ 63) es"
  shows "mem_total (map mem_line es @ [[]]) =
    (case find (\<lambda>e. fst e = ''MemTotal'') es of
       None \<Rightarrow> 0
     | Some (_, _, n, u) \<Rightarrow> fst (ConvertUnitToStandard u (int n)))"
  using assms
proof (induction es)
  case (Cons e es)
  obtain name blanks n u where e: "e = (name, blanks, n, u)" by (cases e)
  obtain m where m: "find_submatch meminfoRegex (mem_line e) = Some m" "m 1 = name" "m 2 = show_nat n" "m 3 = u"
    using meminfo_match [of name blanks n u] Cons.prems(1) e by auto
  have "mem_line e \<noteq> []" by (simp add: mem_line_def e)
  moreover have "parse_int64 (show_nat n) = Some (int n)"
    using parse_int64_show_int [of "int n"] Cons.prems(2) e
    by (simp add: show_int_def in_i64_def min_i64_def max_i64_def)
  ultimately show ?case using m Cons e by simp
qed simp

text \<open>C35: the total of \<open>meminfo\<close>. For a file of lines in the format of the kernel the memory reported is
  the number of the first line named \<open>MemTotal\<close>, in mebibytes rounded down, whatever other lines
  come before and after.\<close>

theorem collectMemory_total:
  assumes "os_read_file (path_join [hw_root h, ''proc/meminfo'']) w = (Inr (join_with [newline] (map mem_line es @ [[]])), w')"
    and "list_all mem_entry_ok es" "list_all (\<lambda>(_, _, n, _). int n < 2 ^ 63) es"
    and "find (\<lambda>e. fst e = ''MemTotal'') es = Some (name, blanks, n, u)"
    and "unit_scale (to_lower u) = Some k" "int n * k < 2 ^ 63"
  shows "collectMemory h w = (Inr (int n * k div 2 ^ 20), w')"
proof -
  have "newline \<notin> set (mem_line e)" if "e \<in> set es" for e
  proof -
    have "mem_entry_ok e" using assms(2) that by (simp add: list_all_iff)
    moreover have "\<not> is_digit newline" by (simp add: newline_def is_digit_def)
    ultimately show ?thesis
      by (auto simp: mem_entry_ok_def mem_line_def list_all_iff rx_space_def newline_def dest: show_nat_digits
          split: prod.splits if_splits)
  qed
  then have "split_on newline (join_with [newline] (map mem_line es @ [[]])) = map mem_line es @ [[]]"
    by (intro split_on_join) auto
  then have "collectMemory h w = (Inr (fst (ConvertUnitToStandard u (int n))), w')"
    using assms(1) mem_total_lines [OF assms(2,3)] assms(4)
    by (simp add: collectMemory_def bindE_def on_error_def)
  moreover have "0 < k" using assms(5) by (auto simp: unit_scale_def split: if_splits)
  then have "fst (ConvertUnitToStandard u (int n)) = int n * k div 2 ^ 20"
  proof -
    assume k: "0 < k"
    then have "int n \<le> int n * k" using mult_left_mono [of 1 k "int n"] by simp
    then have i: "in_i64 (int n)" "in_i64 (int n * k)"
      using assms(6) k by (simp_all add: in_i64_def min_i64_def max_i64_def)
    have "go_div (int n * k) (2 ^ 20) = int n * k div 2 ^ 20"
      using k by (cases "n = 0") (simp_all add: go_div_def sgn_if abs_mult)
    then show ?thesis using ConvertUnit_scales [OF i(1), of u] assms(5) i(2) by (simp add: wrap_i64_id)
  qed
  ultimately show ?thesis by simp
qed

definition example_meminfo :: "(string \<times> nat \<times> nat \<times> string) list" where
  "example_meminfo = [(''Before'', 1, 7, []), (''MemTotal'', 2, 3, ''GB''), (''MemFree'', 3, 9, ''kB'')]"

definition meminfo_machine :: machine where
  "meminfo_machine = example_machine\<lparr>fs := [([''/'', ''proc'', ''meminfo''],
     FileN (join_with [newline] (map mem_line example_meminfo @ [[]])) 292), ([''/'', ''proc''], DirN 493)]\<rparr>"

theorem collectMemory_total_witness:
  "fst (collectMemory example_hw meminfo_machine) = Inr 3072"
proof -
  have rd: "fst (os_read_file (path_join [hw_root example_hw, ''proc/meminfo'']) meminfo_machine) =
      Inr (join_with [newline] (map mem_line example_meminfo @ [[]]))"
    by code_simp
  obtain w' where w': "os_read_file (path_join [hw_root example_hw, ''proc/meminfo'']) meminfo_machine =
      (Inr (join_with [newline] (map mem_line example_meminfo @ [[]])), w')"
    using rd by (metis prod.collapse)
  have ok: "list_all mem_entry_ok example_meminfo" "list_all (\<lambda>(_, _, n, _). int n < 2 ^ 63) example_meminfo"
    "find (\<lambda>e. fst e = ''MemTotal'') example_meminfo = Some (''MemTotal'', 2, 3, ''GB'')"
    "unit_scale (to_lower ''GB'') = Some (2 ^ 30)" "int 3 * 2 ^ 30 < 2 ^ 63" by code_simp+
  show ?thesis using collectMemory_total [OF w' ok] by simp
qed

section \<open>Device directories\<close>

text \<open>A directory is taken for a graphics card, or an accelerator, exactly if its name is the word
  and a number.\<close>

lemma device_names:
  "match_string gpuSymlinkRegex n \<longleftrightarrow> (\<exists>ds. n = ''card'' @ ds \<and> ds \<noteq> [] \<and> list_all is_digit ds)"
  "match_string accelSymlinkRegex n \<longleftrightarrow> (\<exists>ds. n = ''accel'' @ ds \<and> ds \<noteq> [] \<and> list_all is_digit ds)"
  unfolding gpuSymlinkRegex_def accelSymlinkRegex_def by (rule match_word_digits)+

end
