(* ===== verification/Json_Facts.thy ===== *)
theory Json_Facts
  imports Go_Json
begin

text \<open>
  What \<open>json.Marshal\<close> and \<open>json.MarshalIndent\<close> write, \<open>json.Unmarshal\<close> reads back: the round trip of
  the JSON model, for every value whose numbers are number literals and whose nesting stays
  within the limit. The proof is for every layout of white space; the locale \<open>json_layout\<close> is
  interpreted for the compact and for the indented one.
\<close>

section \<open>Strings\<close>

lemma hex_digit_val: "k < 16 \<Longrightarrow> hex_val (hex_digit k) = Some k"
  by (auto simp: hex_val_def hex_digit_def Let_def)

lemma char_of_nat_eq: "of_char c = (n :: nat) \<Longrightarrow> c = char_of n"
  by (metis char_of_char)

lemma read_string_u:
  assumes "of_char c = n" "n < 128"
  shows "read_string ([CHR 0x5C, CHR ''u'', CHR ''0'', CHR ''0'', hex_digit (n div 16), hex_digit (n mod 16)] @ t)
    = map_option (apfst ((#) c)) (read_string t)"
proof -
  have "hex_val (hex_digit (n div 16)) = Some (n div 16)" "hex_val (hex_digit (n mod 16)) = Some (n mod 16)"
    using assms by (simp_all add: hex_digit_val)
  moreover have "hex_val (CHR ''0'') = Some 0" by (simp add: hex_val_def)
  ultimately have "hex4 ([CHR ''0'', CHR ''0'', hex_digit (n div 16), hex_digit (n mod 16)] @ t) = Some (n, t)"
    by (simp add: hex4_def)
  moreover have "escape_rune n t = (n, t)" using assms by (simp add: escape_rune_def)
  moreover have "utf8 n = [c]" using assms char_of_nat_eq [of c n] by (simp add: utf8_def)
  moreover have "(@) [c] = (#) c" by auto
  ultimately show ?thesis by (subst read_string.simps) simp
qed

lemma read_string_simple:
  "simple_escape e = Some x \<Longrightarrow> e \<noteq> CHR ''u'' \<Longrightarrow>
     read_string (CHR 0x5C # e # t) = map_option (apfst ((#) x)) (read_string t)"
  by (subst read_string.simps) simp

lemma read_string_plain:
  "c \<noteq> CHR 0x22 \<Longrightarrow> c \<noteq> CHR 0x5C \<Longrightarrow> \<not> (of_char c :: nat) < 32 \<Longrightarrow>
     read_string (c # t) = map_option (apfst ((#) c)) (read_string t)"
  by (subst read_string.simps) simp

lemma read_string_escape_char:
  "read_string (escape_char c @ t) = map_option (apfst ((#) c)) (read_string t)"
proof -
  let ?n = "of_char c :: nat"
  consider "c = CHR 0x22 \<or> c = CHR 0x5C" | "?n \<in> {8, 12, 10, 13, 9}"
    | "c \<noteq> CHR 0x22" "c \<noteq> CHR 0x5C" "?n \<notin> {8, 12, 10, 13, 9}"
      "?n < 32 \<or> c = CHR ''<'' \<or> c = CHR ''>'' \<or> c = CHR ''&''"
    | "c \<noteq> CHR 0x22" "c \<noteq> CHR 0x5C" "\<not> ?n < 32" "c \<noteq> CHR ''<''" "c \<noteq> CHR ''>''" "c \<noteq> CHR ''&''"
    by blast
  then show ?thesis
  proof cases
    case 1
    then have "escape_char c = [CHR 0x5C, c]" by (auto simp: escape_char_def Let_def)
    with 1 show ?thesis by (auto simp: read_string_simple simple_escape_def)
  next
    case 2
    moreover have "?n = of_char d \<Longrightarrow> c = d" for d by simp
    from this [of "CHR 0x08"] this [of "CHR 0x0C"] this [of "CHR 0x0A"] this [of "CHR 0x0D"]
      this [of "CHR 0x09"]
    have "?n = 8 \<Longrightarrow> c = CHR 0x08" "?n = 12 \<Longrightarrow> c = CHR 0x0C" "?n = 10 \<Longrightarrow> c = CHR 0x0A"
      "?n = 13 \<Longrightarrow> c = CHR 0x0D" "?n = 9 \<Longrightarrow> c = CHR 0x09" by simp_all
    ultimately have "c \<in> {CHR 0x08, CHR 0x0C, CHR 0x0A, CHR 0x0D, CHR 0x09}" by auto
    then show ?thesis
      by (auto simp: escape_char_def read_string_simple simple_escape_def)
  next
    case 3
    then have "escape_char c = [CHR 0x5C, CHR ''u'', CHR ''0'', CHR ''0'', hex_digit (?n div 16), hex_digit (?n mod 16)]"
      by (simp add: escape_char_def Let_def)
    moreover have "?n < 128" using 3(4) by auto
    ultimately show ?thesis by (simp only: read_string_u)
  next
    case 4
    then have "escape_char c = [c]" by (auto simp: escape_char_def Let_def)
    with 4 show ?thesis by (simp add: read_string_plain)
  qed
qed

lemma read_string_marshal:
  "read_string (concat (map escape_char s) @ CHR 0x22 # rest) = Some (s, rest)"
proof (induction s)
  case Nil
  then show ?case by (subst read_string.simps) simp
next
  case (Cons c s)
  then show ?case by (simp add: read_string_escape_char)
qed

section \<open>Numbers\<close>

text \<open>What can follow a value in an encoded document.\<close>

definition delim :: "string \<Rightarrow> bool" where
  "delim rest \<longleftrightarrow> rest = [] \<or> hd rest \<in> {CHR '','', CHR 0x7D, CHR 0x5D} \<or> json_space (hd rest)"

definition num_ok :: "string \<Rightarrow> bool" where
  "num_ok l \<longleftrightarrow> l \<noteq> [] \<and> (hd l = CHR ''-'' \<or> is_digit (hd l)) \<and>
     (\<forall>rest. delim rest \<longrightarrow> read_number (l @ rest) = Some (l, rest))"

lemma delim_not_digit: "delim rest \<Longrightarrow> dropWhile is_digit rest = rest \<and> takeWhile is_digit rest = []"
  by (cases rest) (auto simp: delim_def is_digit_def json_space_def)

lemma span_digits_append:
  assumes "list_all is_digit ds" "delim rest"
  shows "span_digits (ds @ rest) = (ds, rest)"
  using assms delim_not_digit [OF assms(2)]
  by (auto simp: span_digits_def list_all_iff takeWhile_append2 dropWhile_append2)

lemma read_number_int:
  assumes "list_all is_digit ds" "ds \<noteq> []" "hd ds = CHR ''0'' \<Longrightarrow> ds = ''0''" "delim rest"
  shows "read_number (ds @ rest) = Some (ds, rest)" "read_number (CHR ''-'' # ds @ rest) = Some (CHR ''-'' # ds, rest)"
proof -
  have i: "read_int_part (ds @ rest) = Some (ds, rest)"
    using span_digits_append [OF assms(1,4)] assms(2,3)
    by (cases ds) (auto simp: read_int_part_def)
  have f: "read_frac rest = Some ([], rest)" "read_exp rest = Some ([], rest)"
    using assms(4) by (auto simp: read_frac_def read_exp_def delim_def json_space_def split: list.splits)
  have "hd ds \<noteq> CHR ''-''" using assms(1,2) by (cases ds) (auto simp: is_digit_def)
  then show "read_number (ds @ rest) = Some (ds, rest)"
    using i f assms(2) by (cases ds) (auto simp: read_number_def Let_def)
  show "read_number (CHR ''-'' # ds @ rest) = Some (CHR ''-'' # ds, rest)"
    using i f by (simp add: read_number_def Let_def)
qed

lemma show_nat_hd: "hd (show_nat n) = CHR ''0'' \<Longrightarrow> n = 0"
proof (induction n rule: show_nat.induct)
  case (1 n)
  show ?case
  proof (cases "n < 10")
    case True
    have "digit_char 0 = CHR ''0''" by code_simp
    with True 1(2) have "digit_char n = digit_char 0" by (simp add: show_nat.simps [of n])
    then have "digit_val (digit_char n) = digit_val (digit_char 0)" by simp
    then show ?thesis using True by simp
  next
    case False
    then have "hd (show_nat n) = hd (show_nat (n div 10))" by (simp add: show_nat.simps [of n])
    with 1 False have "n div 10 = 0" by simp
    with False show ?thesis by simp
  qed
qed

lemma num_ok_show_int: "num_ok (show_int i)"
proof -
  have d: "list_all is_digit (show_nat k)" for k using show_nat_digits by (auto simp: list_all_iff)
  have z: "hd (show_nat k) = CHR ''0'' \<Longrightarrow> show_nat k = ''0''" for k
    using show_nat_hd [of k] by (simp add: digit_char_def show_nat.simps)
  have "is_digit (hd (show_nat k))" for k
    using d [of k] show_nat_nonempty [of k] by (cases "show_nat k") auto
  then show ?thesis
    using read_number_int [OF d show_nat_nonempty z] by (auto simp: num_ok_def show_int_def)
qed

section \<open>Values\<close>

fun json_wf :: "json \<Rightarrow> bool" where
  "json_wf (JNum l) = num_ok l"
| "json_wf (JArr xs) = (\<forall>x\<in>set xs. json_wf x)"
| "json_wf (JObj kvs) = (\<forall>kv\<in>set kvs. json_wf (snd kv))"
| "json_wf v = True"

fun json_depth :: "json \<Rightarrow> nat" where
  "json_depth (JArr xs) = Suc (fold max (map json_depth xs) 0)"
| "json_depth (JObj kvs) = Suc (fold max (map (\<lambda>kv. json_depth (snd kv)) kvs) 0)"
| "json_depth v = 0"

lemma skip_ws_first: "\<not> json_space c \<Longrightarrow> skip_ws (c # cs) = c # cs"
  by (simp add: skip_ws_def)

lemma skip_ws_append: "list_all json_space ws \<Longrightarrow> skip_ws (ws @ s) = skip_ws s"
  by (auto simp: skip_ws_def list_all_iff dropWhile_append2)

text \<open>Fuel that is enough for a value.\<close>

fun json_fuel :: "json \<Rightarrow> nat" where
  "json_fuel (JArr xs) = Suc (Suc (length xs + sum_list (map json_fuel xs)))"
| "json_fuel (JObj kvs) = Suc (Suc (length kvs + sum_list (map (\<lambda>kv. json_fuel (snd kv)) kvs)))"
| "json_fuel v = 1"

lemma join_first:
  assumes "xs \<noteq> []" "hd xs = c # cs"
  shows "\<exists>cs'. join_with sep xs = c # cs'"
proof (cases xs)
  case (Cons x ys)
  with assms(2) show ?thesis by (cases ys) auto
qed (use assms in simp)

lemma read_value_space: "list_all json_space ws \<Longrightarrow> read_value n d (ws @ s) = read_value n d s"
  by (cases n) (simp_all add: value_body_def skip_ws_append)

text \<open>What a layout promises: nothing but white space between the parts of a document.\<close>

locale json_layout =
  fixes nl :: "nat \<Rightarrow> string" and sp :: string
  assumes nl_space: "list_all json_space (nl k)" and sp_space: "list_all json_space sp"
begin

definition reads_back :: "nat \<Rightarrow> json \<Rightarrow> bool" where
  "reads_back k v \<longleftrightarrow> (\<forall>n d rest. json_fuel v \<le> n \<and> json_depth v \<le> d \<and> delim rest \<longrightarrow>
     read_value n d (print_json nl sp k v @ rest) = Some (v, rest))"

definition print_member :: "nat \<Rightarrow> string \<times> json \<Rightarrow> string" where
  "print_member k kv = marshal_string (fst kv) @ '':'' @ sp @ print_json nl sp k (snd kv)"

lemma print_obj:
  "kvs \<noteq> [] \<Longrightarrow> print_json nl sp k (JObj kvs) = [CHR 0x7B] @ nl (Suc k) @
     join_with ('','' @ nl (Suc k)) (map (print_member (Suc k)) kvs) @ nl k @ [CHR 0x7D]"
  unfolding print_member_def [abs_def] by simp

lemma delim_close: "delim (nl k @ CHR 0x5D # rest)" "delim (nl k @ CHR 0x7D # rest)"
  using nl_space [of k] by (cases "nl k"; simp add: delim_def)+

text \<open>The first byte of an encoded value tells its kind and is no white space.\<close>

lemma print_first:
  "json_wf v \<Longrightarrow> \<exists>c cs. print_json nl sp k v = c # cs \<and> \<not> json_space c \<and> c \<noteq> CHR 0x5D \<and> c \<noteq> CHR 0x7D"
proof (cases v)
  case (JNum l)
  assume "json_wf v"
  with JNum show ?thesis
    by (cases l) (auto simp: num_ok_def json_space_def is_digit_def)
qed (auto simp: json_space_def marshal_string_def)

lemma read_elems_print:
  assumes "xs \<noteq> []" "\<And>x. x \<in> set xs \<Longrightarrow> reads_back k x \<and> json_depth x \<le> d"
    and "length xs + sum_list (map json_fuel xs) < n" "list_all json_space ws"
  shows "read_elems n d (ws @ join_with ('','' @ ws) (map (print_json nl sp k) xs) @ nl j @ CHR 0x5D # rest)
    = Some (xs, rest)"
  using assms
proof (induction xs arbitrary: n)
  case (Cons x xs)
  from Cons.prems(3) obtain m where n: "n = Suc m" "json_fuel x \<le> m" "length xs + sum_list (map json_fuel xs) < m"
    by (cases n) auto
  have x: "read_value m d (ws @ print_json nl sp k x @ t) = Some (x, t)" if "delim t" for t
    using Cons.prems(2) [of x] n(2) that by (simp add: read_value_space [OF Cons.prems(4)] reads_back_def)
  show ?case
  proof (cases xs)
    case Nil
    with x [OF delim_close(1)] n(1) show ?thesis
      by (simp add: elems_body_def skip_ws_append [OF nl_space] skip_ws_first json_space_def)
  next
    case (Cons y ys)
    let ?t = "ws @ join_with ('','' @ ws) (map (print_json nl sp k) xs) @ nl j @ CHR 0x5D # rest"
    have "read_value m d (ws @ print_json nl sp k x @ CHR '','' # ?t) = Some (x, CHR '','' # ?t)"
      by (rule x) (simp add: delim_def)
    moreover have "read_elems m d ?t = Some (xs, rest)"
      using Cons.IH [of m] Cons.prems n(3) Cons by simp
    moreover have "ws @ join_with ('','' @ ws) (map (print_json nl sp k) (x # xs)) @ nl j @ CHR 0x5D # rest
        = ws @ print_json nl sp k x @ CHR '','' # ?t"
      using Cons by simp
    ultimately show ?thesis using n(1) by (simp only: read_elems.simps)
        (simp add: elems_body_def skip_ws_first json_space_def)
  qed
qed simp

lemma read_members_print:
  assumes "kvs \<noteq> []" "\<And>kv. kv \<in> set kvs \<Longrightarrow> reads_back k (snd kv) \<and> json_depth (snd kv) \<le> d"
    and "length kvs + sum_list (map (\<lambda>kv. json_fuel (snd kv)) kvs) < n" "list_all json_space ws"
  shows "read_members n d (ws @ join_with ('','' @ ws) (map (print_member k) kvs) @ nl j @ CHR 0x7D # rest)
    = Some (kvs, rest)"
  using assms
proof (induction kvs arbitrary: n)
  case (Cons kv kvs)
  obtain key v where kv: "kv = (key, v)" by (cases kv)
  from Cons.prems(3) kv obtain m where n: "n = Suc m" "json_fuel v \<le> m"
    "length kvs + sum_list (map (\<lambda>kv. json_fuel (snd kv)) kvs) < m"
    by (cases n) auto
  have v: "reads_back k v" "json_depth v \<le> d" using Cons.prems(2) [of kv] kv by simp_all
  have head: "members_body (read_value m) (read_members m) d (ws @ print_member k kv @ t) =
     (case skip_ws t of
        [] \<Rightarrow> None
      | c3 # cs3 \<Rightarrow>
         if c3 = CHR 0x7D then Some ([(key, v)], cs3)
         else if c3 = CHR '','' \<and> length cs3 < length (ws @ print_member k kv @ t)
           then map_option (apfst ((#) (key, v))) (read_members m d cs3)
         else None)" if "delim t" for t
  proof -
    have "read_value m d (sp @ print_json nl sp k v @ t) = Some (v, t)"
      using v n(2) that by (simp add: read_value_space [OF sp_space] reads_back_def)
    moreover have "skip_ws (ws @ print_member k kv @ t) =
        CHR 0x22 # concat (map escape_char key) @ CHR 0x22 # CHR '':'' # sp @ print_json nl sp k v @ t"
      by (simp add: skip_ws_append [OF Cons.prems(4)] kv print_member_def marshal_string_def skip_ws_first json_space_def)
    moreover have "length (print_member k kv) = 3 + length (concat (map escape_char key)) + length sp +
        length (print_json nl sp k v)"
      by (simp add: kv print_member_def marshal_string_def)
    ultimately show ?thesis
      by (cases "skip_ws t") (simp_all add: members_body_def read_string_marshal skip_ws_first json_space_def)
  qed
  show ?case
  proof (cases kvs)
    case Nil
    then show ?thesis using head [OF delim_close(2)] n(1) kv
      by (simp add: skip_ws_append [OF nl_space] skip_ws_first json_space_def)
  next
    case (Cons y ys)
    let ?t = "ws @ join_with ('','' @ ws) (map (print_member k) kvs) @ nl j @ CHR 0x7D # rest"
    have "read_members m d ?t = Some (kvs, rest)"
      using Cons.IH [of m] Cons.prems n(3) Cons by simp
    moreover have "ws @ join_with ('','' @ ws) (map (print_member k) (kv # kvs)) @ nl j @ CHR 0x7D # rest
        = ws @ print_member k kv @ CHR '','' # ?t"
      using Cons by simp
    ultimately show ?thesis using n(1) head [of "CHR '','' # ?t"] kv
      by (simp only: read_members.simps) (simp add: delim_def skip_ws_first json_space_def)
  qed
qed simp

lemma print_reads_back: "json_wf v \<Longrightarrow> reads_back k v"
proof (induction v arbitrary: k)
  case (JStr s)
  have "read_value n d (marshal (JStr s) @ rest) = Some (JStr s, rest)" if "0 < n" for n d rest
    using that read_string_marshal [of s rest]
    by (cases n) (simp_all add: value_body_def marshal_string_def skip_ws_first json_space_def)
  then show ?case by (simp add: reads_back_def)
next
  case (JNum l)
  then have l: "num_ok l" by simp
  then obtain c cs where c: "l = c # cs" "c = CHR ''-'' \<or> is_digit c" by (cases l) (auto simp: num_ok_def)
  have r: "delim rest \<Longrightarrow> read_number (c # cs @ rest) = Some (c # cs, rest)" for rest
    using l c(1) by (auto simp: num_ok_def)
  have "c \<noteq> CHR 0x7B" "c \<noteq> CHR 0x5B" "c \<noteq> CHR 0x22" "c \<noteq> CHR ''t''" "c \<noteq> CHR ''f''" "c \<noteq> CHR ''n''"
    "\<not> json_space c"
    using c(2) by (auto simp: is_digit_def json_space_def)
  then have "read_value n d (marshal (JNum l) @ rest) = Some (JNum l, rest)" if "0 < n" "delim rest" for n d rest
    using that r [OF that(2)] c(1) by (cases n) (simp_all add: value_body_def skip_ws_first)
  then show ?case by (simp add: reads_back_def)
next
  case (JArr xs)
  show ?case unfolding reads_back_def
  proof (intro allI impI, elim conjE)
    fix n d rest
    assume n: "json_fuel (JArr xs) \<le> n" and d: "json_depth (JArr xs) \<le> d" and "delim rest"
    obtain m where m: "n = Suc m" using n by (cases n) auto
    obtain e where e: "d = Suc e" using d by (cases d) auto
    show "read_value n d (print_json nl sp k (JArr xs) @ rest) = Some (JArr xs, rest)"
    proof (cases xs)
      case Nil
      then show ?thesis using m e by (simp add: value_body_def skip_ws_first json_space_def)
    next
      case (Cons x ys)
      let ?j = "join_with ('','' @ nl (Suc k)) (map (print_json nl sp (Suc k)) xs)"
      let ?t = "nl (Suc k) @ ?j @ nl k @ CHR 0x5D # rest"
      have "json_depth x \<le> e" if "x \<in> set xs" for x
        using d e fold_max_le [of "json_depth x" "map json_depth xs" 0] that by auto
      then have "read_elems m e ?t = Some (xs, rest)"
        using JArr n m Cons by (intro read_elems_print nl_space) auto
      moreover obtain c cs where c: "print_json nl sp (Suc k) x = c # cs" "\<not> json_space c" "c \<noteq> CHR 0x5D"
        using print_first [of x "Suc k"] JArr.prems Cons by auto
      then have "\<exists>cs'. ?j = c # cs'"
        using Cons by (intro join_first) simp_all
      with c(2) have "\<exists>cs'. skip_ws ?t = c # cs'"
        by (auto simp: skip_ws_append [OF nl_space] skip_ws_first)
      ultimately show ?thesis using m e c(3) Cons by (auto simp: value_body_def skip_ws_first json_space_def)
    qed
  qed
next
  case (JObj kvs)
  show ?case unfolding reads_back_def
  proof (intro allI impI, elim conjE)
    fix n d rest
    assume n: "json_fuel (JObj kvs) \<le> n" and d: "json_depth (JObj kvs) \<le> d" and "delim rest"
    obtain m where m: "n = Suc m" using n by (cases n) auto
    obtain e where e: "d = Suc e" using d by (cases d) auto
    show "read_value n d (print_json nl sp k (JObj kvs) @ rest) = Some (JObj kvs, rest)"
    proof (cases kvs)
      case Nil
      then show ?thesis using m e by (simp add: value_body_def skip_ws_first json_space_def)
    next
      case (Cons x ys)
      let ?j = "join_with ('','' @ nl (Suc k)) (map (print_member (Suc k)) kvs)"
      let ?t = "nl (Suc k) @ ?j @ nl k @ CHR 0x7D # rest"
      have "json_depth (snd kv) \<le> e" if "kv \<in> set kvs" for kv
        using d e fold_max_le [of "json_depth (snd kv)" "map (\<lambda>kv. json_depth (snd kv)) kvs" 0] that by auto
      moreover have "reads_back (Suc k) (snd kv)" if "kv \<in> set kvs" for kv
        using JObj that by (metis json_wf.simps(3) prod.collapse prod_set_simps(2) singletonI)
      ultimately have "read_members m e ?t = Some (kvs, rest)"
        using n m Cons by (intro read_members_print nl_space) auto
      moreover have "\<exists>cs'. ?j = CHR 0x22 # cs'"
        using Cons by (intro join_first) (simp_all add: print_member_def marshal_string_def)
      then have "\<exists>cs'. skip_ws ?t = CHR 0x22 # cs'"
        by (auto simp: skip_ws_append [OF nl_space] skip_ws_first json_space_def)
      moreover have "kvs \<noteq> []" using Cons by simp
      ultimately show ?thesis using m e
        by (auto simp: value_body_def skip_ws_first json_space_def print_obj simp del: print_json.simps)
    qed
  qed
qed (auto simp: reads_back_def Suc_le_eq gr0_conv_Suc value_body_def skip_ws_first json_space_def
    read_lit_def has_prefix_def)

text \<open>Every document of the layout is valid JSON and decodes to the value it was made from; a
  decoder that stops after the first value reads the same.\<close>

lemma parse_print:
  assumes "json_wf v" "json_depth v \<le> max_nesting"
  shows "json_parse (print_json nl sp k v) = Some v" "json_decode_first (print_json nl sp k v) = Some v"
proof -
  let ?s = "print_json nl sp k v" and ?n = "2 * length (print_json nl sp k v) + 2 + json_fuel v"
  have "read_value ?n max_nesting (?s @ []) = Some (v, [])"
    using print_reads_back [OF assms(1), unfolded reads_back_def, THEN spec, THEN spec, THEN spec,
        of ?n max_nesting "[]"] assms(2) by (simp only: delim_def le_add2 simp_thms)
  moreover have "read_value (2 * length ?s + 2) max_nesting ?s = read_value ?n max_nesting ?s"
    by (rule read_value_fuel) simp
  ultimately show "json_parse ?s = Some v" "json_decode_first ?s = Some v"
    by (simp_all add: json_parse_def json_decode_first_def skip_ws_def)
qed

end

interpretation compact: json_layout "\<lambda>_. []" "[]"
  by unfold_locales simp_all

interpretation indented: json_layout newline_indent "'' ''"
  by unfold_locales (auto simp: newline_indent_def json_space_def list_all_iff)

lemma marshal_print: "marshal v = print_json (\<lambda>_. []) [] k v"
proof (induction v arbitrary: k)
  case (JObj kvs)
  then have "marshal (snd kv) = print_json (\<lambda>_. []) [] (Suc k) (snd kv)" if "kv \<in> set kvs" for kv
    using that by (metis prod.collapse prod_set_simps(2) singletonI)
  then show ?case by (auto cong: map_cong)
qed (auto cong: map_cong)

lemma json_parse_marshal:
  assumes "json_wf v" "json_depth v \<le> max_nesting"
  shows "json_parse (marshal v) = Some v" "json_valid (marshal v)"
  using compact.parse_print(1) [OF assms, of 0] marshal_print [of v 0] by (simp_all add: json_valid_def)

lemma decode_MarshalIndent:
  assumes "json_wf v" "json_depth v \<le> max_nesting"
  shows "json_parse (MarshalIndent v) = Some v" "json_decode_first (MarshalIndent v) = Some v"
  unfolding MarshalIndent_def by (rule indented.parse_print [OF assms])+

end
