(* ===== verification/Sysinfo.thy ===== *)
theory Sysinfo
  imports Collector Hardware_Readings Json_Facts
begin

text \<open>
  The package \<open>collector/sysinfo\<close> put together on Linux: \<open>Collect\<close> runs the platform, hardware and
  software collectors, which it knows only through their interface. The interface is a locale;
  what \<open>Collect\<close> promises is proved in it once and then holds for the collectors of Linux.
\<close>

section \<open>The interface of the collectors\<close>

locale collectors =
  fixes pl :: "('s, 'p) io"
    and hw :: "'p \<Rightarrow> 's \<Rightarrow> (go_error option \<times> 'h) \<times> 's"
    and sw :: "'p \<Rightarrow> 's \<Rightarrow> (go_error option \<times> 'w) \<times> 's"
    and keeps :: "'s \<Rightarrow> 's \<Rightarrow> bool"
    and hw_ok :: "'h \<Rightarrow> bool"
  assumes keeps_trans: "keeps w1 w2 \<Longrightarrow> keeps w2 w3 \<Longrightarrow> keeps w1 w3"
    and pl_keeps: "keeps w (snd (pl w))"
    and hw_keeps: "keeps w (snd (hw i w))"
    and sw_keeps: "keeps w (snd (sw i w))"
    and hw_nil: "fst (fst (hw i w)) = None"
    and hw_result: "hw_ok (snd (fst (hw i w)))"
begin

lemma collect_run:
  "\<exists>i h s w'. sysinfo_Collect pe he se z pl hw sw w = (Inr \<lparr>Hardware = he h, Software = se s, Platform = pe i\<rparr>, w') \<and>
     keeps w w' \<and> hw_ok h \<and> i = (case fst (pl w) of Inl _ \<Rightarrow> z | Inr x \<Rightarrow> x) \<and>
     h = snd (fst (hw i (snd (pl w)))) \<and> s = snd (fst (sw i (snd (hw i (snd (pl w))))))"
proof -
  obtain r w1 where 1: "pl w = (r, w1)" by fastforce
  define i where "i = (case r of Inl _ \<Rightarrow> z | Inr x \<Rightarrow> x)"
  obtain e2 h w2 where 2: "hw i w1 = ((e2, h), w2)" by (metis surj_pair)
  obtain e3 s w3 where 3: "sw i w2 = ((e3, s), w3)" by (metis surj_pair)
  have "keeps w w3"
    using keeps_trans pl_keeps [of w] hw_keeps [of w1 i] sw_keeps [of w2 i] 1 2 3 by (metis snd_conv)
  moreover have "e2 = None" "hw_ok h" using hw_nil [of i w1] hw_result [of i w1] 2 by simp_all
  ultimately show ?thesis using 1 2 3 by (simp add: sysinfo_Collect_def Let_def flip: i_def)
qed

end

section \<open>Collecting only reads\<close>

text \<open>The files stay as they are, and no fault appears.\<close>

definition same_files :: "'z machine_scheme \<Rightarrow> 'z machine_scheme \<Rightarrow> bool" where
  "same_files w w' \<longleftrightarrow> fs w' = fs w \<and> (quiet w \<longrightarrow> quiet w')"

definition reads :: "('z machine_scheme \<Rightarrow> 'a \<times> 'z machine_scheme) \<Rightarrow> bool" where
  "reads m \<longleftrightarrow> (\<forall>w. same_files w (snd (m w)))"

lemma same_files_refl [simp]: "same_files w w"
  by (simp add: same_files_def)

lemma same_files_trans: "same_files w1 w2 \<Longrightarrow> same_files w2 w3 \<Longrightarrow> same_files w1 w3"
  by (simp add: same_files_def)

lemma readsI: "(\<And>w. same_files w (snd (m w))) \<Longrightarrow> reads m"
  by (simp add: reads_def)

lemma reads_step: "reads m \<Longrightarrow> m w = (x, w1) \<Longrightarrow> same_files w w1"
  unfolding reads_def by (metis snd_conv)

lemma reads_bindP: "reads m \<Longrightarrow> (\<And>x. reads (k x)) \<Longrightarrow> reads (bindP m k)"
  by (rule readsI) (auto simp: bindP_def split: prod.split dest!: reads_step intro: same_files_trans simp: reads_def)

lemma reads_bindE: "reads m \<Longrightarrow> (\<And>x. reads (k x)) \<Longrightarrow> reads (bindE m k)"
  by (rule readsI) (auto simp: bindE_def split: prod.split sum.split dest!: reads_step intro: same_files_trans simp: reads_def)

lemma reads_attempt: "reads m \<Longrightarrow> (\<And>x. reads (k x)) \<Longrightarrow> reads (attempt m k)"
  by (rule readsI) (auto simp: attempt_def split: prod.split dest!: reads_step intro: same_files_trans simp: reads_def)

lemma reads_on_error: "reads m \<Longrightarrow> reads (on_error f m)"
  by (rule readsI) (auto simp: on_error_def split: prod.split sum.split dest!: reads_step)

lemma reads_or_else: "reads m \<Longrightarrow> reads (or_else d m)"
  by (rule readsI) (auto simp: or_else_def split: prod.split sum.split dest!: reads_step)

lemma reads_pure: "reads (retP x)" "reads (ret y)" "reads (throw e)"
  by (simp_all add: reads_def retP_def)

lemma reads_os: "reads (os_read_file p)" "reads (os_read_dir p)" "reads (os_stat p)"
  by (auto simp: reads_def same_files_def os_read_file_def os_read_dir_def os_stat_def at_path_def syscall_def next_fault_def
      fs_read_def fs_read_dir_def fs_stat_def Let_def split: option.splits sum.splits node.splits prod.splits if_splits)

lemma snd_ReadFileLog: "snd (ReadFileLog p w) = snd (os_read_file p w)"
  by (simp add: ReadFileLog_def split: prod.splits sum.splits)

lemma reads_file_log: "reads (ReadFileLog p)" "reads (ReadFileLogError p)"
  using reads_os(1) [of p] by (simp_all add: reads_def ReadFileLogError_def snd_ReadFileLog)

lemma reads_run: "reads (RunWithTimeout t argv)"
  by (simp add: reads_def same_files_def RunWithTimeout_def Run_def)

lemmas reads_intros = reads_bindP reads_bindE reads_attempt reads_on_error reads_or_else reads_pure reads_os reads_file_log
  reads_run

lemmas run_defs = RunWithTimeout_def Run_def

lemma reads_isWSL: "reads (isWSL p)"
  by (rule readsI) (simp add: isWSL_def run_defs same_files_def)

lemma reads_subsystem: "reads (getWSLSubsystemVersion p)"
  unfolding getWSLSubsystemVersion_def by (intro reads_bindP reads_isWSL) (auto intro!: reads_intros)

lemma reads_systemd: "reads (wasSystemdUsed p)"
  by (rule readsI) (simp add: wasSystemdUsed_def run_defs same_files_def)

lemma reads_interop: "reads (interopEnabled p)"
  unfolding interopEnabled_def by (intro reads_bindP reads_subsystem) (auto intro!: reads_intros)

lemma reads_kernel: "reads (getKernelVersion p)"
  unfolding getKernelVersion_def by (intro reads_intros)

lemma reads_collectWSL: "reads (collectWSL p)"
  unfolding collectWSL_def
  by (rule reads_bindP [OF reads_subsystem])
     (auto simp: Let_def intro!: reads_intros reads_kernel reads_systemd reads_interop)

lemma reads_pro: "reads (isProAttached p)"
proof -
  have "reads (isProAttachedCLI p)"
    by (rule readsI) (simp add: isProAttachedCLI_def run_defs same_files_def split: option.splits)
  then show ?thesis unfolding isProAttached_def by (auto split: sum.splits intro!: reads_intros)
qed

lemma reads_platform: "reads (platform_Collect p)"
  unfolding platform_Collect_def collectPlatform_def Let_def
  by (intro reads_bindP reads_collectWSL reads_pro reads_pure)

lemma reads_last_existing: "reads (last_existing cur ps)"
proof (rule readsI)
  fix w :: "'a machine_scheme"
  show "same_files w (snd (last_existing cur ps w))"
  proof (induction ps arbitrary: cur w)
    case (Cons p ps)
    obtain r w1 where st: "os_stat p w = (r, w1)" by fastforce
    show ?case using same_files_trans [OF reads_step [OF reads_os(3) st] Cons.IH] st by simp
  qed simp
qed

lemma collect_os_release_eq:
  "collect_os_release s = bindP (last_existing [] (release_paths (sw_root s)))
     (\<lambda>path. if path = [] then throw (Errorf ''no os-release file found'') else collectOSFromFile path)"
  by (auto simp: fun_eq_iff collect_os_release_def bindP_def split: prod.splits)

lemma reads_collectOS: "reads (collectOS s)"
proof -
  have rd: "reads (collectOSFromFile q)" "reads (collectOSFromLSBRelease q)" for q
    unfolding collectOSFromFile_def collectOSFromLSBRelease_def Let_def by (auto intro!: reads_intros)
  have rel: "reads (collect_os_release s)"
    unfolding collect_os_release_eq by (auto intro!: reads_bindP reads_last_existing reads_pure rd)
  have "reads (isConfinedSnap y d)" for y d
    unfolding isConfinedSnap_def by (auto intro!: reads_intros)
  then show ?thesis unfolding collectOS_def Let_def
    by (auto intro!: reads_bindP reads_attempt reads_os rel rd reads_pure split: sum.splits)
qed

lemma reads_software: "reads (software_Collect s pi)"
  unfolding software_Collect_def collectBios_def Let_def
  by (auto intro!: reads_bindP reads_collectOS reads_file_log reads_pure)

lemma reads_collect_each: "(\<And>n. reads (f n)) \<Longrightarrow> reads (collect_each f ns)"
proof (rule readsI)
  fix w :: "'a machine_scheme"
  assume f: "\<And>n. reads (f n)"
  show "same_files w (snd (collect_each f ns w))"
  proof (induction ns arbitrary: w)
    case (Cons n ns)
    obtain r w1 xs w2 where st: "f n w = (r, w1)" "collect_each f ns w1 = (xs, w2)" by (metis surj_pair)
    show ?case using same_files_trans [OF reads_step [OF f st(1)] Cons.IH [of w1]] st by simp
  qed simp
qed

lemma reads_devices: "reads (device_dir d n)" "reads (driver_name d)"
  by (auto simp: reads_def same_files_def device_dir_def driver_name_def split: sum.splits)

lemma reads_gpus: "reads (collectGPUs h pi)" "reads (collectAccelerators h)"
proof -
  have 1: "reads (collectGPU h n)" "reads (collectAccelerator h n)" for n
    unfolding collectGPU_def collectAccelerator_def
    by (intro reads_bindE reads_bindP reads_devices reads_file_log reads_pure)+
  show "reads (collectGPUs h pi)" "reads (collectAccelerators h)"
    unfolding collectGPUs_def collectAccelerators_def
    by (auto intro!: reads_intros reads_collect_each 1 split: sum.splits)
qed

lemma reads_commands: "reads (collectCPU h)" "reads (collectDisks h)" "reads (collectScreens h pi)"
proof -
  show "reads (collectCPU h)"
    by (rule readsI) (simp add: collectCPU_def run_defs same_files_def split: option.splits sum.splits)
  show "reads (collectDisks h)"
    by (rule readsI) (simp add: collectDisks_def run_defs Let_def same_files_def split: option.splits sum.splits)
  show "reads (collectScreens h pi)"
    by (rule readsI) (simp add: collectScreens_def run_defs Let_def same_files_def split: option.splits sum.splits list.splits)
qed

lemma reads_hardware: "reads (hardware_Collect h pi)"
proof -
  have p: "reads (collectProduct h pi)" unfolding collectProduct_def by (auto intro!: reads_intros)
  have m: "reads (collectMemory h)" unfolding collectMemory_def by (intro reads_intros)
  show ?thesis unfolding hardware_Collect_def
    by (intro reads_bindP p m reads_or_else reads_commands reads_gpus reads_pure)
qed

section \<open>The collectors of Linux\<close>

lemma hardware_Collect_result:
  "fst (fst (hardware_Collect h pi w)) = None"
  "(\<forall>y. in_u64 (hw_large_u64 h y)) \<longrightarrow> hardware_ok (snd (fst (hardware_Collect h pi w)))"
proof -
  show "fst (fst (hardware_Collect h pi w)) = None"
    by (simp add: hardware_Collect_def bindP_def retP_def split: prod.splits)
qed (use hardware_Collect_result_ok in \<open>metis fst_conv snd_conv\<close>)

lemma linux_files:
  "same_files w (snd (platform_Collect p w))" "same_files w (snd (hardware_Collect h pi w))"
  "same_files w (snd (software_Collect s pi w))"
  by (rule reads_platform [unfolded reads_def, rule_format] reads_hardware [unfolded reads_def, rule_format]
      reads_software [unfolded reads_def, rule_format])+

interpretation linux: collectors "platform_Collect p" "hardware_Collect h" "software_Collect s" same_files
    "\<lambda>i. (\<forall>y. in_u64 (hw_large_u64 h y)) \<longrightarrow> hardware_ok i" for p h s
  by unfold_locales (auto simp: linux_files hardware_Collect_result intro: same_files_trans)

definition sysinfo_linux ::
    "platform_options \<Rightarrow> hardware_options \<Rightarrow> software_options \<Rightarrow> ('z machine_scheme, sys_info) io" where
  "sysinfo_linux p h s =
     sysinfo_Collect (\<lambda>i. if i = no_platform then None else Some (platform_json i)) hardware_json software_json
       no_platform (platform_Collect p) (hardware_Collect h) (software_Collect s)"

section \<open>The encoding\<close>

definition json_fits :: "nat \<Rightarrow> json \<Rightarrow> bool" where
  "json_fits n v \<longleftrightarrow> json_wf v \<and> json_depth v \<le> n"

lemma fold_max_bound: "fold max xs (a :: nat) \<le> n \<longleftrightarrow> a \<le> n \<and> (\<forall>x\<in>set xs. x \<le> n)"
  by (induction xs arbitrary: a) auto

lemma json_fits_scalar [simp]: "json_fits n (JStr s)" "json_fits n (JBool b)" "json_fits n (num_json i)"
  by (simp_all add: json_fits_def num_json_def num_ok_show_int)

lemma json_fits_obj: "json_fits (Suc n) (JObj kvs) \<longleftrightarrow> list_all (\<lambda>kv. json_fits n (snd kv)) kvs"
  by (auto simp: json_fits_def fold_max_bound list_all_iff)

lemma json_fits_arr: "json_fits (Suc n) (JArr xs) \<longleftrightarrow> list_all (json_fits n) xs"
  by (auto simp: json_fits_def fold_max_bound list_all_iff)

lemma json_fits_mono: "json_fits m v \<Longrightarrow> m \<le> n \<Longrightarrow> json_fits n v"
  by (simp add: json_fits_def)

lemma fits_omitempty [simp]: "list_all (\<lambda>kv. json_fits n (snd kv)) (omitempty k s)"
  by (simp add: omitempty_def)

lemma fits_omit_nil: "list_all (json_fits n) xs \<Longrightarrow> list_all (\<lambda>kv. json_fits (Suc n) (snd kv)) (omit_nil k xs)"
  by (simp add: omit_nil_def json_fits_arr)

lemma disk_fits: "disk_sized n d \<Longrightarrow> json_fits (Suc (2 * n)) (disk_json d)"
proof (induction n arbitrary: d)
  case 0
  then show ?case by (cases d) (simp add: json_fits_obj omit_nil_def)
next
  case (Suc n)
  obtain sz t cs where d: "d = Disk sz t cs" by (cases d)
  then have "list_all (json_fits (Suc (2 * n))) (map disk_json cs)"
    using Suc by (auto simp: list_all_iff)
  then show ?case using fits_omit_nil d by (simp add: json_fits_obj)
qed

lemma hardware_fits_disks:
  assumes "list_all (json_fits (Suc n)) (map disk_json (Blks i))"
  shows "json_fits (Suc (Suc (Suc n))) (hardware_json i)"
proof -
  have small: "json_fits (Suc (Suc n)) (product_json x)" "json_fits (Suc (Suc n)) (cpu_json c)" "json_fits (Suc n) (gpu_json g)"
    "json_fits (Suc n) (accelerator_json a)" "json_fits (Suc n) (screen_json sc)"
    "json_fits (Suc (Suc n)) (JObj [(''size'', num_json m)])" for x c g a sc m
    by (auto simp: product_json_def cpu_json_def gpu_json_def accelerator_json_def screen_json_def json_fits_obj)
  have "list_all (json_fits (Suc n)) (map gpu_json gs)" "list_all (json_fits (Suc n)) (map accelerator_json as)"
    "list_all (json_fits (Suc n)) (map screen_json scs)" for gs as scs
    using small by (simp_all add: list_all_iff)
  with assms have "list_all (\<lambda>kv. json_fits (Suc (Suc n)) (snd kv)) (omit_nil ''disks'' (map disk_json (Blks i)))"
    "list_all (\<lambda>kv. json_fits (Suc (Suc n)) (snd kv)) (omit_nil ''gpus'' (map gpu_json (GPUs i)))"
    "list_all (\<lambda>kv. json_fits (Suc (Suc n)) (snd kv)) (omit_nil ''accelerators'' (map accelerator_json (Accelerators i)))"
    "list_all (\<lambda>kv. json_fits (Suc (Suc n)) (snd kv)) (omit_nil ''screens'' (map screen_json (Screens i)))"
    using fits_omit_nil by blast+
  then show ?thesis using small unfolding hardware_json_def json_fits_obj by (simp add: json_fits_obj)
qed

lemma hardware_fits: "hardware_ok i \<Longrightarrow> json_fits 23 (hardware_json i)"
  using hardware_fits_disks [of 20 i] disk_fits [of 10, OF disk_ok_sized] by (auto simp: hardware_ok_def list_all_iff)

lemma software_fits: "json_fits 23 (software_json i)"
proof -
  have "json_fits (Suc (Suc 0)) (software_json i)"
    by (simp add: software_json_def json_fits_obj os_json_def bios_json_def)
  then show ?thesis by (rule json_fits_mono) simp
qed

lemma platform_fits: "json_fits 23 (platform_json i)"
proof -
  have "json_fits (Suc (Suc 0)) (platform_json i)"
    by (simp add: platform_json_def json_fits_obj wsl_json_def desktop_json_def num_json_def [symmetric])
  then show ?thesis by (rule json_fits_mono) simp
qed

section \<open>Properties\<close>


text \<open>C30: inside the Windows subsystem the machine below is not looked at: once the platform is found
  to be version 1 or 2 of it, the information collected has no product, graphics card, screen,
  firmware or desktop.\<close>

theorem sysinfo_wsl_skips:
  assumes "platform_Collect p w = (Inr pi, w1)" "SubsystemVersion (pi_WSL pi) \<noteq> 0"
  shows "\<exists>hi si w'. sysinfo_linux p h s w =
      (Inr \<lparr>Hardware = hardware_json hi, Software = software_json si, Platform = Some (platform_json pi)\<rparr>, w') \<and>
    Product hi = no_product \<and> GPUs hi = [] \<and> Screens hi = [] \<and> si_Bios si = no_bios \<and>
    pi_Desktop pi = no_desktop \<and> SubsystemVersion (pi_WSL pi) \<in> {1, 2}"
proof -
  let ?pe = "\<lambda>i. if i = no_platform then None else Some (platform_json i)"
  have pi: "pi \<noteq> no_platform" using assms(2) by (auto simp: no_platform_def no_wsl_def)
  obtain hi si w' where run: "sysinfo_linux p h s w =
      (Inr \<lparr>Hardware = hardware_json hi, Software = software_json si, Platform = ?pe pi\<rparr>, w')"
    "hi = snd (fst (hardware_Collect h pi w1))" "si = snd (fst (software_Collect s pi (snd (hardware_Collect h pi w1))))"
    unfolding sysinfo_linux_def
    using linux.collect_run [of ?pe hardware_json software_json no_platform p h s w] assms(1) by auto
  have "Product hi = no_product \<and> GPUs hi = [] \<and> Screens hi = []"
    using assms(2) unfolding run(2)
    by (auto simp: hardware_Collect_def bindP_def retP_def collectProduct_def collectGPUs_def collectScreens_def or_else_def
        split: prod.splits)
  moreover have "si_Bios si = no_bios"
    using assms(2) unfolding run(3)
    by (auto simp: software_Collect_def collectBios_def bindP_def retP_def Let_def split: prod.splits)
  moreover have "pi_Desktop pi = no_desktop" "SubsystemVersion (pi_WSL pi) \<in> {1, 2}"
    using assms collectWSL_version [of p w]
    by (auto simp: platform_Collect_def collectPlatform_def bindP_def retP_def Let_def split: prod.splits)
  ultimately show ?thesis using run(1) pi by auto
qed

text \<open>A desktop without Ubuntu Pro, and a machine of the Windows subsystem.\<close>

definition example_pl :: platform_options where
  "example_pl = defaultPlatformOptions (Inl (Errorf ''no bus'')) (\<lambda>_. ''x11'') (\<lambda>_. None) (\<lambda>_. Inl (Errorf ''no ini''))"

definition example_sw :: software_options where
  "example_sw = default_software_options (\<lambda>_. None) (\<lambda>_. None) ''UTC''"

definition wsl_machine :: machine where
  "wsl_machine = example_machine\<lparr>m_exec := (\<lambda>_ _ _ argv.
     \<lparr>stdout = (if hd argv = ''systemd-detect-virt'' then ''wsl'' else []), stderr = [],
      cmd_err = (if hd argv = ''systemd-detect-virt'' then None else Some (Errorf ''exit status 1''))\<rparr>)\<rparr>"


theorem sysinfo_wsl_skips_witness:
  "\<exists>hi si pi w'. sysinfo_linux example_pl example_hw example_sw wsl_machine =
      (Inr \<lparr>Hardware = hardware_json hi, Software = software_json si, Platform = Some (platform_json pi)\<rparr>, w') \<and>
    SubsystemVersion (pi_WSL pi) = 2 \<and> Product hi = no_product \<and> si_Bios si = no_bios"
proof -
  define run where "run = platform_Collect example_pl wsl_machine"
  have ev: "(case fst run of Inl _ \<Rightarrow> - 1 | Inr pi \<Rightarrow> SubsystemVersion (pi_WSL pi)) = 2"
    unfolding run_def by code_simp
  obtain pi where "fst run = Inr pi" "SubsystemVersion (pi_WSL pi) = 2" using ev by (auto split: sum.splits)
  then have run: "platform_Collect example_pl wsl_machine = (Inr pi, snd run)"
    and v: "SubsystemVersion (pi_WSL pi) = 2" unfolding run_def by (metis prod.collapse)+
  show ?thesis using v sysinfo_wsl_skips [OF run, of example_hw example_sw] by auto
qed

end
