(* ===== verification/Report_Decode.thy ===== *)
theory Report_Decode
  imports Sysinfo "HOL-Library.Monad_Syntax"
begin

text \<open>
  Reading a report back: the decoding of \<open>collector.Insights\<close> that \<open>insights/api.go\<close> asks of
  \<open>encoding/json\<close>, a field at a time, with unknown fields refused at every level
  (\<open>DisallowUnknownFields\<close>). The types are those of the collectors, so that a number out of the
  range of its field is an error as in Go. Keys match up to ASCII case, and the elements of an
  array are decoded into zero values: Go differs only when a key whose value is an array is
  repeated in one object, where it reuses the elements decoded before.
\<close>

section \<open>Fields\<close>

definition known_fields :: "string list \<Rightarrow> (string \<times> json) list \<Rightarrow> bool" where
  "known_fields names kvs = list_all (\<lambda>kv. to_lower (fst kv) \<in> set (map to_lower names)) kvs"

text \<open>A struct into which \<open>cur\<close> is decoded; null leaves it as it is.\<close>

definition strict ::
    "string list \<Rightarrow> ((string \<times> json) list \<Rightarrow> 'a \<Rightarrow> 'a option) \<Rightarrow> json \<Rightarrow> 'a \<Rightarrow> 'a option" where
  "strict names f = dec_struct (\<lambda>kvs cur. if known_fields names kvs then f kvs cur else None)"

definition dec_uint :: "int \<Rightarrow> json \<Rightarrow> int \<Rightarrow> int option" where
  "dec_uint bound v cur =
     (case v of
        JNum l \<Rightarrow> (case parse_uint64 l of
                     Some n \<Rightarrow> if int n < bound then Some (int n) else None
                   | None \<Rightarrow> None)
      | JNull \<Rightarrow> Some cur
      | _ \<Rightarrow> None)"

definition dec_int64 :: "json \<Rightarrow> int \<Rightarrow> int option" where
  "dec_int64 v cur = (case v of JNum l \<Rightarrow> parse_int64 l | JNull \<Rightarrow> Some cur | _ \<Rightarrow> None)"

definition u64_bound :: int where "u64_bound = 2 ^ 64"

section \<open>Hardware\<close>

definition dec_product :: "json \<Rightarrow> product \<Rightarrow> product option" where
  "dec_product = strict [''family'', ''name'', ''vendor''] (\<lambda>kvs x. do {
     f \<leftarrow> decode_field ''family'' dec_string (pr_Family x) kvs;
     n \<leftarrow> decode_field ''name'' dec_string (pr_Name x) kvs;
     v \<leftarrow> decode_field ''vendor'' dec_string (pr_Vendor x) kvs;
     Some \<lparr>pr_Family = f, pr_Name = n, pr_Vendor = v\<rparr> })"

definition dec_cpu :: "json \<Rightarrow> cpu \<Rightarrow> cpu option" where
  "dec_cpu = strict [''name'', ''vendor'', ''architecture'', ''cpus'', ''sockets'', ''coresPerSocket'', ''threadsPerCore'']
     (\<lambda>kvs x. do {
     n \<leftarrow> decode_field ''name'' dec_string (cpu_Name x) kvs;
     v \<leftarrow> decode_field ''vendor'' dec_string (cpu_Vendor x) kvs;
     a \<leftarrow> decode_field ''architecture'' dec_string (Arch x) kvs;
     c \<leftarrow> decode_field ''cpus'' (dec_uint u64_bound) (Cpus x) kvs;
     s \<leftarrow> decode_field ''sockets'' (dec_uint u64_bound) (Sockets x) kvs;
     p \<leftarrow> decode_field ''coresPerSocket'' (dec_uint u64_bound) (Cores x) kvs;
     t \<leftarrow> decode_field ''threadsPerCore'' (dec_uint u64_bound) (Threads x) kvs;
     Some \<lparr>cpu_Name = n, cpu_Vendor = v, Arch = a, Cpus = c, Sockets = s, Cores = p, Threads = t\<rparr> })"

definition dec_gpu :: "json \<Rightarrow> gpu option" where
  "dec_gpu v = strict [''name'', ''device'', ''vendor'', ''driver''] (\<lambda>kvs x. do {
     n \<leftarrow> decode_field ''name'' dec_string (dev_Name x) kvs;
     d \<leftarrow> decode_field ''device'' dec_string (dev_Device x) kvs;
     v \<leftarrow> decode_field ''vendor'' dec_string (dev_Vendor x) kvs;
     r \<leftarrow> decode_field ''driver'' dec_string (dev_Driver x) kvs;
     Some \<lparr>dev_Name = n, dev_Device = d, dev_Vendor = v, dev_Driver = r\<rparr> })
     v \<lparr>dev_Name = [], dev_Device = [], dev_Vendor = [], dev_Driver = []\<rparr>"

definition dec_accelerator :: "json \<Rightarrow> accelerator option" where
  "dec_accelerator v = strict [''name'', ''device'', ''vendor'', ''driver'', ''type''] (\<lambda>kvs x. do {
     n \<leftarrow> decode_field ''name'' dec_string (dev_Name x) kvs;
     d \<leftarrow> decode_field ''device'' dec_string (dev_Device x) kvs;
     v \<leftarrow> decode_field ''vendor'' dec_string (dev_Vendor x) kvs;
     r \<leftarrow> decode_field ''driver'' dec_string (dev_Driver x) kvs;
     t \<leftarrow> decode_field ''type'' dec_string (acc_Type x) kvs;
     Some \<lparr>dev_Name = n, dev_Device = d, dev_Vendor = v, dev_Driver = r, acc_Type = t\<rparr> })
     v \<lparr>dev_Name = [], dev_Device = [], dev_Vendor = [], dev_Driver = [], acc_Type = []\<rparr>"

fun dec_disk :: "json \<Rightarrow> disk option" where
  "dec_disk (JObj kvs) =
     (if known_fields [''size'', ''type'', ''children''] kvs
      then do {
        s \<leftarrow> decode_field ''size'' (dec_uint u64_bound) 0 kvs;
        t \<leftarrow> decode_field ''type'' dec_string [] kvs;
        cs \<leftarrow> decode_field ''children'' (\<lambda>v cur. dec_slice dec_disk v cur) [] kvs;
        Some (Disk s t cs) }
      else None)"
| "dec_disk JNull = Some (Disk 0 [] [])"
| "dec_disk v = None"

definition dec_screen :: "json \<Rightarrow> screen option" where
  "dec_screen v = strict [''physicalResolution'', ''size'', ''resolution'', ''refreshRate''] (\<lambda>kvs x. do {
     p \<leftarrow> decode_field ''physicalResolution'' dec_string (PhysicalResolution x) kvs;
     s \<leftarrow> decode_field ''size'' dec_string (screen_Size x) kvs;
     r \<leftarrow> decode_field ''resolution'' dec_string (Resolution x) kvs;
     f \<leftarrow> decode_field ''refreshRate'' dec_string (RefreshRate x) kvs;
     Some \<lparr>PhysicalResolution = p, screen_Size = s, Resolution = r, RefreshRate = f\<rparr> })
     v \<lparr>PhysicalResolution = [], screen_Size = [], Resolution = [], RefreshRate = []\<rparr>"

definition dec_memory :: "json \<Rightarrow> int \<Rightarrow> int option" where
  "dec_memory = strict [''size''] (\<lambda>kvs m. decode_field ''size'' dec_int64 m kvs)"

definition no_hardware :: hardware_info where
  "no_hardware = \<lparr>Product = no_product, CPU = no_cpu, GPUs = [], Accelerators = [], Mem = 0, Blks = [], Screens = []\<rparr>"

definition dec_hardware :: "json \<Rightarrow> hardware_info \<Rightarrow> hardware_info option" where
  "dec_hardware =
     strict [''product'', ''cpu'', ''gpus'', ''accelerators'', ''memory'', ''disks'', ''screens''] (\<lambda>kvs x. do {
     p \<leftarrow> decode_field ''product'' dec_product (Product x) kvs;
     c \<leftarrow> decode_field ''cpu'' dec_cpu (CPU x) kvs;
     g \<leftarrow> decode_field ''gpus'' (dec_slice dec_gpu) (GPUs x) kvs;
     a \<leftarrow> decode_field ''accelerators'' (dec_slice dec_accelerator) (Accelerators x) kvs;
     m \<leftarrow> decode_field ''memory'' dec_memory (Mem x) kvs;
     d \<leftarrow> decode_field ''disks'' (dec_slice dec_disk) (Blks x) kvs;
     s \<leftarrow> decode_field ''screens'' (dec_slice dec_screen) (Screens x) kvs;
     Some \<lparr>Product = p, CPU = c, GPUs = g, Accelerators = a, Mem = m, Blks = d, Screens = s\<rparr> })"

section \<open>Software and platform\<close>

definition dec_os :: "json \<Rightarrow> osInfo \<Rightarrow> osInfo option" where
  "dec_os = strict [''family'', ''distribution'', ''version'', ''edition''] (\<lambda>kvs x. do {
     f \<leftarrow> decode_field ''family'' dec_string (Family x) kvs;
     d \<leftarrow> decode_field ''distribution'' dec_string (Distro x) kvs;
     v \<leftarrow> decode_field ''version'' dec_string (os_Version x) kvs;
     e \<leftarrow> decode_field ''edition'' dec_string (Edition x) kvs;
     Some \<lparr>Family = f, Distro = d, os_Version = v, Edition = e\<rparr> })"

definition dec_bios :: "json \<Rightarrow> bios \<Rightarrow> bios option" where
  "dec_bios = strict [''vendor'', ''version''] (\<lambda>kvs x. do {
     n \<leftarrow> decode_field ''vendor'' dec_string (bios_Vendor x) kvs;
     v \<leftarrow> decode_field ''version'' dec_string (bios_Version x) kvs;
     Some \<lparr>bios_Vendor = n, bios_Version = v\<rparr> })"

definition no_software :: software_info where
  "no_software = \<lparr>si_OS = no_os, Timezone = [], Lang = [], si_Bios = no_bios\<rparr>"

definition dec_software :: "json \<Rightarrow> software_info \<Rightarrow> software_info option" where
  "dec_software = strict [''os'', ''timezone'', ''language'', ''bios''] (\<lambda>kvs x. do {
     i \<leftarrow> decode_field ''os'' dec_os (si_OS x) kvs;
     t \<leftarrow> decode_field ''timezone'' dec_string (Timezone x) kvs;
     l \<leftarrow> decode_field ''language'' dec_string (Lang x) kvs;
     b \<leftarrow> decode_field ''bios'' dec_bios (si_Bios x) kvs;
     Some \<lparr>si_OS = i, Timezone = t, Lang = l, si_Bios = b\<rparr> })"

definition dec_wsl :: "json \<Rightarrow> WSL \<Rightarrow> WSL option" where
  "dec_wsl = strict [''subsystemVersion'', ''systemd'', ''interop'', ''version'', ''kernelVersion''] (\<lambda>kvs x. do {
     n \<leftarrow> decode_field ''subsystemVersion'' (dec_uint 256) (SubsystemVersion x) kvs;
     s \<leftarrow> decode_field ''systemd'' dec_string (Systemd x) kvs;
     i \<leftarrow> decode_field ''interop'' dec_string (Interop x) kvs;
     v \<leftarrow> decode_field ''version'' dec_string (Version x) kvs;
     k \<leftarrow> decode_field ''kernelVersion'' dec_string (KernelVersion x) kvs;
     Some \<lparr>SubsystemVersion = n, Systemd = s, Interop = i, Version = v, KernelVersion = k\<rparr> })"

definition dec_desktop :: "json \<Rightarrow> Desktop \<Rightarrow> Desktop option" where
  "dec_desktop = strict [''desktopEnvironment'', ''sessionName'', ''sessionType''] (\<lambda>kvs x. do {
     e \<leftarrow> decode_field ''desktopEnvironment'' dec_string (DesktopEnvironment x) kvs;
     n \<leftarrow> decode_field ''sessionName'' dec_string (SessionName x) kvs;
     t \<leftarrow> decode_field ''sessionType'' dec_string (SessionType x) kvs;
     Some \<lparr>DesktopEnvironment = e, SessionName = n, SessionType = t\<rparr> })"

definition dec_platform :: "json \<Rightarrow> platform_info \<Rightarrow> platform_info option" where
  "dec_platform = strict [''wsl'', ''desktop'', ''proAttached''] (\<lambda>kvs x. do {
     w \<leftarrow> decode_field ''wsl'' dec_wsl (pi_WSL x) kvs;
     d \<leftarrow> decode_field ''desktop'' dec_desktop (pi_Desktop x) kvs;
     p \<leftarrow> decode_field ''proAttached'' dec_bool (ProAttached x) kvs;
     Some \<lparr>pi_WSL = w, pi_Desktop = d, ProAttached = p\<rparr> })"

section \<open>The report\<close>

type_synonym system_info = "hardware_info \<times> software_info \<times> platform_info"

definition no_system :: system_info where
  "no_system = (no_hardware, no_software, no_platform)"

definition dec_system :: "json \<Rightarrow> system_info \<Rightarrow> system_info option" where
  "dec_system = strict [''hardware'', ''software'', ''platform''] (\<lambda>kvs (h0, s0, p0). do {
     h \<leftarrow> decode_field ''hardware'' dec_hardware h0 kvs;
     s \<leftarrow> decode_field ''software'' dec_software s0 kvs;
     p \<leftarrow> decode_field ''platform'' dec_platform p0 kvs;
     Some (h, s, p) })"

definition encode_system :: "system_info \<Rightarrow> sys_info" where
  "encode_system = (\<lambda>(h, s, p). \<lparr>Hardware = hardware_json h, Software = software_json s,
     Platform = (if p = no_platform then None else Some (platform_json p))\<rparr>)"

text \<open>A map is decoded into the map there is; null makes it the nil map.\<close>

definition dec_map ::
    "(string \<Rightarrow> string option) \<Rightarrow> json \<Rightarrow> (string \<times> json) list option \<Rightarrow> (string \<times> json) list option option" where
  "dec_map renum v cur =
     (case v of
        JNull \<Rightarrow> Some None
      | JObj kvs \<Rightarrow>
         (case decode_any renum v of
            Some (JObj m) \<Rightarrow> Some (Some (go_map ((case cur of None \<Rightarrow> [] | Some c \<Rightarrow> c) @ m)))
          | _ \<Rightarrow> None)
      | _ \<Rightarrow> None)"

definition dec_insights :: "(string \<Rightarrow> string option) \<Rightarrow> json \<Rightarrow> insights option" where
  "dec_insights renum v =
     map_option (\<lambda>(ver, t, sys, m). \<lparr>InsightsVersion = ver, CollectionTime = t, SysInfo = encode_system sys,
         SourceMetrics = m\<rparr>)
       (strict [''insightsVersion'', ''collectionTime'', ''systemInfo'', ''sourceMetrics''] (\<lambda>kvs (ver0, t0, sys0, m0). do {
          ver \<leftarrow> decode_field ''insightsVersion'' dec_string ver0 kvs;
          t \<leftarrow> decode_field ''collectionTime'' dec_int64 t0 kvs;
          sys \<leftarrow> decode_field ''systemInfo'' dec_system sys0 kvs;
          m \<leftarrow> decode_field ''sourceMetrics'' (dec_map renum) m0 kvs;
          Some (ver, t, sys, m) })
        v ([], 0, no_system, None))"

section \<open>Facts\<close>

subsection \<open>Fields of an encoded struct\<close>

lemma lower_names:
  "to_lower ''accelerators'' = ''accelerators''"
  "to_lower ''architecture'' = ''architecture''"
  "to_lower ''bios'' = ''bios''"
  "to_lower ''children'' = ''children''"
  "to_lower ''collectionTime'' = ''collectiontime''"
  "to_lower ''coresPerSocket'' = ''corespersocket''"
  "to_lower ''cpu'' = ''cpu''"
  "to_lower ''cpus'' = ''cpus''"
  "to_lower ''desktop'' = ''desktop''"
  "to_lower ''desktopEnvironment'' = ''desktopenvironment''"
  "to_lower ''device'' = ''device''"
  "to_lower ''disks'' = ''disks''"
  "to_lower ''distribution'' = ''distribution''"
  "to_lower ''driver'' = ''driver''"
  "to_lower ''edition'' = ''edition''"
  "to_lower ''family'' = ''family''"
  "to_lower ''gpus'' = ''gpus''"
  "to_lower ''hardware'' = ''hardware''"
  "to_lower ''insightsVersion'' = ''insightsversion''"
  "to_lower ''interop'' = ''interop''"
  "to_lower ''kernelVersion'' = ''kernelversion''"
  "to_lower ''language'' = ''language''"
  "to_lower ''memory'' = ''memory''"
  "to_lower ''name'' = ''name''"
  "to_lower ''os'' = ''os''"
  "to_lower ''physicalResolution'' = ''physicalresolution''"
  "to_lower ''platform'' = ''platform''"
  "to_lower ''proAttached'' = ''proattached''"
  "to_lower ''product'' = ''product''"
  "to_lower ''refreshRate'' = ''refreshrate''"
  "to_lower ''resolution'' = ''resolution''"
  "to_lower ''screens'' = ''screens''"
  "to_lower ''sessionName'' = ''sessionname''"
  "to_lower ''sessionType'' = ''sessiontype''"
  "to_lower ''size'' = ''size''"
  "to_lower ''sockets'' = ''sockets''"
  "to_lower ''software'' = ''software''"
  "to_lower ''sourceMetrics'' = ''sourcemetrics''"
  "to_lower ''subsystemVersion'' = ''subsystemversion''"
  "to_lower ''systemInfo'' = ''systeminfo''"
  "to_lower ''systemd'' = ''systemd''"
  "to_lower ''threadsPerCore'' = ''threadspercore''"
  "to_lower ''timezone'' = ''timezone''"
  "to_lower ''type'' = ''type''"
  "to_lower ''vendor'' = ''vendor''"
  "to_lower ''version'' = ''version''"
  "to_lower ''wsl'' = ''wsl''"
  by code_simp+

lemma decode_field_append:
  "decode_field n dec cur (a @ b) = decode_field n dec cur a \<bind> (\<lambda>x. decode_field n dec x b)"
  by (induction n dec cur a rule: decode_field.induct) (auto split: option.splits)

lemma decode_field_other:
  "to_lower k \<noteq> to_lower n \<Longrightarrow> decode_field n dec cur (omitempty k s) = Some cur"
  "to_lower k \<noteq> to_lower n \<Longrightarrow> decode_field n dec cur (omit_nil k vs) = Some cur"
  by (simp_all add: omitempty_def omit_nil_def)

lemma decode_field_omitempty: "decode_field n dec_string [] (omitempty n s) = Some s"
  by (simp add: omitempty_def dec_string_def)

lemma decode_field_omit_nil:
  "decode_field n (dec_slice dec) [] (omit_nil n vs) = those (map dec vs)"
  by (auto simp: omit_nil_def dec_slice_def split: option.splits)

lemma decode_field_if:
  "decode_field n dec cur (if b then xs else ys) = (if b then decode_field n dec cur xs else decode_field n dec cur ys)"
  by simp

lemma known_fields_append: "known_fields ns (a @ b) \<longleftrightarrow> known_fields ns a \<and> known_fields ns b"
  by (simp add: known_fields_def)

lemma known_fields_Cons:
  "known_fields ns [] \<longleftrightarrow> True"
  "known_fields ns (kv # kvs) \<longleftrightarrow> to_lower (fst kv) \<in> set (map to_lower ns) \<and> known_fields ns kvs"
  by (simp_all add: known_fields_def)

lemma known_fields_omit:
  "to_lower k \<in> set (map to_lower ns) \<Longrightarrow> known_fields ns (omitempty k s)"
  "to_lower k \<in> set (map to_lower ns) \<Longrightarrow> known_fields ns (omit_nil k vs)"
  by (simp_all add: known_fields_def omitempty_def omit_nil_def)

lemma known_fields_if: "known_fields ns (if b then xs else ys) \<longleftrightarrow> (if b then known_fields ns xs else known_fields ns ys)"
  by simp

lemma strict_obj: "known_fields names kvs \<Longrightarrow> strict names f (JObj kvs) cur = f kvs cur"
  by (simp add: strict_def dec_struct_def)

lemma those_map: "(\<And>x. x \<in> set xs \<Longrightarrow> f x = Some (g x)) \<Longrightarrow> those (map f xs) = Some (map g xs)"
  by (induction xs) auto

lemma those_encoded: "(\<And>x. x \<in> set xs \<Longrightarrow> dec (enc x) = Some x) \<Longrightarrow> those (map dec (map enc xs)) = Some xs"
  using those_map [of xs "dec \<circ> enc" id] by simp

lemma dec_string_str [simp]: "dec_string (JStr s) cur = Some s"
  by (simp add: dec_string_def)

lemma dec_bool_bool [simp]: "dec_bool (JBool b) cur = Some b"
  by (simp add: dec_bool_def)

lemma parse_uint64_show_int: "in_u64 n \<Longrightarrow> parse_uint64 (show_int n) = Some (nat n)"
  by (auto simp: parse_uint64_def show_int_def in_u64_def)

lemma dec_uint_num: "in_u64 n \<Longrightarrow> n < b \<Longrightarrow> dec_uint b (num_json n) cur = Some n"
  by (simp add: dec_uint_def num_json_def parse_uint64_show_int) (simp add: in_u64_def)

lemma dec_u64_num: "in_u64 n \<Longrightarrow> dec_uint u64_bound (num_json n) cur = Some n"
  by (rule dec_uint_num) (auto simp: in_u64_def u64_bound_def)

lemma dec_int64_num: "in_i64 n \<Longrightarrow> dec_int64 (num_json n) cur = Some n"
  by (simp add: dec_int64_def num_json_def parse_int64_show_int)

lemmas field_simps_json = decode_field_append decode_field_if decode_field_other decode_field_omitempty decode_field_omit_nil
  known_fields_append known_fields_Cons known_fields_omit known_fields_if strict_obj lower_names

subsection \<open>Decoding what was encoded\<close>

lemma dec_product_json: "dec_product (product_json x) cur = Some x"
  by (simp add: dec_product_def product_json_def field_simps_json)

lemma dec_cpu_json: "cpu_ok x \<Longrightarrow> dec_cpu (cpu_json x) cur = Some x"
  by (simp add: dec_cpu_def cpu_json_def field_simps_json cpu_ok_def dec_u64_num)

lemma dec_gpu_json: "dec_gpu (gpu_json x) = Some x"
  by (simp add: dec_gpu_def gpu_json_def field_simps_json)

lemma dec_accelerator_json: "dec_accelerator (accelerator_json x) = Some x"
  by (simp add: dec_accelerator_def accelerator_json_def field_simps_json)

lemma dec_screen_json: "dec_screen (screen_json x) = Some x"
  by (simp add: dec_screen_def screen_json_def field_simps_json)

lemma dec_disk_json: "disk_ok n x \<Longrightarrow> dec_disk (disk_json x) = Some x"
proof (induction x arbitrary: n)
  case (Disk s t cs)
  have "dec_disk (disk_json c) = Some c" if "c \<in> set cs" for c
    using Disk that by (cases n) (auto simp: list_all_iff)
  then have "those (map dec_disk (map disk_json cs)) = Some cs" by (rule those_encoded)
  moreover have "in_u64 s" using Disk.prems by simp
  ultimately show ?case by (simp add: field_simps_json dec_u64_num)
qed

lemma dec_os_json: "dec_os (os_json x) no_os = Some x"
  by (simp add: dec_os_def os_json_def no_os_def field_simps_json)

lemma dec_bios_json: "dec_bios (bios_json x) cur = Some x"
  by (simp add: dec_bios_def bios_json_def field_simps_json)

lemma dec_software_json: "dec_software (software_json x) no_software = Some x"
  by (simp add: dec_software_def software_json_def no_software_def field_simps_json dec_os_json dec_bios_json)

lemma dec_desktop_json: "dec_desktop (desktop_json x) no_desktop = Some x"
  by (simp add: dec_desktop_def desktop_json_def no_desktop_def field_simps_json)

definition platform_ok :: "platform_info \<Rightarrow> bool" where
  "platform_ok p \<longleftrightarrow> 0 \<le> SubsystemVersion (pi_WSL p) \<and> SubsystemVersion (pi_WSL p) < 256"

lemma dec_wsl_json:
  assumes "0 \<le> SubsystemVersion x" "SubsystemVersion x < 256"
  shows "dec_wsl (wsl_json x) no_wsl = Some x"
proof -
  have "dec_uint 256 (JNum (show_int (SubsystemVersion x))) cur = Some (SubsystemVersion x)" for cur
    using assms dec_uint_num [of "SubsystemVersion x" 256] by (simp add: num_json_def in_u64_def)
  then show ?thesis by (simp add: dec_wsl_def wsl_json_def no_wsl_def field_simps_json)
qed

lemma dec_platform_json: "platform_ok x \<Longrightarrow> dec_platform (platform_json x) no_platform = Some x"
  by (simp add: dec_platform_def platform_json_def no_platform_def platform_ok_def field_simps_json dec_wsl_json
      dec_desktop_json)

lemma dec_hardware_json:
  assumes "hardware_ok x"
  shows "dec_hardware (hardware_json x) no_hardware = Some x"
proof -
  have "those (map dec_disk (map disk_json (Blks x))) = Some (Blks x)"
    using assms dec_disk_json [of 10] by (intro those_encoded) (auto simp: hardware_ok_def list_all_iff)
  moreover have "those (map dec_gpu (map gpu_json gs)) = Some gs"
    "those (map dec_accelerator (map accelerator_json as)) = Some as"
    "those (map dec_screen (map screen_json ss)) = Some ss" for gs as ss
    by (intro those_encoded dec_gpu_json dec_accelerator_json dec_screen_json)+
  moreover have "dec_memory (JObj [(''size'', num_json (Mem x))]) 0 = Some (Mem x)" "cpu_ok (CPU x)"
    using assms by (simp_all add: hardware_ok_def dec_memory_def field_simps_json dec_int64_num)
  ultimately show ?thesis
    by (simp add: dec_hardware_def hardware_json_def no_hardware_def field_simps_json dec_product_json dec_cpu_json
        del: map_map)
qed

lemma dec_system_json:
  assumes "hardware_ok h" "platform_ok p"
  shows "dec_system (sys_info_json (encode_system (h, s, p))) no_system = Some (h, s, p)"
  using assms
  by (simp add: dec_system_def sys_info_json_def encode_system_def no_system_def field_simps_json dec_hardware_json
      dec_software_json dec_platform_json)

subsection \<open>Metrics of a source\<close>

text \<open>What is relied on of the formatting of floating-point numbers: the result is a number
  literal, and reading and formatting it again changes nothing.\<close>

definition renum_ok :: "(string \<Rightarrow> string option) \<Rightarrow> bool" where
  "renum_ok renum \<longleftrightarrow> (\<forall>l l'. renum l = Some l' \<longrightarrow> renum l' = Some l' \<and> num_ok l')"

lemma go_map_keys: "map fst (go_map kvs) = sort (remdups (map fst kvs))"
  by (simp add: go_map_def comp_def)

lemma go_map_sub: "set (go_map kvs) \<subseteq> set kvs"
proof
  fix kv assume "kv \<in> set (go_map kvs)"
  then obtain k where k: "k \<in> fst ` set kvs" "kv = (k, the (obj_lookup kvs k))" by (auto simp: go_map_def)
  then obtain v where "map_of (rev kvs) k = Some v"
    by (metis domD dom_map_of_conv_image_fst set_rev)
  then show "kv \<in> set kvs" using k(2) map_of_SomeD [of "rev kvs" k v] by (simp add: obj_lookup_def)
qed

lemma go_map_id: "sorted (map fst kvs) \<Longrightarrow> distinct (map fst kvs) \<Longrightarrow> go_map kvs = kvs"
proof -
  assume s: "sorted (map fst kvs)" and d: "distinct (map fst kvs)"
  have "(fst kv, the (obj_lookup kvs (fst kv))) = kv" if "kv \<in> set kvs" for kv
  proof -
    have "map_of (rev kvs) (fst kv) = Some (snd kv)" using d that by (intro map_of_is_SomeI) (simp_all add: rev_map [symmetric])
    then show ?thesis by (simp add: obj_lookup_def)
  qed
  then have "map (\<lambda>kv. (fst kv, the (obj_lookup kvs (fst kv)))) kvs = kvs" by (rule map_idI)
  then show ?thesis using s d
    by (simp add: go_map_def sorted_sort_id distinct_remdups_id comp_def)
qed

lemma go_map_idem [simp]: "go_map (go_map kvs) = go_map kvs"
  by (rule go_map_id) (simp_all add: go_map_keys)

lemma decode_any_fixed:
  assumes "\<And>kv. kv \<in> set kvs \<Longrightarrow> decode_any renum (snd kv) = Some (snd kv)"
  shows "decode_any renum (JObj (go_map kvs)) = Some (JObj (go_map kvs))"
proof -
  let ?f = "\<lambda>kv. map_option (Pair (fst kv)) (decode_any renum (snd kv))"
  have "?f kv = Some kv" if "kv \<in> set (go_map kvs)" for kv
    using assms [of kv] that go_map_sub [of kvs] by auto
  then have "map ?f (go_map kvs) = map Some (go_map kvs)" unfolding map_eq_conv by blast
  then show ?thesis by (simp add: comp_def del: map_eq_conv)
qed

lemma decode_any_fixed_arr:
  assumes "\<And>y. y \<in> set ys \<Longrightarrow> decode_any renum y = Some y"
  shows "decode_any renum (JArr ys) = Some (JArr ys)"
proof -
  have "map (decode_any renum) ys = map Some ys" unfolding map_eq_conv using assms by blast
  then show ?thesis by (simp add: comp_def del: map_eq_conv)
qed

lemma decode_any_result:
  assumes "renum_ok renum"
  shows "decode_any renum v = Some v' \<Longrightarrow> decode_any renum v' = Some v' \<and> json_wf v'"
proof (induction v arbitrary: v')
  case (JNum l)
  then show ?case using assms by (auto simp: renum_ok_def)
next
  case (JArr xs)
  let ?ys = "map (decode_any renum) xs"
  have v': "None \<notin> set ?ys" "v' = JArr (map the ?ys)" using JArr.prems by (auto simp: Let_def split: if_splits)
  have ok: "decode_any renum y = Some y \<and> json_wf y" if y: "y \<in> set (map the ?ys)" for y
  proof -
    obtain x where x: "x \<in> set xs" "y = the (decode_any renum x)" using y by auto
    then obtain u where "decode_any renum x = Some u" using v'(1) by (cases "decode_any renum x") (auto simp: image_iff)
    then show ?thesis using JArr.IH [of x u] x by simp
  qed
  then have "decode_any renum v' = Some v'" unfolding v'(2) by (intro decode_any_fixed_arr) blast
  moreover have "json_wf v'" unfolding v'(2) json_wf.simps using ok by blast
  ultimately show ?case ..
next
  case (JObj kvs)
  let ?f = "\<lambda>kv. map_option (Pair (fst kv)) (decode_any renum (snd kv))"
  have v': "None \<notin> set (map ?f kvs)" "v' = JObj (go_map (map the (map ?f kvs)))"
    using JObj.prems by (auto simp: Let_def split: if_splits)
  have ok: "decode_any renum (snd y) = Some (snd y) \<and> json_wf (snd y)" if y: "y \<in> set (map the (map ?f kvs))" for y
  proof -
    obtain k v where kv: "(k, v) \<in> set kvs" "y = the (?f (k, v))" using y by auto
    then obtain u where "decode_any renum v = Some u" using v'(1) by (cases "decode_any renum v") (auto simp: image_iff)
    then show ?thesis using JObj.IH [of "(k, v)" v u] kv by simp
  qed
  then have "decode_any renum v' = Some v'" unfolding v'(2) by (intro decode_any_fixed) blast
  moreover have "json_wf v'" unfolding v'(2) json_wf.simps using ok go_map_sub by blast
  ultimately show ?case ..
qed auto

lemma unmarshal_map_decoded:
  assumes "renum_ok renum" "unmarshal_map renum s = Inr (Some m)"
  shows "decode_any renum (JObj m) = Some (JObj m)" "json_wf (JObj m)"
proof -
  obtain v where "decode_any renum v = Some (JObj m)"
    using assms(2) by (auto simp: unmarshal_map_def split: option.splits json.splits)
  then show "decode_any renum (JObj m) = Some (JObj m)" "json_wf (JObj m)"
    using decode_any_result [OF assms(1)] by blast+
qed

lemma decode_any_obj: "decode_any renum (JObj kvs) = Some v \<Longrightarrow> \<exists>ys. v = JObj (go_map ys)"
  by (auto simp: Let_def split: if_splits)

lemma dec_map_decoded:
  assumes "decode_any renum (JObj m) = Some (JObj m)"
  shows "dec_map renum (JObj m) None = Some (Some m)"
proof -
  obtain ys where "JObj m = JObj (go_map ys)" using decode_any_obj [OF assms] by blast
  then have "go_map m = m" by simp
  with assms show ?thesis by (simp add: dec_map_def del: decode_any.simps)
qed

subsection \<open>The round trip of a report\<close>

text \<open>Empty metrics are left out of the encoding, so that the nil map is read back for them.\<close>

definition metrics_decoded :: "(string \<Rightarrow> string option) \<Rightarrow> (string \<times> json) list option \<Rightarrow> bool" where
  "metrics_decoded renum ms \<longleftrightarrow> (\<forall>m. ms = Some m \<longrightarrow> decode_any renum (JObj m) = Some (JObj m) \<and> json_wf (JObj m))"

definition metrics_member :: "(string \<times> json) list option \<Rightarrow> (string \<times> json) list" where
  "metrics_member ms = (case ms of Some (kv # kvs) \<Rightarrow> [(''sourceMetrics'', JObj (kv # kvs))] | _ \<Rightarrow> [])"

lemma insights_json_eq:
  "insights_json i = JObj ([(''insightsVersion'', JStr (InsightsVersion i)), (''collectionTime'', num_json (CollectionTime i)),
     (''systemInfo'', sys_info_json (SysInfo i))] @ metrics_member (SourceMetrics i))"
  by (simp add: insights_json_def metrics_member_def num_json_def)

lemma metrics_member_fields:
  "to_lower n \<noteq> ''sourcemetrics'' \<Longrightarrow> decode_field n dec cur (metrics_member ms) = Some cur"
  "''sourceMetrics'' \<in> set ns \<Longrightarrow> known_fields ns (metrics_member ms)"
  by (auto simp: metrics_member_def known_fields_def lower_names split: option.split list.split
      intro: image_eqI [of _ _ "''sourceMetrics''"])

lemma metrics_member_decode:
  assumes "metrics_decoded renum ms"
  shows "decode_field ''sourceMetrics'' (dec_map renum) None (metrics_member ms) = Some (if ms = Some [] then None else ms)"
  using assms dec_map_decoded
  by (auto simp: metrics_decoded_def metrics_member_def simp del: decode_any.simps split: option.split list.split)

lemma dec_insights_json:
  assumes "SysInfo ins = encode_system (h, s, p)" "hardware_ok h" "platform_ok p" "in_i64 (CollectionTime ins)"
    and "metrics_decoded renum (SourceMetrics ins)"
  shows "dec_insights renum (insights_json ins) =
    Some (ins\<lparr>SourceMetrics := (if SourceMetrics ins = Some [] then None else SourceMetrics ins)\<rparr>)"
  using assms dec_system_json [OF assms(2,3), of s]
  by (simp add: dec_insights_def insights_json_eq field_simps_json metrics_member_fields metrics_member_decode dec_int64_num)

lemma insights_json_drop_empty:
  "insights_json (ins\<lparr>SourceMetrics := (if SourceMetrics ins = Some [] then None else SourceMetrics ins)\<rparr>) = insights_json ins"
  by (simp add: insights_json_def)

lemma insights_json_wf:
  assumes "SysInfo ins = encode_system (h, s, p)" "hardware_ok h" "metrics_decoded renum (SourceMetrics ins)"
  shows "json_wf (insights_json ins)"
proof -
  have "json_wf (sys_info_json (SysInfo ins))"
    using hardware_fits [OF assms(2)] software_fits [of s] platform_fits [of p] assms(1)
    by (simp add: sys_info_json_def encode_system_def json_fits_def)
  then show ?thesis using assms(3)
    by (cases "SourceMetrics ins")
       (auto simp: insights_json_def num_ok_show_int metrics_decoded_def simp del: decode_any.simps split: list.split)
qed

end
