(* ===== verification/Api.thy ===== *)
theory Api
  imports Report_Decode Uploader
begin

text \<open>
  The public package of \<open>insights/api.go\<close>: a configuration and the calls an application makes on
  it. Every call fills in the defaults of the configuration and runs the collector, the consent
  manager, the system configuration or the uploader on it. The logger is left out: what is logged
  changes neither a result nor a file. What a call takes from outside (the version of the build,
  the clock, the collector of system information, the TOML codecs and the formatting of
  floating-point numbers) is one record.
\<close>

section \<open>Data\<close>

record api_config =
  api_ConsentDir :: string
  api_InsightsDir :: string
  api_SystemConfigDir :: string

record collect_flags =
  cf_SourceMetricsPath :: string
  cf_SourceMetricsJSON :: "string option"
  cf_Period :: u32
  cf_Force :: bool
  cf_DryRun :: bool

record compile_flags =
  cp_SourceMetricsPath :: string
  cp_SourceMetricsJSON :: "string option"

record write_flags =
  wf_Period :: u32
  wf_Force :: bool
  wf_DryRun :: bool

record upload_flags =
  uf_MinAge :: u32
  uf_Force :: bool
  uf_DryRun :: bool

record 's api_env =
  env_paths :: default_paths
  env_version :: string
  env_now :: int
  env_sysInfo :: "('s, sys_info) io"
  env_renum :: "string \<Rightarrow> string option"
  env_decS :: "string \<Rightarrow> sysconfig option"
  env_encS :: "sysconfig \<Rightarrow> string option"
  env_decC :: "string \<Rightarrow> CFile option"
  env_encC :: "CFile \<Rightarrow> string option"

section \<open>Operations\<close>

definition Resolve :: "default_paths \<Rightarrow> api_config \<Rightarrow> api_config" where
  "Resolve d c =
     \<lparr>api_ConsentDir = (if api_ConsentDir c = [] then DefaultConfigPath d else api_ConsentDir c),
      api_InsightsDir = (if api_InsightsDir c = [] then DefaultCachePath d else api_InsightsDir c),
      api_SystemConfigDir =
        (if api_SystemConfigDir c = [] then DefaultSystemConfigPath d else api_SystemConfigDir c)\<rparr>"

text \<open>\<open>GetState\<close> of the manager that honours the system-wide opt-out, and of the plain one.\<close>

definition api_consent :: "('z os_scheme) api_env \<Rightarrow> api_config \<Rightarrow> string \<Rightarrow> ('z os_scheme, bool) io" where
  "api_consent env r =
     GetState (env_decS env) (env_decC env) (NewWithSystemConfig (api_ConsentDir r) (api_SystemConfigDir r))"

definition api_plain_consent :: "('z os_scheme) api_env \<Rightarrow> api_config \<Rightarrow> string \<Rightarrow> ('z os_scheme, bool) io" where
  "api_plain_consent env r = GetState (env_decS env) (env_decC env) (consent_New (api_ConsentDir r))"

definition api_collector ::
    "('z os_scheme) api_env \<Rightarrow> (string \<Rightarrow> ('z os_scheme, bool) io) \<Rightarrow> collect_config \<Rightarrow> ('z os_scheme, collector) io" where
  "api_collector env cm conf =
     collector_New (DefaultCachePath (env_paths env)) (Some cm) conf (of_nat MaxReports) (env_now env)"

definition api_Collect ::
    "('z os_scheme) api_env \<Rightarrow> api_config \<Rightarrow> string \<Rightarrow> collect_flags \<Rightarrow> ('z os_scheme, string) io" where
  "api_Collect env c source flags =
     (let r = Resolve (env_paths env) c;
          cConf = \<lparr>Source = source, CachePath = api_InsightsDir r, SourceMetricsPath = cf_SourceMetricsPath flags,
                   SourceMetricsJSON = cf_SourceMetricsJSON flags\<rparr>;
          cm = api_consent env r in
      bindE (api_collector env cm cConf) (\<lambda>col.
      bindE (Compile (env_version env) (env_renum env) (env_sysInfo env) col) (\<lambda>insights.
      attempt (Write cm col insights (cf_Period flags) (cf_Force flags) (cf_DryRun flags)) (\<lambda>res.
        case res of
          Inl err \<Rightarrow>
            if \<not> cf_DryRun flags \<or> \<not> errors_is err ErrConsentFileNotFound then throw err
            else ret (MarshalIndent (insights_json insights))
        | Inr _ \<Rightarrow> ret (MarshalIndent (insights_json insights))))))"

definition api_Compile ::
    "('z os_scheme) api_env \<Rightarrow> api_config \<Rightarrow> compile_flags \<Rightarrow> ('z os_scheme, string) io" where
  "api_Compile env c flags =
     (let r = Resolve (env_paths env) c;
          cConf = \<lparr>Source = PlatformSource, CachePath = api_InsightsDir r,
                   SourceMetricsPath = cp_SourceMetricsPath flags, SourceMetricsJSON = cp_SourceMetricsJSON flags\<rparr> in
      bindE (api_collector env (api_plain_consent env r) cConf) (\<lambda>col.
      bindE (Compile (env_version env) (env_renum env) (env_sysInfo env) col) (\<lambda>insights.
        ret (MarshalIndent (insights_json insights)))))"

text \<open>The decoder reads the first value of the report and leaves what follows it.\<close>

definition api_Write ::
    "('z os_scheme) api_env \<Rightarrow> api_config \<Rightarrow> string \<Rightarrow> string \<Rightarrow> write_flags \<Rightarrow> ('z os_scheme, unit) io" where
  "api_Write env c source report flags =
     (let r = Resolve (env_paths env) c; cm = api_consent env r in
      bindE (api_collector env cm
               \<lparr>Source = source, CachePath = api_InsightsDir r, SourceMetricsPath = [], SourceMetricsJSON = None\<rparr>) (\<lambda>col.
        case json_decode_first report \<bind> dec_insights (env_renum env) of
          None \<Rightarrow> throw (Errorf ''json: cannot decode the report'')
        | Some insights \<Rightarrow> Write cm col insights (wf_Period flags) (wf_Force flags) (wf_DryRun flags)))"

text \<open>The sources to upload are looked for in the directory of the consent files.\<close>

definition api_Upload ::
    "client api_env \<Rightarrow> (report list \<Rightarrow> report list) \<Rightarrow> (string list \<Rightarrow> string list) \<Rightarrow> api_config \<Rightarrow> string list \<Rightarrow>
     upload_flags \<Rightarrow> client \<Rightarrow> ((go_error + unit) \<times> client) option" where
  "api_Upload env order orderS c sources flags w =
     (let r = Resolve (env_paths env) c;
          uConf = \<lparr>Sources = sources, MinAge = uf_MinAge flags, Force = uf_Force flags, DryRun = uf_DryRun flags,
                   Retry = False\<rparr> in
      case upload_Sanitize uConf (api_ConsentDir r) w of
        (Inl err, w1) \<Rightarrow> Some (Inl err, w1)
      | (Inr uConf', w1) \<Rightarrow>
         UploadAll (api_consent env r) order orderS
           (uploader_New (api_InsightsDir r) (MinAge uConf') (DryRun uConf') []) (Sources uConf') (Force uConf')
           (Retry uConf') w1)"

text \<open>The result of the check is only logged.\<close>

definition warnIfSystemOptedOut :: "('z os_scheme) api_env \<Rightarrow> api_config \<Rightarrow> ('z os_scheme, unit) io" where
  "warnIfSystemOptedOut env r =
     attempt (IsOptedOut (env_decS env) (sysconfig_New (api_SystemConfigDir r))) (\<lambda>_. ret ())"

definition GetConsentState :: "('z os_scheme) api_env \<Rightarrow> api_config \<Rightarrow> string \<Rightarrow> ('z os_scheme, bool) io" where
  "GetConsentState env c source =
     (let r = Resolve (env_paths env) c in
      bindE (warnIfSystemOptedOut env r) (\<lambda>_.
        on_error (\<lambda>_. Errorf ''failed to get consent state'') (api_plain_consent env r source)))"

definition SetConsentState :: "('z os_scheme) api_env \<Rightarrow> api_config \<Rightarrow> string \<Rightarrow> bool \<Rightarrow> ('z os_scheme, unit) io" where
  "SetConsentState env c source state =
     (let r = Resolve (env_paths env) c in
      bindE (warnIfSystemOptedOut env r) (\<lambda>_. SetState (env_encC env) (consent_New (api_ConsentDir r)) source state))"

definition IsSystemOptOut :: "('z os_scheme) api_env \<Rightarrow> api_config \<Rightarrow> ('z os_scheme, bool) io" where
  "IsSystemOptOut env c =
     IsOptedOut (env_decS env) (sysconfig_New (api_SystemConfigDir (Resolve (env_paths env) c)))"

definition SetSystemOptOut :: "('z os_scheme) api_env \<Rightarrow> api_config \<Rightarrow> bool \<Rightarrow> ('z os_scheme, unit) io" where
  "SetSystemOptOut env c state =
     SetOptOut (env_encS env) (sysconfig_New (api_SystemConfigDir (Resolve (env_paths env) c))) state"

lemma Compile_cong:
  "c_time c = c_time c' \<Longrightarrow> sourceMetricsPath c = sourceMetricsPath c' \<Longrightarrow> sourceMetricsJSON c = sourceMetricsJSON c' \<Longrightarrow>
     Compile ver renum sysInfo c = Compile ver renum sysInfo c'"
  by (simp add: Compile_def compile_def getSourceMetrics_def cong: if_cong option.case_cong)

lemma Write_cong:
  assumes "c_source c = c_source c'" "collectedDir c = collectedDir c'" "uploadedDir c = uploadedDir c'"
    and "c_maxReports c = c_maxReports c'" "insights_json ins = insights_json ins'"
    and "CollectionTime ins = CollectionTime ins'" "CollectionTime ins \<noteq> 0"
  shows "Write cm c ins period force dry = Write cm c' ins' period force dry"
  using assms
  by (simp add: Write_def handleDuplicates_def collector_duplicateExists_def collector_makeDirs_def collector_write_def Let_def
      cong: if_cong)

lemma decode_any_depth: "decode_any renum v = Some v' \<Longrightarrow> json_depth v' \<le> json_depth v"
proof (induction v arbitrary: v')
  case (JArr xs)
  let ?ys = "map (decode_any renum) xs"
  have v': "None \<notin> set ?ys" "v' = JArr (map the ?ys)" using JArr.prems by (auto simp: Let_def split: if_splits)
  have "json_depth y \<le> fold max (map json_depth xs) 0" if y: "y \<in> set (map the ?ys)" for y
  proof -
    obtain x where x: "x \<in> set xs" "y = the (decode_any renum x)" using y by auto
    then obtain u where "decode_any renum x = Some u" using v'(1) by (cases "decode_any renum x") (auto simp: image_iff)
    then have "json_depth y \<le> json_depth x" using JArr.IH [of x u] x by simp
    also have "\<dots> \<le> fold max (map json_depth xs) 0" using x(1) by (intro fold_max_le) simp
    finally show ?thesis .
  qed
  then show ?case unfolding v'(2) json_depth.simps Suc_le_mono fold_max_bound by auto
next
  case (JObj kvs)
  let ?f = "\<lambda>kv. map_option (Pair (fst kv)) (decode_any renum (snd kv))" and ?d = "\<lambda>kv. json_depth (snd kv)"
  have v': "None \<notin> set (map ?f kvs)" "v' = JObj (go_map (map the (map ?f kvs)))"
    using JObj.prems by (auto simp: Let_def split: if_splits)
  have "?d y \<le> fold max (map ?d kvs) 0" if y: "y \<in> set (map the (map ?f kvs))" for y
  proof -
    obtain k v where kv: "(k, v) \<in> set kvs" "y = the (?f (k, v))" using y by auto
    then obtain u where "decode_any renum v = Some u" using v'(1) by (cases "decode_any renum v") (auto simp: image_iff)
    then have "?d y \<le> ?d (k, v)" using JObj.IH [of "(k, v)" v u] kv by simp
    also have "\<dots> \<le> fold max (map ?d kvs) 0" using kv(1) by (intro fold_max_le) force
    finally show ?thesis .
  qed
  then have "?d y \<le> fold max (map ?d kvs) 0" if "y \<in> set (go_map (map the (map ?f kvs)))" for y
    using that go_map_sub by blast
  then show ?case unfolding v'(2) json_depth.simps Suc_le_mono fold_max_bound by auto
qed auto

lemma os_mkdir_all_existing:
  assumes "quiet w" "fs_wf (fs w)" "p \<noteq> []" "is_dir_at (fs w) (resolve p)"
  shows "os_mkdir_all p perm w = (Inr (), w)"
proof -
  note dirs = wf_prefix_dir [OF assms(2,4)]
  have "for_each (\<lambda>q. syscall (fs_mkdir perm q)) qs w = (Inr (), w)" if "\<And>q. q \<in> set qs \<Longrightarrow> is_dir_at (fs w) q" for qs
    using that
  proof (induction qs)
    case (Cons q qs)
    have "is_dir_at (fs w) q" using Cons.prems by simp
    then have "fs_mkdir perm q (fs w) = Inr ((), fs w)"
      by (auto simp: fs_mkdir_def is_dir_at_def split: option.splits node.splits)
    then have "syscall (fs_mkdir perm q) w = (Inr (), w)" using assms(1) by (simp add: syscall_quiet)
    then show ?case using Cons by (simp add: bindE_Inr)
  qed simp
  moreover have "is_dir_at (fs w) q" if "q \<in> set (path_prefixes (resolve p))" for q
    using that dirs by (auto simp: path_prefixes_def)
  ultimately show ?thesis using assms(3) by (simp add: os_mkdir_all_def)
qed

definition collects_system :: "('z os_scheme, sys_info) io \<Rightarrow> bool" where
  "collects_system sysInfo \<longleftrightarrow> (\<forall>w. quiet w \<longrightarrow> (\<exists>h s p w1. sysInfo w = (Inr (encode_system (h, s, p)), w1) \<and>
     hardware_ok h \<and> platform_ok p \<and> fs w1 = fs w \<and> quiet w1))"

lemma platform_Collect_ok: "platform_Collect p w = (Inr i, w') \<Longrightarrow> platform_ok i"
  using collectWSL_version [of p w]
  by (auto simp: platform_Collect_def collectPlatform_def bindP_def retP_def Let_def platform_ok_def split: prod.splits)

lemma sysinfo_linux_collects:
  assumes "\<And>y. in_u64 (hw_large_u64 h y)"
  shows "collects_system (sysinfo_linux p h s)"
  unfolding collects_system_def
proof (intro allI impI)
  fix w :: "'a machine_scheme"
  assume q: "quiet w"
  let ?pe = "\<lambda>i. if i = no_platform then None else Some (platform_json i)"
  obtain i hi si w' where run: "sysinfo_linux p h s w =
      (Inr \<lparr>Hardware = hardware_json hi, Software = software_json si, Platform = ?pe i\<rparr>, w')"
    "same_files w w'" "hardware_ok hi" "i = (case fst (platform_Collect p w) of Inl _ \<Rightarrow> no_platform | Inr x \<Rightarrow> x)"
    unfolding sysinfo_linux_def
    using linux.collect_run [of ?pe hardware_json software_json no_platform p h s w] assms by blast
  have "platform_ok i"
    using run(4) platform_Collect_ok [of p w]
    by (cases "platform_Collect p w") (auto simp: platform_ok_def no_platform_def no_wsl_def split: sum.splits)
  then show "\<exists>h' s' p' w1. sysinfo_linux p h s w = (Inr (encode_system (h', s', p')), w1) \<and>
     hardware_ok h' \<and> platform_ok p' \<and> fs w1 = fs w \<and> quiet w1"
    using run q
    by (intro exI [of _ hi] exI [of _ si] exI [of _ i] exI [of _ w']) (auto simp: encode_system_def same_files_def)
qed


text \<open>The text of the metrics a source gives.\<close>

definition metrics_text :: "fsys \<Rightarrow> string option \<Rightarrow> string \<Rightarrow> string option" where
  "metrics_text f j path =
     (case j of Some t \<Rightarrow> Some t | None \<Rightarrow> if path = [] then None else file_content f (resolve path))"

definition metrics_fit :: "fsys \<Rightarrow> string option \<Rightarrow> string \<Rightarrow> bool" where
  "metrics_fit f j path =
     (case metrics_text f j path \<bind> json_parse of None \<Rightarrow> True | Some v \<Rightarrow> json_depth v < max_nesting)"

lemma getSourceMetrics_result:
  assumes "quiet w" "getSourceMetrics renum c w = (Inr (Some m), w1)"
  shows "\<exists>t. metrics_text (fs w) (sourceMetricsJSON c) (sourceMetricsPath c) = Some t \<and> unmarshal_map renum t = Inr (Some m)"
proof (cases "sourceMetricsJSON c")
  case (Some t)
  then show ?thesis using assms(2) by (simp add: getSourceMetrics_def metrics_text_def split: sum.splits)
next
  case None
  then have path: "sourceMetricsPath c \<noteq> []" using assms(2) by (auto simp: getSourceMetrics_def)
  then obtain t w0 where t: "os_read_file (sourceMetricsPath c) w = (Inr t, w0)"
    "(case unmarshal_map renum t of Inl _ \<Rightarrow> throw (Errorf ''failed to unmarshal source metrics'') | Inr m \<Rightarrow> ret m) w0 = (Inr (Some m), w1)"
    using assms(2) None by (auto simp: getSourceMetrics_def bindE_eq_Inr on_error_eq_Inr)
  have "file_content (fs w) (resolve (sourceMetricsPath c)) = Some t"
    using t(1) path assms(1)
    by (auto simp: os_read_file_def at_path_quiet fs_read_def file_content_def split: option.splits node.splits)
  then show ?thesis using t(2) None path by (auto simp: metrics_text_def split: sum.splits)
qed

lemma Compile_result:
  assumes "collects_system sysInfo" "renum_ok renum" "quiet w" "Compile ver renum sysInfo c w = (Inr ins, w1)"
  shows "\<exists>h s p. SysInfo ins = encode_system (h, s, p) \<and> hardware_ok h \<and> platform_ok p"
    and "CollectionTime ins = c_time c" "metrics_decoded renum (SourceMetrics ins)" "fs w1 = fs w" "quiet w1"
proof -
  obtain h s p w0 where 1: "sysInfo w = (Inr (encode_system (h, s, p)), w0)" "hardware_ok h" "platform_ok p"
    "fs w0 = fs w" "quiet w0"
    using assms(1,3) unfolding collects_system_def by blast
  obtain m where m: "getSourceMetrics renum c w0 = (Inr m, w1)"
    "ins = \<lparr>InsightsVersion = ver, CollectionTime = c_time c, SysInfo = encode_system (h, s, p), SourceMetrics = m\<rparr>"
    using assms(4) 1(1) by (auto simp: Compile_def compile_def on_error_eq_Inr bindE_eq_Inr)
  then show "\<exists>h s p. SysInfo ins = encode_system (h, s, p) \<and> hardware_ok h \<and> platform_ok p"
    "CollectionTime ins = c_time c" using 1 by auto
  have rd: "framed (fs_rel (=)) (getSourceMetrics renum c)" "framed stays_quiet (getSourceMetrics renum c)"
    unfolding getSourceMetrics_def
    by (auto intro!: same.frame_intros same.framed_reads split: option.splits sum.splits)
       (auto intro!: calm.framed_ret calm.framed_throw calm.framed_bindE calm.framed_on_error calm_calls split: option.splits sum.splits)
  show "fs w1 = fs w" using same.frame_elim [OF rd(1) m(1)] 1 by (simp add: fs_rel_def)
  show "quiet w1" using calm.framed_elim [OF rd(2) m(1)] 1 by (simp add: stays_quiet_def)
  show "metrics_decoded renum (SourceMetrics ins)"
    unfolding metrics_decoded_def
  proof (intro allI impI)
    fix kvs assume "SourceMetrics ins = Some kvs"
    then have "m = Some kvs" using m by simp
    then obtain d where "unmarshal_map renum d = Inr (Some kvs)"
      using getSourceMetrics_result [OF 1(5)] m(1) by blast
    then show "decode_any renum (JObj kvs) = Some (JObj kvs) \<and> json_wf (JObj kvs)"
      using unmarshal_map_decoded [OF assms(2)] by blast
  qed
qed


lemma Compile_metrics:
  assumes "collects_system sysInfo" "quiet w" "Compile ver renum sysInfo c w = (Inr ins, w1)" "SourceMetrics ins = Some m"
  shows "\<exists>v. metrics_text (fs w) (sourceMetricsJSON c) (sourceMetricsPath c) \<bind> json_parse = Some v \<and>
    decode_any renum v = Some (JObj m)"
proof -
  obtain i w0 where 1: "sysInfo w = (Inr i, w0)" "fs w0 = fs w" "quiet w0"
    using assms(1,2) unfolding collects_system_def by blast
  have g: "getSourceMetrics renum c w0 = (Inr (Some m), w1)"
    using assms(3,4) 1(1) by (auto simp: Compile_def compile_def on_error_eq_Inr bindE_eq_Inr)
  then obtain t where t: "metrics_text (fs w) (sourceMetricsJSON c) (sourceMetricsPath c) = Some t"
    "unmarshal_map renum t = Inr (Some m)"
    using getSourceMetrics_result [OF 1(3) g] 1(2) by auto
  then show ?thesis by (auto simp: unmarshal_map_def split: option.splits json.splits)
qed

lemma insights_json_depth:
  assumes "SysInfo ins = encode_system (h, s, p)" "hardware_ok h"
    and "\<And>m. SourceMetrics ins = Some m \<Longrightarrow> json_depth (JObj m) < max_nesting"
  shows "json_depth (insights_json ins) \<le> max_nesting"
proof -
  have sys: "json_depth (sys_info_json (SysInfo ins)) \<le> 24"
    using hardware_fits [OF assms(2)] software_fits [of s] platform_fits [of p] assms(1)
    by (auto simp: sys_info_json_def encode_system_def json_fits_def)
  have "json_depth (snd kv) < max_nesting" if "kv \<in> set (metrics_member (SourceMetrics ins))" for kv
    using that assms(3) by (auto simp: metrics_member_def simp del: json_depth.simps split: option.splits list.splits)
  then have "\<forall>x\<in>(\<lambda>kv. json_depth (snd kv)) ` set (metrics_member (SourceMetrics ins)). x \<le> max_nesting - 1"
    by fastforce
  moreover have "(24 :: nat) \<le> max_nesting - 1" by (simp add: max_nesting_def)
  ultimately have "json_depth (insights_json ins) \<le> Suc (max_nesting - 1)"
    using sys unfolding insights_json_eq json_depth.simps Suc_le_mono fold_max_bound by (auto simp: num_json_def)
  then show ?thesis by (simp add: max_nesting_def)
qed


lemma insights_readback:
  assumes "SysInfo ins = encode_system (h, s, p)" "hardware_ok h" "platform_ok p" "in_i64 (CollectionTime ins)"
    and "metrics_decoded renum (SourceMetrics ins)" "\<And>m. SourceMetrics ins = Some m \<Longrightarrow> json_depth (JObj m) < max_nesting"
  shows "\<exists>ins'. json_decode_first (MarshalIndent (insights_json ins)) \<bind> dec_insights renum = Some ins' \<and>
    insights_json ins' = insights_json ins \<and> CollectionTime ins' = CollectionTime ins"
  using decode_MarshalIndent(2) [OF insights_json_wf [OF assms(1,2,5)] insights_json_depth [OF assms(1,2,6)]]
    dec_insights_json [OF assms(1-5)] insights_json_drop_empty [of ins] by simp

lemma collector_New_quiet:
  assumes "quiet w" "fs_wf (fs w)" "CachePath conf \<noteq> []" "creatable (fs w) (resolve (CachePath conf))"
    and "collect_Sanitize d conf = Inr conf'"
  shows "\<exists>f1. is_dir_at f1 (resolve (CachePath conf)) \<and> fs_wf f1 \<and> adds_dirs (fs w) f1 \<and>
    collector_New d (Some cm) conf m now w =
      (Inr \<lparr>c_source = Source conf', collectedDir = path_join [CachePath conf, Source conf', LocalFolder],
         uploadedDir = path_join [CachePath conf, Source conf', UploadedFolder],
         sourceMetricsPath = SourceMetricsPath conf, sourceMetricsJSON = SourceMetricsJSON conf,
         c_maxReports = m, c_time = now\<rparr>, w\<lparr>fs := f1\<rparr>)"
proof -
  have c': "CachePath conf' = CachePath conf" "SourceMetricsPath conf' = SourceMetricsPath conf"
    "SourceMetricsJSON conf' = SourceMetricsJSON conf"
    using assms(3,5) by (auto simp: collect_Sanitize_def Let_def split: if_splits option.splits)
  obtain f1 where f1: "os_mkdir_all (CachePath conf) 488 w = (Inr (), w\<lparr>fs := f1\<rparr>)" "is_dir_at f1 (resolve (CachePath conf))"
    "adds_dirs (fs w) f1"
    using os_mkdir_all_quiet [OF assms(1,3,4)] by blast
  moreover have "fs_wf f1"
    using wf.frame_elim [OF wf_framed_mkdir_all f1(1)] assms(2) by (simp add: fs_rel_def keeps_wf_def)
  ultimately show ?thesis using assms(5) c'
    by (intro exI [of _ f1]) (simp add: collector_New_def bindE_Inr on_error_Inr)
qed


lemma Sanitize_source:
  "collect_Sanitize d (conf\<lparr>Source := x\<rparr>) =
     (case collect_Sanitize d conf of
        Inl e \<Rightarrow> Inl e
      | Inr conf' \<Rightarrow> Inr (conf'\<lparr>Source := (if x = [] then PlatformSource else x)\<rparr>))"
  by (auto simp: collect_Sanitize_def Let_def split: option.splits)

text \<open>The collector \<open>New\<close> makes for a source, and how the calls after it depend on it.\<close>

definition new_collector :: "string \<Rightarrow> string \<Rightarrow> string \<Rightarrow> string option \<Rightarrow> int \<Rightarrow> collector" where
  "new_collector dir source path j now =
     (let s = (if source = [] then PlatformSource else source) in
      \<lparr>c_source = s, collectedDir = path_join [dir, s, LocalFolder], uploadedDir = path_join [dir, s, UploadedFolder],
       sourceMetricsPath = path, sourceMetricsJSON = j, c_maxReports = of_nat MaxReports, c_time = now\<rparr>)"

lemma api_collector_run:
  assumes "quiet w" "fs_wf (fs w)" "dir \<noteq> []" "creatable (fs w) (resolve dir)"
  shows "(\<exists>e. \<forall>cm source. api_collector env cm \<lparr>Source = source, CachePath = dir, SourceMetricsPath = path, SourceMetricsJSON = j\<rparr> w
      = (Inl e, w)) \<or>
    (\<exists>f1. is_dir_at f1 (resolve dir) \<and> fs_wf f1 \<and> adds_dirs (fs w) f1 \<and> (\<forall>cm source.
      api_collector env cm \<lparr>Source = source, CachePath = dir, SourceMetricsPath = path, SourceMetricsJSON = j\<rparr> w =
        (Inr (new_collector dir source path j (env_now env)), w\<lparr>fs := f1\<rparr>)))"
proof -
  let ?conf = "\<lambda>s. \<lparr>Source = s, CachePath = dir, SourceMetricsPath = path, SourceMetricsJSON = j\<rparr>"
  let ?d = "DefaultCachePath (env_paths env)"
  show ?thesis
  proof (cases "collect_Sanitize ?d (?conf [])")
    case (Inl e)
    have "collect_Sanitize ?d (?conf s) = Inl e" for s
      using Sanitize_source [where d = ?d and conf = "?conf []" and x = s] Inl by simp
    then show ?thesis by (intro disjI1 exI [of _ "Joined [Sentinel ErrSanitizeError, e]"])
        (simp add: api_collector_def collector_New_def)
  next
    case (Inr c0)
    have cp: "CachePath c0 = dir" "SourceMetricsPath c0 = path" "SourceMetricsJSON c0 = j"
      using assms(3) Inr by (auto simp: collect_Sanitize_def Let_def split: if_splits option.splits)
    have san: "collect_Sanitize ?d (?conf s) = Inr (c0\<lparr>Source := (if s = [] then PlatformSource else s)\<rparr>)" for s
      using Sanitize_source [where d = ?d and conf = "?conf []" and x = s] Inr by simp
    obtain f1 where f1: "os_mkdir_all dir 488 w = (Inr (), w\<lparr>fs := f1\<rparr>)" "is_dir_at f1 (resolve dir)" "adds_dirs (fs w) f1"
      using os_mkdir_all_quiet [OF assms(1,3,4)] by blast
    have "fs_wf f1" using wf.frame_elim [OF wf_framed_mkdir_all f1(1)] assms(2) by (simp add: fs_rel_def keeps_wf_def)
    moreover have "api_collector env cm (?conf s) w = (Inr (new_collector dir s path j (env_now env)), w\<lparr>fs := f1\<rparr>)" for cm s
      using f1(1) san [of s] cp
      by (simp add: api_collector_def collector_New_def new_collector_def bindE_Inr on_error_Inr Let_def)
    ultimately show ?thesis using f1 by blast
  qed
qed

lemma api_collector_again:
  assumes "quiet w" "fs_wf (fs w)" "dir \<noteq> []" "is_dir_at (fs w) (resolve dir)"
  shows "api_collector env cm \<lparr>Source = source, CachePath = dir, SourceMetricsPath = [], SourceMetricsJSON = None\<rparr> w =
    (Inr (new_collector dir source [] None (env_now env)), w)"
  using os_mkdir_all_existing [OF assms] assms(3)
  by (simp add: api_collector_def collector_New_def collect_Sanitize_def new_collector_def bindE_Inr on_error_Inr Let_def)

section \<open>Properties\<close>


text \<open>A machine that reports nothing about itself; \<open>sysinfo_linux_collects\<close> gives the hypothesis for
  the collectors of Linux on every machine.\<close>

definition example_env :: "machine api_env" where
  "example_env =
     \<lparr>env_paths = \<lparr>DefaultConfigPath = ''conf'', DefaultCachePath = ''c'', DefaultSystemConfigPath = ''sys''\<rparr>,
      env_version = ''1.0'', env_now = 42, env_sysInfo = (\<lambda>w. (Inr (encode_system no_system), w)),
      env_renum = (\<lambda>l. if l = ''1'' then Some l else None), env_decS = sysconfig_dec, env_encS = sysconfig_enc,
      env_decC = CFile_dec, env_encC = CFile_enc\<rparr>"

definition example_api :: api_config where
  "example_api = \<lparr>api_ConsentDir = [], api_InsightsDir = ''ins'', api_SystemConfigDir = []\<rparr>"

definition example_flags :: collect_flags where
  "example_flags =
     \<lparr>cf_SourceMetricsPath = [], cf_SourceMetricsJSON = Some [CHR 0x7B, CHR 0x22, CHR ''a'', CHR 0x22, CHR '':'', CHR ''1'', CHR 0x7D],
      cf_Period = 10, cf_Force = False, cf_DryRun = False\<rparr>"

definition api_machine :: machine where
  "api_machine = example_machine\<lparr>fs :=
     [([''conf''], DirN 493), ([''conf'', ''s-consent.toml''], FileN ''consent_state = true\<newline>'' 384)]\<rparr>"

lemma example_env_collects: "collects_system (env_sysInfo example_env)"
proof -
  have "hardware_ok no_hardware" "platform_ok no_platform" by code_simp+
  then show ?thesis by (force simp: collects_system_def example_env_def no_system_def)
qed

lemma example_env_renum: "renum_ok (env_renum example_env)"
proof -
  have "show_int 1 = ''1''" by code_simp
  then have "num_ok ''1''" using num_ok_show_int [of 1] by simp
  then show ?thesis by (auto simp: renum_ok_def example_env_def split: if_splits)
qed


text \<open>The sources to upload are looked for where the consent files are: with no source named, a
  report of a source that has no directory there is not sent, although it lies in the directory
  of the reports.\<close>

definition upload_env :: "client api_env" where
  "upload_env =
     \<lparr>env_paths = \<lparr>DefaultConfigPath = ''conf'', DefaultCachePath = ''c'', DefaultSystemConfigPath = ''sys''\<rparr>,
      env_version = ''1.0'', env_now = 42, env_sysInfo = throw (Errorf ''unused''), env_renum = Some,
      env_decS = sysconfig_dec, env_encS = sysconfig_enc, env_decC = CFile_dec, env_encC = CFile_enc\<rparr>"

lemma Upload_all_misses_sources:
  "let up = (\<lambda>sources. map_option (\<lambda>(res, w). (res, length (sent w)))
       (api_Upload upload_env (\<lambda>x. x) (\<lambda>x. x) \<lparr>api_ConsentDir = [], api_InsightsDir = [], api_SystemConfigDir = []\<rparr>
          sources \<lparr>uf_MinAge = 10, uf_Force = False, uf_DryRun = False\<rparr> example_client)) in
   file_content (fs example_client) [''c'', ''s'', LocalFolder, ''5.json''] \<noteq> None \<and>
   up [''s''] = Some (Inr (), 1) \<and> up [] = Some (Inr (), 0)"
  by code_simp

end
