(* ===== verification/Commands.thy ===== *)
theory Commands
  imports Api
begin

text \<open>
  The command line tool: \<open>insights/cmd/insights\<close> and \<open>common/cli\<close>. The hooks that the commands
  register with the command-line library are modelled one by one, on the configuration the library
  has filled in (\<open>app\<close>); the library itself (parsing of flags, merging of configuration files and
  environment) is not part of the repository. A hook returns what it printed, its error, and whether
  usage messages are silenced, from which \<open>main\<close> makes the exit status.
\<close>

section \<open>The application\<close>

record app =
  Quiet :: bool
  Verbose :: int
  consentDir :: string
  insightsDir :: string
  systemConfigDir :: string
  app_Upload :: upload_config
  Collect_Source :: string
  Collect_SourceMetricsPath :: string
  Collect_Period :: u32
  Collect_Force :: bool
  Collect_DryRun :: bool
  Consent_Sources :: "string list"
  Consent_State :: string
  SystemOptOut_State :: string
  silenceUsage :: bool

record cmd_outcome =
  printed :: "string list"
  failure :: "go_error option"
  usage_silenced :: bool

definition done_with :: "app \<Rightarrow> string list \<Rightarrow> go_error + unit \<Rightarrow> cmd_outcome" where
  "done_with a ls r =
     \<lparr>printed = ls, failure = (case r of Inl e \<Rightarrow> Some e | Inr _ \<Rightarrow> None), usage_silenced = silenceUsage a\<rparr>"

section \<open>Logging\<close>

datatype log_level = LevelDebug | LevelInfo | LevelWarn | LevelError

definition getLevel :: "int \<Rightarrow> log_level" where
  "getLevel level =
     (if level < 0 then LevelError
      else if level = 0 then LevelWarn
      else if level = 1 then LevelInfo
      else LevelDebug)"

definition getLogLevel :: "app \<Rightarrow> int" where
  "getLogLevel a = (if Quiet a then -1 else Verbose a)"

section \<open>Configuration\<close>

text \<open>Where a configuration file is looked for when none is named, on Unix; \<open>bin\<close> is the path of the
  executable, when it is known.\<close>

definition config_paths :: "string \<Rightarrow> string option \<Rightarrow> string list" where
  "config_paths cmdName bin =
     [''.'', ''/etc/'' @ cmdName, ''/usr/local/etc/'' @ cmdName] @
     (case bin of None \<Rightarrow> [] | Some b \<Rightarrow> [path_dir b])"

text \<open>The keys that are bound to variables of the environment.\<close>

definition replace_char :: "char \<Rightarrow> char \<Rightarrow> string \<Rightarrow> string" where
  "replace_char a b s = map (\<lambda>c. if c = a then b else c) s"

definition env_bindings :: "string \<Rightarrow> string list \<Rightarrow> (string \<times> string) list" where
  "env_bindings cmdName environ =
     (let prefix = map to_upper_char (replace_char (CHR ''-'') (CHR ''_'') cmdName) @ ''_'' in
      map (\<lambda>e. let s0 = takeWhile (\<lambda>c. c \<noteq> CHR ''='') e in
             (replace_char (CHR ''_'') (CHR ''.'') (trim_prefix s0 prefix), s0))
        (filter (\<lambda>e. has_prefix e prefix) environ))"

text \<open>The hook that runs before every command; \<open>load\<close> reads the configuration into the application.\<close>

definition PersistentPreRunE :: "(app \<Rightarrow> go_error + app) \<Rightarrow> app \<Rightarrow> go_error option \<times> app" where
  "PersistentPreRunE load a =
     (if Quiet a \<and> 0 < Verbose a
      then (Some (Errorf ''the --quiet and --verbose flags cannot be used together''), a)
      else let a1 = a\<lparr>silenceUsage := True\<rparr> in
        case load a1 of Inl e \<Rightarrow> (Some e, a1) | Inr a2 \<Rightarrow> (None, a2))"

section \<open>collect\<close>

definition collect_Args :: "string list \<Rightarrow> ('z os_scheme, unit) io" where
  "collect_Args args =
     (if 2 < length args then throw (Errorf ''accepts at most 2 arg(s)'')
      else if args = [] then ret ()
      else if length args \<noteq> 2 then throw (Errorf ''accepts no args, or exactly 2 args, received 1'')
      else bindE (on_error (\<lambda>_. Errorf ''the second argument, source-metrics-path, should be a valid JSON file'')
                    (os_stat (args ! 1)))
             (\<lambda>info. case info of
                DirN _ \<Rightarrow> throw (Errorf ''the second argument, source-metrics-path, should be a valid JSON file, not a directory'')
              | FileN _ _ \<Rightarrow> ret ()))"

definition collectRun ::
    "('z os_scheme) api_env \<Rightarrow> app \<Rightarrow> 'z os_scheme \<Rightarrow> cmd_outcome \<times> 'z os_scheme" where
  "collectRun env a w =
     (let cConfig = \<lparr>Source = Collect_Source a, CachePath = insightsDir a,
            SourceMetricsPath = Collect_SourceMetricsPath a, SourceMetricsJSON = None\<rparr>;
          cm = GetState (env_decS env) (env_decC env) (NewWithSystemConfig (consentDir a) (systemConfigDir a));
          fail = (\<lambda>ls e. done_with a ls (Inl (ErrorfW ''failed to collect insights'' e))) in
      case api_collector env cm cConfig w of
        (Inl err, w1) \<Rightarrow>
          ((if errors_is err ErrSanitizeError then (fail [] err)\<lparr>usage_silenced := False\<rparr> else fail [] err), w1)
      | (Inr c, w1) \<Rightarrow>
         (case Compile (env_version env) (env_renum env) (env_sysInfo env) c w1 of
            (Inl err, w2) \<Rightarrow> (fail [] err, w2)
          | (Inr insights, w2) \<Rightarrow>
             (let ls = (if Quiet a then [] else [MarshalIndent (insights_json insights)]) in
              case Write cm c insights (Collect_Period a) (Collect_Force a) (Collect_DryRun a) w2 of
                (Inr _, w3) \<Rightarrow> (done_with a ls (Inr ()), w3)
              | (Inl err, w3) \<Rightarrow>
                 if errors_is err ErrConsentFileNotFound then (done_with a ls (Inr ()), w3)
                 else (fail ls err, w3))))"

definition collect_RunE ::
    "('z os_scheme) api_env \<Rightarrow> string list \<Rightarrow> app \<Rightarrow> 'z os_scheme \<Rightarrow> cmd_outcome \<times> 'z os_scheme" where
  "collect_RunE env args a =
     collectRun env
       (if length args = 2
        then a\<lparr>Collect_Source := args ! 0, Collect_SourceMetricsPath := args ! 1\<rparr> else a)"

section \<open>upload\<close>

definition uploadRun ::
    "client api_env \<Rightarrow> (report list \<Rightarrow> report list) \<Rightarrow> (string list \<Rightarrow> string list) \<Rightarrow> app \<Rightarrow> client
     \<Rightarrow> ((go_error + unit) \<times> client) option" where
  "uploadRun env order orderS a w =
     (case upload_Sanitize (app_Upload a) (insightsDir a) w of
        (Inl err, w1) \<Rightarrow> Some (Inl err, w1)
      | (Inr uConfig, w1) \<Rightarrow>
         UploadAll (GetState (env_decS env) (env_decC env) (NewWithSystemConfig (consentDir a) (systemConfigDir a)))
           order orderS (uploader_New (insightsDir a) (MinAge uConfig) (DryRun uConfig) [])
           (Sources uConfig) (Force uConfig) (Retry uConfig) w1)"

definition upload_RunE ::
    "client api_env \<Rightarrow> (report list \<Rightarrow> report list) \<Rightarrow> (string list \<Rightarrow> string list) \<Rightarrow> string list \<Rightarrow> app \<Rightarrow> client
     \<Rightarrow> ((go_error + unit) \<times> client) option" where
  "upload_RunE env order orderS args a =
     (let args' = (if args = [] \<and> Sources (app_Upload a) \<noteq> [] then Sources (app_Upload a) else args) in
      uploadRun env order orderS (a\<lparr>app_Upload := (app_Upload a)\<lparr>Sources := args'\<rparr>\<rparr>))"

section \<open>consent\<close>

text \<open>\<open>strconv.ParseBool\<close>.\<close>

definition parse_bool :: "string \<Rightarrow> bool option" where
  "parse_bool s =
     (if s \<in> {''1'', ''t'', ''T'', ''TRUE'', ''true'', ''True''} then Some True
      else if s \<in> {''0'', ''f'', ''F'', ''FALSE'', ''false'', ''False''} then Some False else None)"

definition state_PreRunE :: "string \<Rightarrow> app \<Rightarrow> go_error option \<times> app" where
  "state_PreRunE state a =
     (if state \<noteq> [] \<and> parse_bool state = None
      then (Some (Errorf ''the state must be either true or false, or not set''), a\<lparr>silenceUsage := False\<rparr>)
      else (None, a))"

definition consent_PreRunE :: "app \<Rightarrow> go_error option \<times> app" where
  "consent_PreRunE a = state_PreRunE (Consent_State a) a"

definition show_bool :: "bool \<Rightarrow> string" where
  "show_bool b = (if b then ''true'' else ''false'')"

text \<open>The loop that reads the states: the lines printed and the sources that failed.\<close>

fun consent_states ::
    "(string \<Rightarrow> ('z os_scheme, bool) io) \<Rightarrow> string list \<Rightarrow> 'z os_scheme \<Rightarrow> (string list \<times> string list) \<times> 'z os_scheme" where
  "consent_states get [] w = (([], []), w)"
| "consent_states get (source # sources) w =
     (case get source w of (r, w1) \<Rightarrow>
        let name = (if source = [] then PlatformSource else source) in
        case consent_states get sources w1 of ((ls, failed), w2) \<Rightarrow>
          (case r of
             Inl _ \<Rightarrow> ((ls, name # failed), w2)
           | Inr state \<Rightarrow> (((name @ '': '' @ show_bool state) # ls, failed), w2)))"

definition consentRun ::
    "('z os_scheme) api_env \<Rightarrow> app \<Rightarrow> 'z os_scheme \<Rightarrow> cmd_outcome \<times> 'z os_scheme" where
  "consentRun env a w =
     (let cm = consent_New (consentDir a);
          sources = (if Consent_Sources a = [] then [[]] else Consent_Sources a);
          (_, w0) = IsOptedOut (env_decS env) (sysconfig_New (systemConfigDir a)) w;
          set = (if Consent_State a = [] then ret ()
                 else case parse_bool (Consent_State a) of
                   None \<Rightarrow> throw (Errorf ''consent-state must be either true or false, or not set'')
                 | Some state \<Rightarrow> for_each (\<lambda>source. SetState (env_encC env) cm source state) sources) in
      case set w0 of
        (Inl err, w1) \<Rightarrow>
          (let r = done_with a [] (Inl err) in
           (if parse_bool (Consent_State a) = None then r\<lparr>usage_silenced := False\<rparr> else r, w1))
      | (Inr _, w1) \<Rightarrow>
         (case consent_states (GetState (env_decS env) (env_decC env) cm) sources w1 of
            ((ls, failed), w2) \<Rightarrow>
              (done_with a (if Quiet a then [] else ls)
                 (if failed = [] then Inr ()
                  else Inl (Errorf (''failed to get consent state for sources: '' @ join_with '', '' failed))), w2)))"

definition consent_RunE ::
    "('z os_scheme) api_env \<Rightarrow> string list \<Rightarrow> app \<Rightarrow> 'z os_scheme \<Rightarrow> cmd_outcome \<times> 'z os_scheme" where
  "consent_RunE env args a =
     consentRun env (a\<lparr>Consent_Sources := (if args \<noteq> [] then args else Consent_Sources a),
                       Consent_State := to_lower (Consent_State a)\<rparr>)"

section \<open>system-opt-out\<close>

definition systemOptOut_PreRunE :: "app \<Rightarrow> go_error option \<times> app" where
  "systemOptOut_PreRunE a = state_PreRunE (SystemOptOut_State a) a"

text \<open>The error of \<open>ParseBool\<close> is ignored, as the hook before has checked the value.\<close>

definition systemOptOut_RunE ::
    "('z os_scheme) api_env \<Rightarrow> app \<Rightarrow> 'z os_scheme \<Rightarrow> cmd_outcome \<times> 'z os_scheme" where
  "systemOptOut_RunE env a w =
     (let sm = sysconfig_New (systemConfigDir a); st = to_lower (SystemOptOut_State a) in
      case (if st = [] then ret ()
            else SetOptOut (env_encS env) sm (case parse_bool st of Some b \<Rightarrow> b | None \<Rightarrow> False)) w of
        (Inl err, w1) \<Rightarrow> (done_with a [] (Inl err), w1)
      | (Inr _, w1) \<Rightarrow>
         (case IsOptedOut (env_decS env) sm w1 of
            (Inl err, w2) \<Rightarrow> (done_with a [] (Inl err), w2)
          | (Inr state, w2) \<Rightarrow> (done_with a (if Quiet a then [] else [show_bool state]) (Inr ()), w2)))"

section \<open>main\<close>

definition exit_status :: "cmd_outcome \<Rightarrow> nat" where
  "exit_status r = (if failure r = None then 0 else if \<not> usage_silenced r then 2 else 1)"

section \<open>Facts\<close>

lemma set_all_result:
  assumes "toml_codec enc dec" "list_all source_ok sources"
    and "for_each (\<lambda>s. SetState enc cm s b) sources w = (r, w')"
  shows "(r = Inr () \<longrightarrow> (\<forall>s\<in>set sources. consent_of dec cm (fs w') s = Some b)) \<and>
    (\<forall>t. source_ok t \<longrightarrow> consent_of dec cm (fs w') t \<in> {consent_of dec cm (fs w) t, Some b} \<and>
       (source_key t \<notin> source_key ` set sources \<longrightarrow> consent_of dec cm (fs w') t = consent_of dec cm (fs w) t))"
  using assms(2,3)
proof (induction sources arbitrary: w)
  case (Cons s ss)
  obtain r1 w1 where s1: "SetState enc cm s b w = (r1, w1)" by fastforce
  have ok: "source_ok s" "list_all source_ok ss" using Cons.prems(1) by simp_all
  note one = SetState_result [OF assms(1) ok(1) s1]
  show ?case
  proof (cases r1)
    case (Inl e)
    then have "w' = w1" "r \<noteq> Inr ()" using Cons.prems(2) s1 by (auto simp: bindE_Inl)
    then show ?thesis using one(2) by auto
  next
    case (Inr u)
    then have rest: "for_each (\<lambda>s. SetState enc cm s b) ss w1 = (r, w')"
      using Cons.prems(2) s1 by (simp add: bindE_Inr)
    note ih = Cons.IH [OF ok(2) rest]
    have "consent_of dec cm (fs w1) s = Some b" using one(1) Inr by simp
    then have "consent_of dec cm (fs w') s = Some b" using ih ok(1) by auto
    moreover have "consent_of dec cm (fs w') t \<in> {consent_of dec cm (fs w) t, Some b} \<and>
       (source_key t \<notin> source_key ` set (s # ss) \<longrightarrow> consent_of dec cm (fs w') t = consent_of dec cm (fs w) t)"
      if "source_ok t" for t
      using ih [THEN conjunct2, THEN spec, of t] one(2) [OF that] that by auto
    ultimately show ?thesis using ih by simp
  qed
qed simp

lemma get_all_result:
  assumes "consent_states get sources w = ((ls, failed), w')" "\<And>s. framed (fs_rel (=)) (get s)"
  shows "fs w' = fs w"
  using assms(1)
proof (induction sources arbitrary: w ls failed)
  case (Cons s ss)
  obtain r w1 ls1 f1 where 1: "get s w = (r, w1)" "consent_states get ss w1 = ((ls1, f1), w')"
    using Cons.prems by (auto simp: Let_def split: prod.splits sum.splits)
  show ?case using Cons.IH [OF 1(2)] same.frame_elim [OF assms(2) 1(1)] by (simp add: fs_rel_def)
qed simp

definition consent_line :: "bool \<Rightarrow> string \<Rightarrow> string" where
  "consent_line b s = source_key s @ '': '' @ show_bool b"

lemma get_all_lines:
  assumes "consent_states get sources w = ((ls, []), w')" "\<And>s. framed (fs_rel (=)) (get s)"
    and "\<And>s w0 st w1. s \<in> set sources \<Longrightarrow> fs w0 = fs w \<Longrightarrow> get s w0 = (Inr st, w1) \<Longrightarrow> st = b"
  shows "ls = map (consent_line b) sources"
  using assms(1,3)
proof (induction sources arbitrary: w ls)
  case (Cons s ss)
  obtain st w1 ls1 where 1: "get s w = (Inr st, w1)" "consent_states get ss w1 = ((ls1, []), w')"
    "ls = ((if s = [] then PlatformSource else s) @ '': '' @ show_bool st) # ls1"
    using Cons.prems(1) by (auto simp: Let_def split: prod.splits sum.splits)
  have "fs w1 = fs w" using same.frame_elim [OF assms(2) 1(1)] by (simp add: fs_rel_def)
  then have "ls1 = map (consent_line b) ss" using Cons.IH [OF 1(2)] Cons.prems(2) by auto
  moreover have "st = b" using Cons.prems(2) [OF _ refl 1(1)] by simp
  ultimately show ?case using 1(3) by (simp add: consent_line_def source_key_def)
qed simp

lemma os_read_file_success:
  "os_read_file p w = (Inr d, w') \<Longrightarrow> file_content (fs w) (resolve p) = Some d"
  by (auto simp: os_read_file_def at_path_def syscall_def fs_read_def file_content_def Let_def
      split: if_splits option.splits sum.splits node.splits)

lemma GetState_success:
  assumes "source_ok s" "GetState decS decC (consent_New p) s w = (Inr st, w')"
  shows "consent_of decC (consent_New p) (fs w) s = Some st"
proof -
  obtain d c where "os_read_file (consent_getFile (consent_New p) s) w = (Inr d, w')" "decC d = Some c" "st = ConsentState c"
    using assms(2)
    by (auto simp: GetState_def readFile_def toml_decode_file_def consent_New_def on_error_eq_Inr bindE_eq_Inr
        split: option.splits)
  then show ?thesis
    using os_read_file_success [of "consent_getFile (consent_New p) s" w d w'] consent_getFile_resolve [OF assms(1)]
    by (simp add: consent_of_def)
qed

section \<open>Properties\<close>

text \<open>C4: the consent command sets what it is told to set and nothing else. Whichever system calls
  fail, the state of a source that is not named (or of the platform, when no source is named) stays as it was; when the
  command ends without error every named source has the new state, and unless it is quiet the
  command has printed exactly that, a line for each source.\<close>

theorem consent_command_sets:
  assumes "toml_codec (env_encC env) (env_decC env)" "parse_bool (Consent_State a) = Some b"
    and "sources = (if Consent_Sources a = [] then [[]] else Consent_Sources a)" "list_all source_ok sources"
    and "consentRun env a w = (r, w')" "consent = consent_of (env_decC env) (consent_New (consentDir a))"
  shows "(\<forall>t. source_ok t \<and> source_key t \<notin> source_key ` set sources \<longrightarrow> consent (fs w') t = consent (fs w) t) \<and>
    (failure r = None \<longrightarrow> (\<forall>s\<in>set sources. consent (fs w') s = Some b) \<and>
       printed r = (if Quiet a then [] else map (consent_line b) sources))"
proof -
  let ?cm = "consent_New (consentDir a)" and ?get = "GetState (env_decS env) (env_decC env) (consent_New (consentDir a))"
  have st: "Consent_State a \<noteq> []" using assms(2) by (auto simp: parse_bool_def)
  obtain r0 w0 where w0: "IsOptedOut (env_decS env) (sysconfig_New (systemConfigDir a)) w = (r0, w0)" by fastforce
  have f0: "fs w0 = fs w" using same.frame_elim [OF same.framed_IsOptedOut w0] by (simp add: fs_rel_def)
  obtain r1 w1 where w1: "for_each (\<lambda>s. SetState (env_encC env) ?cm s b) sources w0 = (r1, w1)" by fastforce
  note set = set_all_result [OF assms(1,4) w1]
  show ?thesis
  proof (cases r1)
    case (Inl e)
    then have "w' = w1" "failure r \<noteq> None"
      using assms(2,3,5) st w0 w1 by (auto simp: consentRun_def Let_def done_with_def)
    then show ?thesis using set f0 assms(6) by auto
  next
    case (Inr u)
    obtain ls failed where g: "consent_states ?get sources w1 = ((ls, failed), w')"
      and r: "r = done_with a (if Quiet a then [] else ls) (if failed = [] then Inr ()
                  else Inl (Errorf (''failed to get consent state for sources: '' @ join_with '', '' failed)))"
      using assms(2,3,5) st w0 w1 Inr by (auto simp: consentRun_def Let_def split: prod.splits)
    have fr: "framed (fs_rel (=)) (?get s)" for s by (rule same.framed_GetState)
    have f': "fs w' = fs w1" by (rule get_all_result [OF g fr])
    have val: "\<forall>s\<in>set sources. consent_of (env_decC env) ?cm (fs w1) s = Some b" using set Inr by simp
    have "ls = map (consent_line b) sources" if "failed = []"
      using g unfolding that
    proof (rule get_all_lines [OF _ fr])
      fix s w2 x w3 assume s: "s \<in> set sources" and e: "fs w2 = fs w1" "?get s w2 = (Inr x, w3)"
      have "source_ok s" using s assms(4) by (auto simp: list_all_iff)
      from GetState_success [OF this e(2)] show "x = b" using val s e(1) by simp
    qed
    then show ?thesis using set val f0 f' r assms(6) by (auto simp: done_with_def split: if_splits)
  qed
qed

definition example_app :: app where
  "example_app =
     \<lparr>Quiet = False, Verbose = 0, consentDir = ''/home/conf'', insightsDir = ''/home/c'', systemConfigDir = ''/etc'',
      app_Upload = \<lparr>Sources = [], MinAge = 10, Force = False, DryRun = False, Retry = False\<rparr>,
      Collect_Source = [], Collect_SourceMetricsPath = [], Collect_Period = 0, Collect_Force = False,
      Collect_DryRun = False, Consent_Sources = [''wsl'', []], Consent_State = ''true'', SystemOptOut_State = [],
      silenceUsage = True\<rparr>"

definition console_env :: "os api_env" where
  "console_env =
     \<lparr>env_paths = \<lparr>DefaultConfigPath = ''/home/conf'', DefaultCachePath = ''/home/c'', DefaultSystemConfigPath = ''/etc''\<rparr>,
      env_version = ''1.0'', env_now = 42, env_sysInfo = ret (encode_system no_system), env_renum = Some,
      env_decS = sysconfig_dec, env_encS = sysconfig_enc, env_decC = CFile_dec, env_encC = CFile_enc\<rparr>"

theorem consent_command_sets_witness:
  "let w' = snd (consentRun console_env example_app example_world);
       consent = consent_of CFile_dec (consent_New ''/home/conf'') in
   consent (fs w') ''wsl'' = Some True \<and> consent (fs w') [] = Some True \<and> consent (fs w') ''other'' = None \<and>
   printed (fst (consentRun console_env example_app example_world)) = [''wsl: true'', ''linux: true'']"
proof -
  let ?run = "consentRun console_env example_app example_world"
  let ?src = "[''wsl'', []] :: string list"
  have codec: "toml_codec (env_encC console_env) (env_decC console_env)" using CFile_codec by (simp add: console_env_def)
  have src: "?src = (if Consent_Sources example_app = [] then [[]] else Consent_Sources example_app)"
    and st: "parse_bool (Consent_State example_app) = Some True" and ok: "list_all source_ok ?src"
    and ev: "failure (fst ?run) = None" "source_ok ''other'' \<and> source_key ''other'' \<notin> source_key ` set ?src"
      "\<not> Quiet example_app" "map (consent_line True) ?src = [''wsl: true'', ''linux: true'']"
      "consent_of CFile_dec (consent_New ''/home/conf'') (fs example_world) ''other'' = None"
    by code_simp+
  have run: "?run = (fst ?run, snd ?run)" by simp
  have dec: "consent_of (env_decC console_env) (consent_New (consentDir example_app)) =
      consent_of CFile_dec (consent_New ''/home/conf'')" by (simp add: console_env_def example_app_def)
  note res = consent_command_sets [OF codec st src ok run dec [symmetric]]
  have "consent_of CFile_dec (consent_New ''/home/conf'') (fs (snd ?run)) ''other'' = None"
    using res [THEN conjunct1, THEN spec, THEN mp, OF ev(2)] ev(5) by (rule trans)
  moreover have "printed (fst ?run) = [''wsl: true'', ''linux: true'']"
    using res [THEN conjunct2, THEN mp, OF ev(1), THEN conjunct2] unfolding ev(4) using ev(3) by (simp only: if_False)
  moreover note res [THEN conjunct2, THEN mp, OF ev(1), THEN conjunct1]
  ultimately show ?thesis by (simp only: Let_def list.set ball_simps simp_thms insert_iff)
qed

text \<open>Without a consent file the collect command prints the report, writes nothing and succeeds:
  when the look-up of the state says that there is no file, the exit status is 0 and the disk is as
  the collection left it.\<close>

theorem collect_without_consent:
  assumes "api_collector env cm \<lparr>Source = Collect_Source a, CachePath = insightsDir a,
      SourceMetricsPath = Collect_SourceMetricsPath a, SourceMetricsJSON = None\<rparr> w = (Inr c, w1)"
    and "cm = GetState (env_decS env) (env_decC env) (NewWithSystemConfig (consentDir a) (systemConfigDir a))"
    and "Compile (env_version env) (env_renum env) (env_sysInfo env) c w1 = (Inr ins, w2)"
    and "cm (c_source c) w2 = (Inl e, w3)" "errors_is e ErrConsentFileNotFound"
  shows "\<exists>r. collectRun env a w = (r, w3) \<and> exit_status r = 0 \<and>
    printed r = (if Quiet a then [] else [MarshalIndent (insights_json ins)])"
proof -
  have "Write cm c ins p f d w2 = (Inl (ErrorfW ''insights write failed'' (ErrorfW ''failed to get consent state'' e)), w3)" for p f d
    using assms(4) by (simp add: Write_def on_error_Inl bindE_Inl)
  then show ?thesis using assms by (simp add: collectRun_def Let_def done_with_def exit_status_def)
qed

text \<open>A state that is neither true nor false is a usage error and nothing is done.\<close>

lemma bad_state_is_usage_error:
  assumes "Consent_State a \<noteq> []" "parse_bool (Consent_State a) = None" "consent_PreRunE a = (e, a')"
  shows "exit_status (done_with a' [] (case e of None \<Rightarrow> Inr () | Some x \<Rightarrow> Inl x)) = 2"
  using assms by (auto simp: consent_PreRunE_def state_PreRunE_def exit_status_def done_with_def)

text \<open>The state is made lower case before it is read, but only after the hook that checks it has
  refused every spelling of mixed case.\<close>

lemma state_mixed_case:
  "fst (consent_PreRunE (example_app\<lparr>Consent_State := ''tRUE''\<rparr>)) \<noteq> None"
  "exit_status (fst (consent_RunE console_env [] (example_app\<lparr>Consent_State := ''tRUE''\<rparr>) example_world)) = 0"
  by code_simp+

end
