(* ===== verification/Log_Handler.thy ===== *)
theory Log_Handler
  imports Prelude
begin

text \<open>
  The log handler of the C library, \<open>insights/C/log_handler.go\<close>: a \<open>slog.Handler\<close> that turns a
  record into one line of text and hands it to a callback. Values are as they are after
  \<open>Resolve\<close>: a group of attributes, or a value of which the text that \<open>%v\<close> makes is kept.
\<close>

section \<open>Data\<close>

datatype attr = Attr (attr_key: string) (attr_value: attr_value)
  and attr_value = AGroup "attr list" | AText string

record cLogHandler =
  h_level :: int
  h_attrs :: "(string \<times> string) list"
  h_groupPrefix :: string

definition NewCLogHandler :: "int \<Rightarrow> cLogHandler" where
  "NewCLogHandler level = \<lparr>h_level = level, h_attrs = [], h_groupPrefix = []\<rparr>"

section \<open>Operations\<close>

definition Enabled :: "cLogHandler \<Rightarrow> int \<Rightarrow> bool" where
  "Enabled h level \<longleftrightarrow> h_level h \<le> level"

fun flattenAttr :: "attr \<Rightarrow> string \<Rightarrow> (string \<times> string) list" where
  "flattenAttr (Attr k (AGroup as)) prefix =
     (if as = [] then []
      else let newPrefix = (if k \<noteq> [] then prefix @ k @ ''.'' else prefix) in
        concat (map (\<lambda>child. flattenAttr child newPrefix) as))"
| "flattenAttr (Attr k (AText v)) prefix = (if k = [] then [] else [(prefix @ k, v)])"

definition writeAttr :: "string \<times> string \<Rightarrow> string" where
  "writeAttr a = '' '' @ fst a @ ''='' @ snd a"

text \<open>The level and the line given to the output function.\<close>

definition Handle :: "cLogHandler \<Rightarrow> int \<Rightarrow> string \<Rightarrow> attr list \<Rightarrow> int \<times> string" where
  "Handle h level msg as =
     (level, msg @ concat (map writeAttr (h_attrs h)) @
        concat (map (\<lambda>a. concat (map writeAttr (flattenAttr a (h_groupPrefix h)))) as))"

definition WithAttrs :: "attr list \<Rightarrow> cLogHandler \<Rightarrow> cLogHandler" where
  "WithAttrs as h = h\<lparr>h_attrs := h_attrs h @ concat (map (\<lambda>a. flattenAttr a (h_groupPrefix h)) as)\<rparr>"

definition WithGroup :: "string \<Rightarrow> cLogHandler \<Rightarrow> cLogHandler" where
  "WithGroup name h = (if name = [] then h else h\<lparr>h_groupPrefix := h_groupPrefix h @ name @ ''.''\<rparr>)"

section \<open>The contract of a handler\<close>

text \<open>
  What \<open>slog\<close> asks of a handler: one derived by opening groups and adding attributes logs a record
  as if the attributes had been part of the record, nested in the groups.
\<close>

datatype derivation = InGroup string | WithThe "attr list"

fun derive :: "derivation list \<Rightarrow> cLogHandler \<Rightarrow> cLogHandler" where
  "derive [] h = h"
| "derive (InGroup g # ds) h = derive ds (WithGroup g h)"
| "derive (WithThe as # ds) h = derive ds (WithAttrs as h)"

fun nested :: "derivation list \<Rightarrow> attr list \<Rightarrow> attr list" where
  "nested [] as = as"
| "nested (InGroup g # ds) as = (if g = [] then nested ds as else [Attr g (AGroup (nested ds as))])"
| "nested (WithThe bs # ds) as = bs @ nested ds as"

lemma concat_map_concat: "concat (map f (concat (map g xs))) = concat (map (\<lambda>x. concat (map f (g x))) xs)"
  by (induction xs) simp_all

lemma Handle_WithAttrs: "Handle (WithAttrs bs h) level msg as = Handle h level msg (bs @ as)"
  by (simp add: Handle_def WithAttrs_def concat_map_concat)

lemma Handle_WithGroup:
  "g \<noteq> [] \<Longrightarrow> Handle (WithGroup g h) level msg as = Handle h level msg [Attr g (AGroup as)]"
  by (simp add: Handle_def WithGroup_def concat_map_concat Let_def)

text \<open>C39: the handler keeps the contract: however groups and attributes are stacked on a handler,
  a record is logged as the base handler logs it with the attributes nested in it, and the levels
  that are enabled stay the same.\<close>

theorem derived_handler:
  "Handle (derive ds h) level msg as = Handle h level msg (nested ds as) \<and>
   Enabled (derive ds h) l = Enabled h l"
proof (induction ds arbitrary: h)
  case (Cons d ds)
  have "Enabled (WithGroup g h) l = Enabled h l" "Enabled (WithAttrs bs h) l = Enabled h l" for g bs
    by (simp_all add: Enabled_def WithGroup_def WithAttrs_def)
  then show ?case using Cons.IH
    by (cases d) (auto simp: Handle_WithAttrs Handle_WithGroup, simp add: WithGroup_def)
qed simp

end
