(* ===== verification/C_Api.thy ===== *)
theory C_Api
  imports Api Log_Handler
begin

text \<open>
  The C library, \<open>insights/C/libinsights.go\<close>: each exported function translates its arguments to Go,
  calls the public package and translates the result back. A pointer that may be NULL is an
  option; a \<open>char\<close> pointer is the memory it points to, of which a string is the part before the
  first NUL; a run-time panic is \<open>None\<close>. The text of an error is given by the argument \<open>errText\<close>
  (\<open>err.Error()\<close>).
\<close>

section \<open>Strings and memory\<close>

definition nul :: char where "nul = CHR 0x00"

definition GoString :: "string \<Rightarrow> string" where
  "GoString m = takeWhile (\<lambda>c. c \<noteq> nul) m"

text \<open>What \<open>C.CString\<close> allocates.\<close>

definition CString :: "string \<Rightarrow> string" where
  "CString s = s @ [nul]"

definition go_string :: "string option \<Rightarrow> string" where
  "go_string p = (case p of None \<Rightarrow> [] | Some m \<Rightarrow> GoString m)"

text \<open>\<open>C.GoBytes(p, C.int(n))\<close>: the length is cut to 32 bits with a sign, and a negative one panics.\<close>

definition GoBytes :: "string \<Rightarrow> 64 word \<Rightarrow> string option" where
  "GoBytes m n =
     (let k = sint (ucast n :: 32 word) in if k < 0 then None else Some (take (nat k) m))"

definition errToCString :: "(go_error \<Rightarrow> string) \<Rightarrow> go_error + unit \<Rightarrow> string option" where
  "errToCString errText r = (case r of Inl e \<Rightarrow> Some (CString (errText e)) | Inr _ \<Rightarrow> None)"

section \<open>Configuration and flags\<close>

record c_config =
  consent_dir :: "string option"
  insights_dir :: "string option"
  system_config_dir :: "string option"
  verbose :: bool

record c_metrics_flags =
  source_metrics_path :: "string option"
  source_metrics_json :: "string option"
  source_metrics_json_len :: "64 word"

record c_collect_flags = c_metrics_flags +
  c_period :: u32
  c_force :: bool
  c_dry_run :: bool

record c_write_flags =
  w_period :: u32
  w_force :: bool
  w_dry_run :: bool

record c_upload_flags =
  u_min_age :: u32
  u_force :: bool
  u_dry_run :: bool

datatype insights_consent_state = CONSENT_UNKNOWN | CONSENT_FALSE | CONSENT_TRUE

text \<open>The logger, which the configuration also chooses, changes no result.\<close>

definition toGoInsightsConfig :: "c_config option \<Rightarrow> api_config" where
  "toGoInsightsConfig config =
     (case config of
        None \<Rightarrow> \<lparr>api_ConsentDir = [], api_InsightsDir = [], api_SystemConfigDir = []\<rparr>
      | Some c \<Rightarrow> \<lparr>api_ConsentDir = go_string (consent_dir c), api_InsightsDir = go_string (insights_dir c),
                   api_SystemConfigDir = go_string (system_config_dir c)\<rparr>)"

text \<open>The level the logger is given: that of the callback, or by the flag.\<close>

definition logger_level :: "bool \<Rightarrow> c_config option \<Rightarrow> int" where
  "logger_level hasCallback config =
     (if hasCallback then -4
      else case config of None \<Rightarrow> 0 | Some c \<Rightarrow> if verbose c then -4 else 0)"

text \<open>The metrics in memory: \<open>None\<close> for a panic, otherwise the slice, nil when there are none.\<close>

definition metrics_bytes :: "'z c_metrics_flags_scheme \<Rightarrow> string option option" where
  "metrics_bytes f =
     (case source_metrics_json f of
        None \<Rightarrow> Some None
      | Some m \<Rightarrow> if source_metrics_json_len f = 0 then Some None
                  else map_option Some (GoBytes m (source_metrics_json_len f)))"

section \<open>Results\<close>

text \<open>The error string, NULL for none, and what was stored through \<open>out_report\<close>: nothing when the
  caller gave NULL, otherwise a string or NULL.\<close>

record c_result =
  c_err :: "string option"
  c_out :: "string option option"

definition report_result :: "(go_error \<Rightarrow> string) \<Rightarrow> bool \<Rightarrow> go_error + string \<Rightarrow> c_result" where
  "report_result errText wanted r =
     (case r of
        Inl e \<Rightarrow> \<lparr>c_err = errToCString errText (Inl e), c_out = (if wanted then Some None else None)\<rparr>
      | Inr report \<Rightarrow>
          \<lparr>c_err = None,
           c_out = (if \<not> wanted then None
                    else if report = [] then Some None
                    else Some (Some (CString report)))\<rparr>)"

section \<open>Operations\<close>

definition collectCustomInsights ::
    "(go_error \<Rightarrow> string) \<Rightarrow> c_config option \<Rightarrow> string option \<Rightarrow> c_collect_flags option \<Rightarrow> bool \<Rightarrow>
     (api_config \<Rightarrow> string \<Rightarrow> collect_flags \<Rightarrow> ('s, string) io) \<Rightarrow> 's \<Rightarrow> (c_result \<times> 's) option" where
  "collectCustomInsights errText config source flags wanted customCollector w =
     (let conf = toGoInsightsConfig config;
          call = (\<lambda>f. case customCollector conf (go_string source) f w of (r, w') \<Rightarrow>
                    Some (report_result errText wanted r, w')) in
      case flags of
        None \<Rightarrow> call \<lparr>cf_SourceMetricsPath = [], cf_SourceMetricsJSON = None, cf_Period = 0, cf_Force = False,
                      cf_DryRun = False\<rparr>
      | Some fl \<Rightarrow>
         (case metrics_bytes fl of
            None \<Rightarrow> None
          | Some j \<Rightarrow> call \<lparr>cf_SourceMetricsPath = go_string (source_metrics_path fl), cf_SourceMetricsJSON = j,
              cf_Period = c_period fl, cf_Force = c_force fl, cf_DryRun = c_dry_run fl\<rparr>))"

definition insights_collect ::
    "('z os_scheme) api_env \<Rightarrow> (go_error \<Rightarrow> string) \<Rightarrow> c_config option \<Rightarrow> string option \<Rightarrow> c_collect_flags option \<Rightarrow> bool \<Rightarrow>
     'z os_scheme \<Rightarrow> (c_result \<times> 'z os_scheme) option" where
  "insights_collect env errText config source flags wanted =
     collectCustomInsights errText config source flags wanted (api_Collect env)"

definition compileCustomInsights ::
    "(go_error \<Rightarrow> string) \<Rightarrow> c_config option \<Rightarrow> c_metrics_flags option \<Rightarrow> bool \<Rightarrow>
     (api_config \<Rightarrow> compile_flags \<Rightarrow> ('s, string) io) \<Rightarrow> 's \<Rightarrow> (c_result \<times> 's) option" where
  "compileCustomInsights errText config flags wanted customCompiler w =
     (let conf = toGoInsightsConfig config;
          call = (\<lambda>f. case customCompiler conf f w of (r, w') \<Rightarrow> Some (report_result errText wanted r, w')) in
      case flags of
        None \<Rightarrow> call \<lparr>cp_SourceMetricsPath = [], cp_SourceMetricsJSON = None\<rparr>
      | Some fl \<Rightarrow>
         (case metrics_bytes fl of
            None \<Rightarrow> None
          | Some j \<Rightarrow> call \<lparr>cp_SourceMetricsPath = go_string (source_metrics_path fl), cp_SourceMetricsJSON = j\<rparr>))"

definition insights_compile ::
    "('z os_scheme) api_env \<Rightarrow> (go_error \<Rightarrow> string) \<Rightarrow> c_config option \<Rightarrow> c_metrics_flags option \<Rightarrow> bool \<Rightarrow>
     'z os_scheme \<Rightarrow> (c_result \<times> 'z os_scheme) option" where
  "insights_compile env errText config flags wanted =
     compileCustomInsights errText config flags wanted (api_Compile env)"

definition writeCustomInsights ::
    "(go_error \<Rightarrow> string) \<Rightarrow> c_config option \<Rightarrow> string option \<Rightarrow> string option \<Rightarrow> c_write_flags option \<Rightarrow>
     (api_config \<Rightarrow> string \<Rightarrow> string \<Rightarrow> write_flags \<Rightarrow> ('s, unit) io) \<Rightarrow> 's \<Rightarrow> string option \<times> 's" where
  "writeCustomInsights errText config source report flags customWriter w =
     (let f = (case flags of
                 None \<Rightarrow> \<lparr>wf_Period = 0, wf_Force = False, wf_DryRun = False\<rparr>
               | Some fl \<Rightarrow> \<lparr>wf_Period = w_period fl, wf_Force = w_force fl, wf_DryRun = w_dry_run fl\<rparr>) in
      apfst (errToCString errText)
        (customWriter (toGoInsightsConfig config) (go_string source) (go_string report) f w))"

definition insights_write ::
    "('z os_scheme) api_env \<Rightarrow> (go_error \<Rightarrow> string) \<Rightarrow> c_config option \<Rightarrow> string option \<Rightarrow> string option \<Rightarrow>
     c_write_flags option \<Rightarrow> 'z os_scheme \<Rightarrow> string option \<times> 'z os_scheme" where
  "insights_write env errText config source report flags =
     writeCustomInsights errText config source report flags (api_Write env)"

text \<open>The array of sources is read through a pointer to an array of \<open>2 ^ 28\<close> entries: a longer one
  panics. An entry that is NULL stays the empty string.\<close>

definition c_sources :: "string option list option \<Rightarrow> 64 word \<Rightarrow> string list option" where
  "c_sources sources n =
     (case sources of
        None \<Rightarrow> Some []
      | Some ps \<Rightarrow>
         if n = 0 then Some []
         else if 2 ^ 28 < uint n then None
         else Some (map go_string (take (unat n) ps)))"

definition insights_upload ::
    "client api_env \<Rightarrow> (report list \<Rightarrow> report list) \<Rightarrow> (string list \<Rightarrow> string list) \<Rightarrow> (go_error \<Rightarrow> string) \<Rightarrow> c_config option \<Rightarrow>
     string option list option \<Rightarrow> 64 word \<Rightarrow> c_upload_flags option \<Rightarrow> client \<Rightarrow> (string option \<times> client) option" where
  "insights_upload env order orderS errText config sources n flags w =
     (let f = (case flags of
                 None \<Rightarrow> \<lparr>uf_MinAge = 0, uf_Force = False, uf_DryRun = False\<rparr>
               | Some fl \<Rightarrow> \<lparr>uf_MinAge = u_min_age fl, uf_Force = u_force fl, uf_DryRun = u_dry_run fl\<rparr>) in
      c_sources sources n \<bind> (\<lambda>ss.
        map_option (apfst (errToCString errText)) (api_Upload env order orderS (toGoInsightsConfig config) ss f w)))"

definition insights_get_consent_state ::
    "('z os_scheme) api_env \<Rightarrow> c_config option \<Rightarrow> string option \<Rightarrow> 'z os_scheme \<Rightarrow> insights_consent_state \<times> 'z os_scheme" where
  "insights_get_consent_state env config source w =
     (case GetConsentState env (toGoInsightsConfig config) (go_string source) w of
        (Inl _, w') \<Rightarrow> (CONSENT_UNKNOWN, w')
      | (Inr s, w') \<Rightarrow> (if s then CONSENT_TRUE else CONSENT_FALSE, w'))"

definition insights_set_consent_state ::
    "('z os_scheme) api_env \<Rightarrow> (go_error \<Rightarrow> string) \<Rightarrow> c_config option \<Rightarrow> string option \<Rightarrow> bool \<Rightarrow> 'z os_scheme
     \<Rightarrow> string option \<times> 'z os_scheme" where
  "insights_set_consent_state env errText config source new_state w =
     apfst (errToCString errText) (SetConsentState env (toGoInsightsConfig config) (go_string source) new_state w)"

definition insights_get_system_opt_out_state ::
    "('z os_scheme) api_env \<Rightarrow> c_config option \<Rightarrow> 'z os_scheme \<Rightarrow> bool \<times> 'z os_scheme" where
  "insights_get_system_opt_out_state env config w =
     (case IsSystemOptOut env (toGoInsightsConfig config) w of
        (Inl _, w') \<Rightarrow> (False, w')
      | (Inr b, w') \<Rightarrow> (b, w'))"

definition insights_set_system_opt_out_state ::
    "('z os_scheme) api_env \<Rightarrow> (go_error \<Rightarrow> string) \<Rightarrow> c_config option \<Rightarrow> bool \<Rightarrow> 'z os_scheme \<Rightarrow> string option \<times> 'z os_scheme" where
  "insights_set_system_opt_out_state env errText config state w =
     apfst (errToCString errText) (SetSystemOptOut env (toGoInsightsConfig config) state w)"

text \<open>The levels of \<open>slog\<close> as the callback gets them; any other level counts as an error.\<close>

definition c_log_level :: "int \<Rightarrow> int" where
  "c_log_level l = (if l = -4 then 3 else if l = 0 then 2 else if l = 4 then 1 else 0)"

section \<open>Facts\<close>

text \<open>A report holds no NUL: control characters are escaped, and a number has none.\<close>

lemma GoString_CString: "nul \<notin> set s \<Longrightarrow> GoString (CString s) = s"
  by (simp add: GoString_def CString_def takeWhile_tail) (metis takeWhile_eq_all_conv)

lemma read_number_no_nul: "read_number s = Some (l, rest) \<Longrightarrow> nul \<notin> set l"
proof -
  have d: "takeWhile is_digit t = x \<Longrightarrow> nul \<notin> set x" for t x by (auto simp: nul_def is_digit_def dest: set_takeWhileD)
  have i: "read_int_part t = Some (x, y) \<Longrightarrow> nul \<notin> set x" for t x y
    by (auto simp: read_int_part_def span_digits_def Let_def split: list.splits if_splits prod.splits
        simp: d [OF refl] dest: d)
  have f: "read_frac t = Some (x, y) \<Longrightarrow> nul \<notin> set x" for t x y
    by (auto simp: read_frac_def span_digits_def Let_def split: list.splits if_splits prod.splits dest!: d)
       (auto simp: nul_def)
  have e: "read_exp t = Some (x, y) \<Longrightarrow> nul \<notin> set x" for t x y
    by (auto simp: read_exp_def span_digits_def Let_def split: list.splits if_splits prod.splits dest!: d)
       (auto simp: nul_def is_digit_def dest: set_takeWhileD)
  assume "read_number s = Some (l, rest)"
  then show ?thesis
    by (auto simp: read_number_def Let_def split: option.splits prod.splits list.splits if_splits dest!: i f e)
       (auto simp: nul_def)
qed

lemma num_ok_no_nul: "num_ok l \<Longrightarrow> nul \<notin> set l"
proof -
  assume "num_ok l"
  then have "read_number (l @ []) = Some (l, [])" unfolding num_ok_def delim_def by blast
  then show ?thesis by (auto dest: read_number_no_nul)
qed

lemma hex_digit_not_nul: "k < 16 \<Longrightarrow> hex_digit k \<noteq> nul"
  using hex_digit_val [of k] by (auto simp: nul_def hex_val_def)

lemma escape_char_no_nul: "nul \<notin> set (escape_char c)"
proof (cases "c = nul")
  case True
  have "nul \<notin> set (escape_char nul)" by code_simp
  with True show ?thesis by simp
next
  case False
  let ?n = "of_char c :: nat"
  have "?n < 16 * 16" by simp
  then have "?n div 16 < 16" by (rule less_mult_imp_div_less)
  then have "hex_digit (?n div 16) \<noteq> nul" "hex_digit (?n mod 16) \<noteq> nul" by (simp_all add: hex_digit_not_nul)
  moreover have "nul \<notin> {CHR 0x5C, CHR ''b'', CHR ''f'', CHR ''n'', CHR ''r'', CHR ''t'', CHR ''u'', CHR ''0''}"
    by (simp add: nul_def)
  ultimately show ?thesis using False unfolding escape_char_def Let_def by (simp split: if_split)
qed

lemma marshal_string_no_nul: "nul \<notin> set (marshal_string s)"
  using escape_char_no_nul by (auto simp: marshal_string_def nul_def)

lemma join_with_not_in: "c \<notin> set sep \<Longrightarrow> \<forall>x\<in>set xs. c \<notin> set x \<Longrightarrow> c \<notin> set (join_with sep xs)"
  by (induction sep xs rule: join_with.induct) auto

lemma print_json_no_nul:
  assumes "\<And>k. nul \<notin> set (nl k)" "nul \<notin> set sp" "json_wf v"
  shows "nul \<notin> set (print_json nl sp k v)"
  using assms(3)
proof (induction v arbitrary: k)
  case (JNum l)
  then show ?case by (simp add: num_ok_no_nul)
next
  case (JStr s)
  then show ?case by (simp add: marshal_string_no_nul)
next
  case (JArr xs)
  let ?xs = "map (print_json nl sp (Suc k)) xs"
  have "\<forall>x\<in>set ?xs. nul \<notin> set x" using JArr by auto
  then have "nul \<notin> set (join_with ('','' @ nl (Suc k)) ?xs)"
    using assms(1) by (intro join_with_not_in) (simp_all add: nul_def)
  then show ?case using assms(1) by (simp add: nul_def)
next
  case (JObj kvs)
  let ?xs = "map (\<lambda>kv. marshal_string (fst kv) @ '':'' @ sp @ print_json nl sp (Suc k) (snd kv)) kvs"
  have "nul \<notin> set (print_json nl sp (Suc k) (snd kv))" if "kv \<in> set kvs" for kv
    using JObj that by (metis json_wf.simps(3) prod.collapse prod_set_simps(2) singletonI)
  moreover have "nul \<noteq> CHR '':''" "nul \<noteq> CHR '',''" by (simp_all add: nul_def)
  ultimately have "\<forall>x\<in>set ?xs. nul \<notin> set x" using assms(2) marshal_string_no_nul by auto
  then have "nul \<notin> set (join_with ('','' @ nl (Suc k)) ?xs)"
    using assms(1) by (intro join_with_not_in) (simp_all add: nul_def)
  then show ?case using assms(1) by (simp add: nul_def)
qed (auto simp: nul_def)

lemma MarshalIndent_no_nul: "json_wf v \<Longrightarrow> nul \<notin> set (MarshalIndent v)"
  unfolding MarshalIndent_def by (rule print_json_no_nul) (auto simp: newline_indent_def nul_def)

lemma api_Compile_no_nul:
  assumes "quiet w" "fs_wf (fs w)" "dir = api_InsightsDir (Resolve (env_paths env) c)" "dir \<noteq> []"
    and "creatable (fs w) (resolve dir)" "collects_system (env_sysInfo env)" "renum_ok (env_renum env)"
    and "api_Compile env c f w = (Inr data, w1)"
  shows "nul \<notin> set data"
proof -
  let ?col = "\<lambda>s. new_collector dir s (cp_SourceMetricsPath f) (cp_SourceMetricsJSON f) (env_now env)"
  let ?C = "Compile (env_version env) (env_renum env) (env_sysInfo env)"
  from api_collector_run [OF assms(1,2,4,5), of env "cp_SourceMetricsPath f" "cp_SourceMetricsJSON f"]
  obtain f1 where new: "\<forall>cm source. api_collector env cm \<lparr>Source = source, CachePath = dir, SourceMetricsPath = cp_SourceMetricsPath f,
      SourceMetricsJSON = cp_SourceMetricsJSON f\<rparr> w = (Inr (?col source), w\<lparr>fs := f1\<rparr>)"
    using assms(3,8) by (auto simp: api_Compile_def Let_def bindE_Inl)
  then obtain ins where ins: "?C (?col PlatformSource) (w\<lparr>fs := f1\<rparr>) = (Inr ins, w1)" "data = MarshalIndent (insights_json ins)"
    using assms(3,8) by (auto simp: api_Compile_def Let_def bindE_Inr bindE_eq_Inr)
  have q: "quiet (w\<lparr>fs := f1\<rparr>)" using assms(1) by simp
  note res = Compile_result [OF assms(6,7) q ins(1)]
  obtain h s p where "SysInfo ins = encode_system (h, s, p)" "hardware_ok h" using res(1) by blast
  then show ?thesis using MarshalIndent_no_nul [OF insights_json_wf [OF _ _ res(3)]] ins(2) by blast
qed

text \<open>C38: a report goes through the C library unharmed. When \<open>insights_compile\<close> hands out a report, it
  is the text the Go call returned, the error is NULL, and a program that passes the string on to
  \<open>insights_write\<close> makes the Go call with the same text: no byte of a report ends a C string early.\<close>

theorem C_report_intact:
  assumes "quiet w" "fs_wf (fs w)" "dir = api_InsightsDir (Resolve (env_paths env) (toGoInsightsConfig config))" "dir \<noteq> []"
    and "creatable (fs w) (resolve dir)" "collects_system (env_sysInfo env)" "renum_ok (env_renum env)"
    and "insights_compile env errText config flags True w = Some (res, w1)" "c_out res = Some (Some m)"
  shows "\<exists>f data. api_Compile env (toGoInsightsConfig config) f w = (Inr data, w1) \<and> c_err res = None \<and> GoString m = data \<and>
    insights_write env' errText config source (Some m) (Some fl) w1 =
      apfst (errToCString errText) (api_Write env' (toGoInsightsConfig config) (go_string source) data
        \<lparr>wf_Period = w_period fl, wf_Force = w_force fl, wf_DryRun = w_dry_run fl\<rparr> w1)"
proof -
  let ?c = "toGoInsightsConfig config"
  obtain f r where f: "api_Compile env ?c f w = (r, w1)" "res = report_result errText True r"
    using assms(8)
    by (cases flags) (auto simp: insights_compile_def compileCustomInsights_def Let_def split: prod.splits option.splits)
  then obtain data where d: "r = Inr data" "m = CString data" "c_err res = None"
    using assms(9) by (cases r) (auto simp: report_result_def split: if_splits)
  have "nul \<notin> set data" using api_Compile_no_nul [OF assms(1-7)] f(1) d(1) by blast
  then have "GoString m = data" using d(2) GoString_CString by simp
  then show ?thesis using f(1) d by (intro exI [of _ f] exI [of _ data])
      (simp add: insights_write_def writeCustomInsights_def go_string_def Let_def)
qed

definition c_example :: c_config where
  "c_example = \<lparr>consent_dir = None, insights_dir = Some (CString ''ins''), system_config_dir = None, verbose = False\<rparr>"

definition c_example_run :: "c_result \<times> machine" where
  "c_example_run = the (insights_compile example_env (\<lambda>_. ''error'') (Some c_example) None True api_machine)"

theorem C_report_intact_witness:
  "\<exists>f data m. c_out (fst c_example_run) = Some (Some m) \<and>
     api_Compile example_env (toGoInsightsConfig (Some c_example)) f api_machine = (Inr data, snd c_example_run) \<and>
     GoString m = data"
proof -
  have sys: "collects_system (env_sysInfo example_env)"
    using example_env_collects by simp
  have num: "renum_ok (env_renum example_env)" by (rule example_env_renum)
  have w: "faults api_machine = []" "fs_wf (fs api_machine)" "creatable (fs api_machine) (resolve ''ins'')"
    "''ins'' = api_InsightsDir (Resolve (env_paths example_env) (toGoInsightsConfig (Some c_example)))"
    by code_simp+
  have run: "insights_compile example_env (\<lambda>_. ''error'') (Some c_example) None True api_machine \<noteq> None"
    "(case c_out (fst c_example_run) of Some (Some m) \<Rightarrow> True | _ \<Rightarrow> False)" by code_simp+
  then obtain m where m: "c_out (fst c_example_run) = Some (Some m)" by (auto split: option.splits)
  have eq: "insights_compile example_env (\<lambda>_. ''error'') (Some c_example) None True api_machine =
      Some (fst c_example_run, snd c_example_run)"
    using run(1) by (auto simp: c_example_run_def)
  show ?thesis using C_report_intact [OF w(1,2,4) _ w(3) sys num eq m] m by fastforce
qed

text \<open>The length of metrics passed in memory is cut to 32 bits with a sign: with \<open>2 ^ 32 + 1\<close> bytes
  only one is read, and \<open>2 ^ 31\<close> bytes end in a panic.\<close>

lemma metrics_length_cut:
  "GoBytes m (2 ^ 32 + 1) = Some (take 1 m)" "GoBytes m (2 ^ 31) = None"
proof -
  have "sint (ucast (2 ^ 32 + 1 :: 64 word) :: 32 word) = 1" "sint (ucast (2 ^ 31 :: 64 word) :: 32 word) = - (2 ^ 31)"
    by code_simp+
  then show "GoBytes m (2 ^ 32 + 1) = Some (take 1 m)" "GoBytes m (2 ^ 31) = None" by (simp_all add: GoBytes_def Let_def)
qed

lemma metrics_length_exact: "uint n < 2 ^ 31 \<Longrightarrow> GoBytes m n = Some (take (unat n) m)"
proof -
  assume n: "uint n < 2 ^ 31"
  then have "uint (ucast n :: 32 word) = uint n" by (simp add: unsigned_ucast_eq take_bit_int_eq_self)
  moreover have "sint (ucast n :: 32 word) = signed_take_bit 31 (uint (ucast n :: 32 word))"
    by (simp add: sint_uint)
  moreover have "(- (2 ^ 31) :: int) \<le> 0" by simp
  then have "- (2 ^ 31) \<le> uint n" using unsigned_greater_eq [of n] by (rule order_trans)
  then have "signed_take_bit 31 (uint n) = uint n" using n by (rule signed_take_bit_int_eq_self)
  ultimately have "sint (ucast n :: 32 word) = uint n" by metis
  then show ?thesis unfolding GoBytes_def Let_def by simp
qed

end
