(* ===== verification/Plist.thy ===== *)
theory Plist
  imports Go_Strings
begin

text \<open>
  The property lists of macOS, as \<open>hardware_darwin.go\<close> reads them: a recursive descent over the
  tokens of \<open>encoding/xml\<close>. The decoder is what its method \<open>Token\<close> gives, one token after the other
  and at last an error; cutting the text into tokens is the work of the standard library. The
  loops and the recursion into values run on fuel; as many units as there are tokens left, and one,
  are enough, which is proved.
\<close>

section \<open>Tokens\<close>

text \<open>A name is its name space and its local part.\<close>

type_synonym xml_name = "string \<times> string"

datatype xml_token =
    ProcInst string
  | Directive
  | Comment
  | StartElement xml_name
  | EndElement xml_name
  | CharData string

text \<open>A token may be nil; the error is the one that \<open>Token\<close> returns when there is none left.\<close>

type_synonym xml_tokens = "xml_token option list"

definition isXMLProcInst :: "xml_token option \<Rightarrow> string \<Rightarrow> go_error option" where
  "isXMLProcInst got target =
     (case got of
        Some (ProcInst t) \<Rightarrow>
          if target \<noteq> [] \<and> t \<noteq> target then Some (Errorf ''ProcInst Token didn't have target'') else None
      | _ \<Rightarrow> Some (Errorf ''token was not a ProcInst Token with target''))"

definition isXMLDirective :: "xml_token option \<Rightarrow> go_error option" where
  "isXMLDirective got = (if got \<noteq> Some Directive then Some (Errorf ''token was not a Directive Token'') else None)"

definition getXMLStartElement :: "xml_token option \<Rightarrow> go_error + xml_name" where
  "getXMLStartElement tok =
     (case tok of Some (StartElement n) \<Rightarrow> Inr n | _ \<Rightarrow> Inl (Errorf ''token was not a StartElement Token''))"

fun tokenSkipWhitespace :: "go_error \<Rightarrow> (xml_tokens, xml_token option) io" where
  "tokenSkipWhitespace err [] = (Inl err, [])"
| "tokenSkipWhitespace err (None # ts) = (Inr None, ts)"
| "tokenSkipWhitespace err (Some tok # ts) =
     (case tok of
        CharData s \<Rightarrow> if trim_space s \<noteq> [] then (Inr (Some tok), ts) else tokenSkipWhitespace err ts
      | _ \<Rightarrow> (Inr (Some tok), ts))"

section \<open>Text\<close>

text \<open>\<open>DecodeElement\<close> into a struct with one \<open>chardata\<close> field: the text of the element itself up to its
  end; elements inside it are skipped, \<open>depth\<close> of them being open.\<close>

fun element_text :: "go_error \<Rightarrow> nat \<Rightarrow> string \<Rightarrow> (xml_tokens, string) io" where
  "element_text err depth acc [] = (Inl err, [])"
| "element_text err depth acc (None # ts) = element_text err depth acc ts"
| "element_text err depth acc (Some tok # ts) =
     (case tok of
        StartElement _ \<Rightarrow> element_text err (Suc depth) acc ts
      | EndElement _ \<Rightarrow> (case depth of 0 \<Rightarrow> (Inr acc, ts) | Suc d \<Rightarrow> element_text err d acc ts)
      | CharData s \<Rightarrow> element_text err depth (if depth = 0 then acc @ s else acc) ts
      | _ \<Rightarrow> element_text err depth acc ts)"

definition parsePListString :: "go_error \<Rightarrow> (xml_tokens, string) io" where
  "parsePListString err = element_text err 0 []"

text \<open>The text of a number is trimmed and read in base ten; no text at all is zero.\<close>

definition chardata_int :: "string \<Rightarrow> go_error + int" where
  "chardata_int s =
     (if s = [] then Inr 0
      else case parse_int64 (trim_space s) of
        None \<Rightarrow> Inl (Errorf ''strconv.ParseInt: invalid syntax'')
      | Some v \<Rightarrow> Inr v)"

definition parsePListInt :: "go_error \<Rightarrow> (xml_tokens, int) io" where
  "parsePListInt err = bindE (element_text err 0 []) (\<lambda>s ts. (chardata_int s, ts))"

section \<open>Values\<close>

datatype plist =
    PInt int
  | PString string
  | PArray "plist list"
  | PDict "(string \<times> plist) list"

text \<open>\<open>None\<close> stands for fuel that ran out.\<close>


definition then_do ::
    "((go_error + 'a) \<times> 's) option \<Rightarrow> ('a \<Rightarrow> 's \<Rightarrow> ((go_error + 'b) \<times> 's) option) \<Rightarrow> ((go_error + 'b) \<times> 's) option" where
  "then_do r k =
     (case r of
        None \<Rightarrow> None
      | Some (Inl e, s) \<Rightarrow> Some (Inl e, s)
      | Some (Inr x, s) \<Rightarrow> k x s)"

definition stop_with :: "go_error \<Rightarrow> 's \<Rightarrow> ((go_error + 'a) \<times> 's) option" where
  "stop_with e s = Some (Inl e, s)"

text \<open>The two loops, over the parser of the values inside. Each turn takes a token at least.\<close>

type_synonym plist_parser = "xml_name \<Rightarrow> xml_tokens \<Rightarrow> ((go_error + plist) \<times> xml_tokens) option"

primrec parsePListArray ::
    "nat \<Rightarrow> plist_parser \<Rightarrow> go_error \<Rightarrow> xml_name \<Rightarrow> plist list \<Rightarrow> xml_tokens
     \<Rightarrow> ((go_error + plist list) \<times> xml_tokens) option" where
  "parsePListArray 0 val err start out ts = None"
| "parsePListArray (Suc n) val err start out ts =
     then_do (Some (tokenSkipWhitespace err ts)) (\<lambda>tok ts1.
       if tok = None then stop_with (Errorf ''unexpected EOF while parsing array'') ts1
       else if tok = Some (EndElement start) then Some (Inr out, ts1)
       else then_do (Some (getXMLStartElement tok, ts1)) (\<lambda>cur ts1.
         then_do (val cur ts1) (\<lambda>d ts2. parsePListArray n val err start (out @ [d]) ts2)))"

primrec parsePListDict ::
    "nat \<Rightarrow> plist_parser \<Rightarrow> go_error \<Rightarrow> xml_name \<Rightarrow> (string \<times> plist) list \<Rightarrow> xml_tokens
     \<Rightarrow> ((go_error + (string \<times> plist) list) \<times> xml_tokens) option" where
  "parsePListDict 0 val err start out ts = None"
| "parsePListDict (Suc n) val err start out ts =
     then_do (Some (tokenSkipWhitespace err ts)) (\<lambda>tok ts1.
       if tok = None then stop_with (Errorf ''unexpected EOF while parsing dict key'') ts1
       else if tok = Some (EndElement start) then Some (Inr out, ts1)
       else then_do (Some (getXMLStartElement tok, ts1)) (\<lambda>cur ts1.
         if snd cur \<noteq> ''key'' then stop_with (Errorf ''unexpected element while parsing dict key'') ts1
         else then_do (Some (parsePListString err ts1)) (\<lambda>key ts2.
           then_do (Some (tokenSkipWhitespace err ts2)) (\<lambda>tok ts3.
             if tok = None then stop_with (Errorf ''unexpected EOF while parsing dict value'') ts3
             else if tok = Some (EndElement start)
             then stop_with (Errorf ''unexpected end element while parsing dict value'') ts3
             else then_do (Some (getXMLStartElement tok, ts3)) (\<lambda>cur ts3.
               then_do (val cur ts3) (\<lambda>d ts4.
                 if key \<in> fst ` set out then stop_with (Errorf ''dict contained duplicate keys'') ts4
                 else parsePListDict n val err start (out @ [(key, d)]) ts4))))))"

primrec parsePListValue :: "nat \<Rightarrow> go_error \<Rightarrow> plist_parser" where
  "parsePListValue 0 err start ts = None"
| "parsePListValue (Suc k) err start ts =
     (if snd start = ''integer'' then then_do (Some (parsePListInt err ts)) (\<lambda>v ts'. Some (Inr (PInt v), ts'))
      else if snd start = ''string'' then then_do (Some (parsePListString err ts)) (\<lambda>v ts'. Some (Inr (PString v), ts'))
      else if snd start = ''array'' then
        then_do (parsePListArray (Suc (length ts)) (parsePListValue k err) err start [] ts) (\<lambda>v ts'. Some (Inr (PArray v), ts'))
      else if snd start = ''dict'' then
        then_do (parsePListDict (Suc (length ts)) (parsePListValue k err) err start [] ts) (\<lambda>v ts'. Some (Inr (PDict v), ts'))
      else if snd start = ''key'' then stop_with (Errorf ''unexpected key while parsing value'') ts
      else stop_with (Errorf ''unexpected XML element while parsing'') ts)"

section \<open>Documents\<close>

text \<open>The head of the document is checked token by token; its first value must be a dictionary. The
  closing of the \<open>plist\<close> element is not looked at.\<close>

definition parseDiskXML ::
    "go_error \<Rightarrow> xml_tokens \<Rightarrow> ((go_error + (string \<times> plist) list) \<times> xml_tokens) option" where
  "parseDiskXML err ts =
     then_do (Some (tokenSkipWhitespace err ts)) (\<lambda>xmlVer ts1.
       case isXMLProcInst xmlVer ''xml'' of Some e \<Rightarrow> stop_with e ts1 | None \<Rightarrow>
     then_do (Some (tokenSkipWhitespace err ts1)) (\<lambda>doctype ts2.
       case isXMLDirective doctype of Some e \<Rightarrow> stop_with e ts2 | None \<Rightarrow>
     then_do (Some (tokenSkipWhitespace err ts2)) (\<lambda>plistTok ts3.
     then_do (Some (getXMLStartElement plistTok, ts3)) (\<lambda>plist ts3.
       if snd plist \<noteq> ''plist'' then stop_with (Errorf ''XML had no plist'') ts3 else
     then_do (Some (tokenSkipWhitespace err ts3)) (\<lambda>dTok ts4.
     then_do (Some (getXMLStartElement dTok, ts4)) (\<lambda>d ts4.
       if snd d \<noteq> ''dict'' then stop_with (Errorf ''XML had no initial dict'') ts4
       else parsePListDict (Suc (length ts4)) (parsePListValue (Suc (length ts4)) err) err d [] ts4))))))"

section \<open>The fuel is enough\<close>

definition shrinks :: "xml_tokens \<Rightarrow> ((go_error + 'a) \<times> xml_tokens) option \<Rightarrow> bool" where
  "shrinks ts r \<longleftrightarrow> (\<exists>x ts'. r = Some (x, ts') \<and> length ts' \<le> length ts)"

lemma shrinks_stop [simp]: "shrinks ts (stop_with e ts') \<longleftrightarrow> length ts' \<le> length ts"
  "shrinks ts (Some (x, ts')) \<longleftrightarrow> length ts' \<le> length ts"
  by (simp_all add: shrinks_def stop_with_def)

text \<open>What follows a step is run on the tokens the step has left.\<close>

lemma shrinks_then:
  assumes "shrinks ts r" "\<And>x ts'. r = Some (Inr x, ts') \<Longrightarrow> length ts' \<le> length ts \<Longrightarrow> shrinks ts' (k x ts')"
  shows "shrinks ts (then_do r k)"
proof -
  obtain x ts' where r: "r = Some (x, ts')" "length ts' \<le> length ts" using assms(1) by (auto simp: shrinks_def)
  show ?thesis
  proof (cases x)
    case (Inl e)
    then show ?thesis using r by (simp add: then_do_def)
  next
    case (Inr y)
    then have "shrinks ts' (k y ts')" using assms(2) r by blast
    then show ?thesis using r Inr by (auto simp: then_do_def shrinks_def)
  qed
qed

lemma skip_length:
  "tokenSkipWhitespace err ts = (r, ts') \<Longrightarrow> length ts' \<le> length ts \<and> (\<forall>tok. r = Inr tok \<longrightarrow> length ts' < length ts)"
  by (induction err ts rule: tokenSkipWhitespace.induct) (auto split: xml_token.splits if_splits)

lemma shrinks_skip [simp]: "shrinks ts (Some (tokenSkipWhitespace err ts))"
  using skip_length [of err ts] by (cases "tokenSkipWhitespace err ts") auto

lemma text_length: "element_text err depth acc ts = (r, ts') \<Longrightarrow> length ts' \<le> length ts"
  by (induction err depth acc ts rule: element_text.induct) (auto split: xml_token.splits if_splits nat.splits intro: le_SucI)

lemma shrinks_text [simp]: "shrinks ts (Some (parsePListString err ts))" "shrinks ts (Some (parsePListInt err ts))"
  using text_length [of err 0 "[]" ts]
  by (cases "element_text err 0 [] ts", auto simp: parsePListString_def parsePListInt_def bindE_def split: sum.splits)+

lemma array_total:
  assumes "\<And>start us. length us < m \<Longrightarrow> shrinks us (val start us)" "length ts \<le> m" "length ts < n"
  shows "shrinks ts (parsePListArray n val err start out ts)"
  using assms(2,3)
proof (induction n arbitrary: ts out)
  case (Suc n)
  show ?case
    by (auto intro!: shrinks_then Suc.IH assms(1) dest!: skip_length) (use Suc.prems in auto)
qed simp

lemma dict_total:
  assumes "\<And>start us. length us < m \<Longrightarrow> shrinks us (val start us)" "length ts \<le> m" "length ts < n"
  shows "shrinks ts (parsePListDict n val err start out ts)"
  using assms(2,3)
proof (induction n arbitrary: ts out)
  case (Suc n)
  show ?case
    by (auto intro!: shrinks_then Suc.IH assms(1) dest!: skip_length) (use Suc.prems in auto)
qed simp

lemma value_total: "length ts < k \<Longrightarrow> shrinks ts (parsePListValue k err start ts)"
proof (induction k arbitrary: start ts)
  case (Suc k)
  have inner: "shrinks us (parsePListValue k err name us)" if "length us < length ts" for name us
    using Suc that by simp
  have "shrinks ts (parsePListArray (Suc (length ts)) (parsePListValue k err) err start [] ts)"
    using inner by (intro array_total [where m = "length ts"]) auto
  moreover have "shrinks ts (parsePListDict (Suc (length ts)) (parsePListValue k err) err start [] ts)"
    using inner by (intro dict_total [where m = "length ts"]) auto
  ultimately show ?case
    by (simp del: parsePListArray.simps parsePListDict.simps) (auto intro!: shrinks_then)
qed simp

text \<open>So a document is always parsed to a value or an error.\<close>

lemma parseDiskXML_total: "\<exists>r ts'. parseDiskXML err ts = Some (r, ts') \<and> length ts' \<le> length ts"
proof -
  have d: "shrinks us (parsePListDict (Suc (length us)) (parsePListValue (Suc (length us)) err) err start [] us)" for start us
    by (intro dict_total [where m = "length us"] value_total) auto
  have "shrinks ts (parseDiskXML err ts)"
    unfolding parseDiskXML_def by (auto intro!: shrinks_then d split: option.splits simp del: parsePListDict.simps)
  then show ?thesis by (auto simp: shrinks_def)
qed

section \<open>Printing\<close>

text \<open>The tokens of a value as the tools of macOS lay it out, with white space \<open>ws\<close> between the
  elements.\<close>

definition element :: "string \<Rightarrow> xml_tokens \<Rightarrow> xml_tokens" where
  "element t body = Some (StartElement ([], t)) # body @ [Some (EndElement ([], t))]"

definition text_tokens :: "string \<Rightarrow> xml_tokens" where
  "text_tokens s = (if s = [] then [] else [Some (CharData s)])"

fun plist_tag :: "plist \<Rightarrow> string" where
  "plist_tag (PInt v) = ''integer''"
| "plist_tag (PString s) = ''string''"
| "plist_tag (PArray vs) = ''array''"
| "plist_tag (PDict kvs) = ''dict''"

fun plist_body :: "string \<Rightarrow> plist \<Rightarrow> xml_tokens" where
  "plist_body ws (PInt v) = text_tokens (show_int v)"
| "plist_body ws (PString s) = text_tokens s"
| "plist_body ws (PArray vs) =
     concat (map (\<lambda>v. text_tokens ws @ element (plist_tag v) (plist_body ws v)) vs) @ text_tokens ws"
| "plist_body ws (PDict kvs) =
     concat (map (\<lambda>(k, v). text_tokens ws @ element ''key'' (text_tokens k) @ text_tokens ws @
       element (plist_tag v) (plist_body ws v)) kvs) @ text_tokens ws"

definition plist_document :: "string \<Rightarrow> (string \<times> plist) list \<Rightarrow> xml_tokens" where
  "plist_document ws kvs =
     [Some (ProcInst ''xml'')] @ text_tokens ws @ [Some Directive] @ text_tokens ws @
     element ''plist'' (text_tokens ws @ element ''dict'' (plist_body ws (PDict kvs)) @ text_tokens ws)"

fun plist_ok :: "plist \<Rightarrow> bool" where
  "plist_ok (PInt v) = in_i64 v"
| "plist_ok (PString s) = True"
| "plist_ok (PArray vs) = list_all plist_ok vs"
| "plist_ok (PDict kvs) = (distinct (map fst kvs) \<and> list_all (\<lambda>(k, v). plist_ok v) kvs)"

fun plist_depth :: "plist \<Rightarrow> nat" where
  "plist_depth (PArray vs) = Suc (fold max (map plist_depth vs) 0)"
| "plist_depth (PDict kvs) = Suc (fold max (map (\<lambda>(k, v). plist_depth v) kvs) 0)"
| "plist_depth _ = 0"

section \<open>Reading back what was printed\<close>

lemma skip_gap [simp]:
  "trim_space ws = [] \<Longrightarrow> tokenSkipWhitespace err (text_tokens ws @ ts) = tokenSkipWhitespace err ts"
  by (simp add: text_tokens_def)

lemma text_of_element [simp]: "element_text err 0 acc (text_tokens s @ Some (EndElement n) # ts) = (Inr (acc @ s), ts)"
  by (simp add: text_tokens_def)

lemma trim_show_int: "trim_space (show_int v) = show_int v"
proof -
  have "\<not> is_space c" if "c \<in> set (show_int v)" for c
    using show_int_chars [OF that] by (auto simp: is_digit_def is_space_def)
  then have "dropWhile is_space s = s" if "set s = set (show_int v)" for s
    using that by (cases s) auto
  then have "dropWhile is_space (show_int v) = show_int v" "dropWhile is_space (rev (show_int v)) = rev (show_int v)"
    by simp_all
  then show ?thesis by (simp add: trim_space_def)
qed

lemma chardata_show_int: "in_i64 v \<Longrightarrow> chardata_int (show_int v) = Inr v"
  using parse_int64_show_int [of v] by (auto simp: chardata_int_def trim_show_int parse_int64_def)

lemma array_reads:
  assumes "trim_space ws = []" "length vs < n"
    and "\<And>v us. v \<in> set vs \<Longrightarrow> val ([], plist_tag v) (plist_body ws v @ Some (EndElement ([], plist_tag v)) # us) = Some (Inr v, us)"
  shows "parsePListArray n val err start out
    (concat (map (\<lambda>v. text_tokens ws @ element (plist_tag v) (plist_body ws v)) vs) @ text_tokens ws @
      Some (EndElement start) # us) = Some (Inr (out @ vs), us)"
  using assms(2,3)
proof (induction vs arbitrary: n out)
  case Nil
  then show ?case using assms(1) by (cases n) (simp_all add: then_do_def)
next
  case (Cons v vs)
  then obtain m where n: "n = Suc m" "length vs < m" by (cases n) auto
  have v: "val ([], plist_tag v) (plist_body ws v @ Some (EndElement ([], plist_tag v)) # us) = Some (Inr v, us)" for us
    using Cons.prems(2) [of v] by simp
  have "parsePListArray m val err start (out @ [v])
      (concat (map (\<lambda>v. text_tokens ws @ element (plist_tag v) (plist_body ws v)) vs) @ text_tokens ws @
        Some (EndElement start) # us) = Some (Inr (out @ v # vs), us)"
    using Cons.IH [OF n(2)] Cons.prems(2) by simp
  then show ?case using assms(1) v n(1) by (simp add: then_do_def element_def getXMLStartElement_def)
qed

lemma dict_reads:
  assumes "trim_space ws = []" "length kvs < n" "distinct (map fst (out @ kvs))"
    and "\<And>v us. v \<in> snd ` set kvs \<Longrightarrow>
      val ([], plist_tag v) (plist_body ws v @ Some (EndElement ([], plist_tag v)) # us) = Some (Inr v, us)"
  shows "parsePListDict n val err start out
    (concat (map (\<lambda>(k, v). text_tokens ws @ element ''key'' (text_tokens k) @ text_tokens ws @
        element (plist_tag v) (plist_body ws v)) kvs) @ text_tokens ws @
      Some (EndElement start) # us) = Some (Inr (out @ kvs), us)"
  using assms(2,3,4)
proof (induction kvs arbitrary: n out)
  case Nil
  then show ?case using assms(1) by (cases n) (simp_all add: then_do_def)
next
  case (Cons kv kvs)
  obtain k v where kv: "kv = (k, v)" by fastforce
  from Cons.prems obtain m where n: "n = Suc m" "length kvs < m" by (cases n) auto
  have v: "val ([], plist_tag v) (plist_body ws v @ Some (EndElement ([], plist_tag v)) # us) = Some (Inr v, us)" for us
    using Cons.prems(3) [of v] kv by simp
  have rest: "val ([], plist_tag x) (plist_body ws x @ Some (EndElement ([], plist_tag x)) # us) = Some (Inr x, us)"
    if "x \<in> snd ` set kvs" for x us using Cons.prems(3) [of x] that by simp
  have "parsePListDict m val err start (out @ [(k, v)])
      (concat (map (\<lambda>(k, v). text_tokens ws @ element ''key'' (text_tokens k) @ text_tokens ws @
        element (plist_tag v) (plist_body ws v)) kvs) @ text_tokens ws @
        Some (EndElement start) # us) = Some (Inr (out @ kv # kvs), us)"
    using Cons.IH [OF n(2) _ rest, of "out @ [(k, v)]"] Cons.prems(2) kv by simp
  moreover have "k \<notin> fst ` set out" using Cons.prems(2) kv by auto
  ultimately show ?case using assms(1) v n(1) kv
    by (simp add: then_do_def element_def getXMLStartElement_def parsePListString_def)
qed

lemma concat_length: "(\<And>x. x \<in> set xs \<Longrightarrow> f x \<noteq> []) \<Longrightarrow> length xs \<le> length (concat (map f xs))"
proof (induction xs)
  case (Cons x xs)
  then have "f x \<noteq> []" "length xs \<le> length (concat (map f xs))" by simp_all
  then show ?case by (cases "f x") auto
qed simp

lemma value_reads:
  assumes "trim_space ws = []" "plist_ok v" "plist_depth v < k"
  shows "parsePListValue k err ([], plist_tag v) (plist_body ws v @ Some (EndElement ([], plist_tag v)) # us) = Some (Inr v, us)"
  using assms(2,3)
proof (induction k arbitrary: v us)
  case (Suc k)
  show ?case
  proof (cases v)
    case (PInt i)
    then show ?thesis using Suc.prems chardata_show_int
      by (simp add: parsePListInt_def bindE_def then_do_def)
  next
    case (PString s)
    then show ?thesis by (simp add: parsePListString_def then_do_def)
  next
    case (PArray vs)
    have "parsePListValue k err ([], plist_tag x) (plist_body ws x @ Some (EndElement ([], plist_tag x)) # ts) = Some (Inr x, ts)"
      if "x \<in> set vs" for x ts
      using Suc.IH [of x] Suc.prems PArray that fold_max_le [of "plist_depth x" "map plist_depth vs" 0]
      by (auto simp: list_all_iff)
    moreover have "length vs \<le> length (plist_body ws v)"
      using concat_length [of vs "\<lambda>v. text_tokens ws @ element (plist_tag v) (plist_body ws v)"] PArray
      by (simp add: element_def)
    ultimately have "parsePListArray (Suc (length (plist_body ws v @ Some (EndElement ([], ''array'')) # us)))
        (parsePListValue k err) err ([], ''array'') [] (plist_body ws v @ Some (EndElement ([], ''array'')) # us) =
      Some (Inr ([] @ vs), us)"
      unfolding PArray plist_body.simps append_assoc by (intro array_reads assms(1)) simp_all
    then show ?thesis using PArray
      by (simp add: then_do_def del: parsePListArray.simps parsePListDict.simps plist_body.simps)
  next
    case (PDict kvs)
    have "parsePListValue k err ([], plist_tag x) (plist_body ws x @ Some (EndElement ([], plist_tag x)) # ts) = Some (Inr x, ts)"
      if "x \<in> snd ` set kvs" for x ts
    proof (rule Suc.IH)
      show "plist_ok x" using Suc.prems(1) PDict that by (auto simp: list_all_iff)
      have "plist_depth x \<in> set (map (\<lambda>(k, v). plist_depth v) kvs)" using that by force
      then have "plist_depth x \<le> fold max (map (\<lambda>(k, v). plist_depth v) kvs) 0" using fold_max_le by blast
      then show "plist_depth x < k" using Suc.prems(2) PDict by simp
    qed
    moreover have "length kvs \<le> length (plist_body ws v)"
      using concat_length [of kvs "\<lambda>(k, v). text_tokens ws @ element ''key'' (text_tokens k) @ text_tokens ws @
        element (plist_tag v) (plist_body ws v)"] PDict
      by (auto simp: element_def)
    ultimately have "parsePListDict (Suc (length (plist_body ws v @ Some (EndElement ([], ''dict'')) # us)))
        (parsePListValue k err) err ([], ''dict'') [] (plist_body ws v @ Some (EndElement ([], ''dict'')) # us) =
      Some (Inr ([] @ kvs), us)"
      using Suc.prems(1) unfolding PDict plist_body.simps append_assoc by (intro dict_reads assms(1)) simp_all
    then show ?thesis using PDict
      by (simp add: then_do_def del: parsePListArray.simps parsePListDict.simps plist_body.simps)
  qed
qed simp

lemma concat_part_length: "x \<in> set xs \<Longrightarrow> length (f x) \<le> length (concat (map f xs))"
  by (induction xs) auto

lemma fold_max_bounded: "fold max xs (a :: nat) \<le> n \<longleftrightarrow> a \<le> n \<and> (\<forall>x\<in>set xs. x \<le> n)"
  by (induction xs arbitrary: a) auto

lemma plist_depth_body: "plist_depth v \<le> Suc (length (plist_body ws v))"
proof (induction v)
  case (PArray vs)
  have "plist_depth x \<le> length (plist_body ws (PArray vs))" if "x \<in> set vs" for x
    using PArray [OF that] concat_part_length [OF that, of "\<lambda>v. text_tokens ws @ element (plist_tag v) (plist_body ws v)"]
    by (simp add: element_def)
  then show ?case by (simp add: fold_max_bounded)
next
  case (PDict kvs)
  have "plist_depth x \<le> length (plist_body ws (PDict kvs))" if "(k, x) \<in> set kvs" for k x
    using PDict [OF that] that concat_part_length [OF that, of "\<lambda>(k, v). text_tokens ws @ element ''key'' (text_tokens k) @
        text_tokens ws @ element (plist_tag v) (plist_body ws v)"]
    by (auto simp: element_def)
  then show ?case by (auto simp: fold_max_bounded)
qed simp_all

text \<open>Every property list that can be printed is read back, whatever white space is put between its
  elements.\<close>

lemma parseDiskXML_document:
  assumes "trim_space ws = []" "plist_ok (PDict kvs)"
  shows "parseDiskXML err (plist_document ws kvs) = Some (Inr kvs, text_tokens ws @ [Some (EndElement ([], ''plist''))])"
proof -
  let ?rest = "text_tokens ws @ [Some (EndElement ([], ''plist''))]"
  let ?ts = "plist_body ws (PDict kvs) @ Some (EndElement ([], ''dict'')) # ?rest"
  have "parsePListValue (Suc (Suc (length ?ts))) err ([], ''dict'') ?ts = Some (Inr (PDict kvs), ?rest)"
    using value_reads [OF assms, of "Suc (Suc (length ?ts))" err ?rest] plist_depth_body [of "PDict kvs" ws]
    by (simp del: parsePListValue.simps plist_body.simps)
  then have "then_do (parsePListDict (Suc (length ?ts)) (parsePListValue (Suc (length ?ts)) err) err ([], ''dict'') [] ?ts)
      (\<lambda>v ts'. Some (Inr (PDict v), ts')) = Some (Inr (PDict kvs), ?rest)"
    by (subst (asm) parsePListValue.simps(2)) (simp del: parsePListDict.simps parsePListValue.simps plist_body.simps)
  then have "parsePListDict (Suc (length ?ts)) (parsePListValue (Suc (length ?ts)) err) err ([], ''dict'') [] ?ts =
      Some (Inr kvs, ?rest)"
    by (auto simp: then_do_def simp del: parsePListDict.simps split: option.splits prod.splits sum.splits)
  then show ?thesis using assms(1)
    by (simp add: parseDiskXML_def plist_document_def element_def then_do_def isXMLProcInst_def isXMLDirective_def
        getXMLStartElement_def del: parsePListDict.simps parsePListValue.simps plist_body.simps)
qed

section \<open>What is read is well formed\<close>

lemma then_do_Inr:
  "then_do r k = Some (Inr y, s') \<longleftrightarrow> (\<exists>x s. r = Some (Inr x, s) \<and> k x s = Some (Inr y, s'))"
  by (auto simp: then_do_def split: option.splits sum.splits)

lemma stop_with_Inr [simp]: "stop_with e s \<noteq> Some (Inr y, s')"
  by (simp add: stop_with_def)

lemma array_ok:
  assumes "\<And>name us v us'. val name us = Some (Inr v, us') \<Longrightarrow> plist_ok v"
  shows "parsePListArray n val err start out ts = Some (Inr vs, ts') \<Longrightarrow> list_all plist_ok out \<Longrightarrow> list_all plist_ok vs"
proof (induction n arbitrary: out ts)
  case (Suc n)
  then show ?case using assms by (fastforce simp: then_do_Inr split: if_splits)
qed simp

lemma dict_turn:
  assumes "parsePListDict (Suc n) val err start out ts = Some (Inr kvs, ts')"
  shows "kvs = out \<or> (\<exists>key cur d us us'. val cur us = Some (Inr d, us') \<and> key \<notin> fst ` set out \<and>
    parsePListDict n val err start (out @ [(key, d)]) us' = Some (Inr kvs, ts'))"
  using assms unfolding parsePListDict.simps then_do_Inr
  by (elim exE conjE) (simp only: split: if_splits, auto simp only: then_do_Inr stop_with_Inr split: if_splits, blast+)

lemma dict_ok:
  assumes "\<And>name us v us'. val name us = Some (Inr v, us') \<Longrightarrow> plist_ok v"
  shows "parsePListDict n val err start out ts = Some (Inr kvs, ts') \<Longrightarrow> plist_ok (PDict out) \<Longrightarrow> plist_ok (PDict kvs)"
proof (induction n arbitrary: out ts)
  case (Suc n)
  from dict_turn [OF Suc.prems(1)] show ?case
  proof (elim disjE exE conjE)
    fix key cur d us us'
    assume turn: "val cur us = Some (Inr d, us')" "key \<notin> fst ` set out"
      "parsePListDict n val err start (out @ [(key, d)]) us' = Some (Inr kvs, ts')"
    then have "plist_ok (PDict (out @ [(key, d)]))" using Suc.prems(2) assms by auto
    with Suc.IH [OF turn(3)] show ?thesis .
  qed (use Suc.prems(2) in simp)
qed simp

lemma parse_int64_range: "parse_int64 s = Some v \<Longrightarrow> in_i64 v"
  by (auto simp: parse_int64_def Let_def split: list.splits option.splits if_splits)

lemma value_ok: "parsePListValue k err start ts = Some (Inr v, ts') \<Longrightarrow> plist_ok v"
proof (induction k arbitrary: start ts v ts')
  case (Suc k)
  have "in_i64 i" if "chardata_int s = Inr i" for s i
    using that parse_int64_range by (auto simp: chardata_int_def in_i64_def min_i64_def max_i64_def split: if_splits option.splits)
  moreover have "list_all plist_ok vs"
    if "parsePListArray (Suc (length ts)) (parsePListValue k err) err start [] ts = Some (Inr vs, us)" for vs us
    using array_ok [OF Suc.IH that] by simp
  moreover have "plist_ok (PDict kvs)"
    if "parsePListDict (Suc (length ts)) (parsePListValue k err) err start [] ts = Some (Inr kvs, us)" for kvs us
    using dict_ok [OF Suc.IH that] by simp
  ultimately show ?case using Suc.prems
    by (auto simp: then_do_Inr parsePListInt_def bindE_def simp del: parsePListArray.simps parsePListDict.simps plist_ok.simps(4)
        split: if_splits sum.splits prod.splits)
qed simp

lemma parseDiskXML_ok:
  assumes "parseDiskXML err ts = Some (Inr kvs, ts')"
  shows "plist_ok (PDict kvs)"
proof -
  have "\<exists>d us. parsePListDict (Suc (length us)) (parsePListValue (Suc (length us)) err) err d [] us = Some (Inr kvs, ts')"
    using assms unfolding parseDiskXML_def then_do_Inr
    by (auto simp only: then_do_Inr stop_with_Inr split: option.splits if_splits)
  then obtain d us where d: "parsePListDict (Suc (length us)) (parsePListValue (Suc (length us)) err) err d [] us = Some (Inr kvs, ts')"
    by blast
  show ?thesis by (rule dict_ok [OF _ d]) (rule value_ok, assumption, simp)
qed

end
