(* ===== verification/Hardware_Darwin.thy ===== *)
theory Hardware_Darwin
  imports Hardware_Facts Plist
begin

text \<open>
  The package \<open>collector/sysinfo/hardware\<close> on macOS: the processors and the memory from \<open>sysctl\<close>,
  graphics cards and screens from \<open>system_profiler\<close>, the disks from the property list that
  \<open>diskutil\<close> prints. Cutting XML into tokens is a field of the options.
\<close>

section \<open>Options\<close>

record darwin_options =
  dw_cpuCmd :: "string list"
  dw_gpuCmd :: "string list"
  dw_memCmd :: "string list"
  dw_diskCmd :: "string list"
  dw_screenCmd :: "string list"
  dw_arch :: string
  dw_xml :: "string \<Rightarrow> go_error \<times> xml_tokens"

definition darwin_defaultPlatformOptions :: "string \<Rightarrow> (string \<Rightarrow> go_error \<times> xml_tokens) \<Rightarrow> darwin_options" where
  "darwin_defaultPlatformOptions arch xml =
     \<lparr>dw_cpuCmd = [''sysctl'', ''-a'', ''hw.packages'', ''machdep.cpu''],
      dw_gpuCmd = [''system_profiler'', ''-json'', ''SPDisplaysDataType''],
      dw_memCmd = [''sysctl'', ''-a'', ''hw.memsize''],
      dw_diskCmd = [''diskutil'', ''list'', ''-plist''],
      dw_screenCmd = [''system_profiler'', ''-json'', ''SPDisplaysDataType''],
      dw_arch = arch, dw_xml = xml\<rparr>"

section \<open>Product, processors and memory\<close>

definition darwin_collectProduct :: "('z machine_scheme, product) io" where
  "darwin_collectProduct = ret \<lparr>pr_Family = ''Apple Motherboard'', pr_Name = [], pr_Vendor = ''Apple''\<rparr>"

definition darwin_usedCPUFields :: "string list" where
  "darwin_usedCPUFields = [''machdep.cpu.brand_string'', ''machdep.cpu.vendor'', ''hw.packages'',
     ''machdep.cpu.cores_per_package'', ''machdep.cpu.logical_per_package'']"

definition count_or :: "int \<Rightarrow> string \<Rightarrow> int" where
  "count_or d s = (case parse_count s of None \<Rightarrow> d | Some n \<Rightarrow> n)"

definition darwin_cpu_of :: "string \<Rightarrow> (string \<times> string) list \<Rightarrow> cpu" where
  "darwin_cpu_of arch c =
     (let sockets = count_or 1 (map_index c ''hw.packages'');
          cores = count_or 0 (map_index c ''machdep.cpu.cores_per_package'');
          threads = count_or 0 (map_index c ''machdep.cpu.logical_per_package'');
          threadsPerCore = (if cores \<noteq> 0 then threads div cores else 0) in
      \<lparr>cpu_Name = map_index c ''machdep.cpu.brand_string'', cpu_Vendor = map_index c ''machdep.cpu.vendor'', Arch = arch,
       Cpus = threads * sockets mod 2 ^ 64, Sockets = sockets, Cores = cores * sockets mod 2 ^ 64,
       Threads = threadsPerCore\<rparr>)"

definition darwin_collectCPU :: "darwin_options \<Rightarrow> ('z machine_scheme, cpu) io" where
  "darwin_collectCPU dw =
     bindE (RunListFmt (dw_cpuCmd dw) (Some darwin_usedCPUFields)) (\<lambda>cpus. ret (darwin_cpu_of (dw_arch dw) (cpus ! 0)))"

definition darwin_collectMemory :: "darwin_options \<Rightarrow> ('z machine_scheme, int) io" where
  "darwin_collectMemory dw =
     bindE (RunListFmt (dw_memCmd dw) None) (\<lambda>memorys.
       case parse_int64 (map_index (memorys ! 0) ''hw.memsize'') of
         None \<Rightarrow> throw (Errorf ''strconv.ParseInt'')
       | Some v \<Rightarrow>
           if v < 0 then throw (Errorf ''memory information contained negative memory'')
           else ret (fst (ConvertUnitToStandard ''b'' v)))"

section \<open>Graphics cards and screens\<close>

record darwin_display =
  dd_Name :: string
  dd_Online :: string
  dd_ResolutionRefresh :: string
  dd_PhysicalResolution :: string

record darwin_gpu =
  dg_Type :: string
  dg_Name :: string
  dg_Vendor :: string
  dg_Version :: string
  dg_Displays :: "darwin_display list"

definition dec_display :: "json \<Rightarrow> darwin_display option" where
  "dec_display v = dec_struct (\<lambda>kvs d.
     case (decode_field ''_name'' dec_string (dd_Name d) kvs,
           decode_field ''spdisplays_online'' dec_string (dd_Online d) kvs,
           decode_field ''_spdisplays_resolution'' dec_string (dd_ResolutionRefresh d) kvs,
           decode_field ''spdisplays_pixelresolution'' dec_string (dd_PhysicalResolution d) kvs) of
       (Some n, Some on, Some r, Some p) \<Rightarrow>
         Some \<lparr>dd_Name = n, dd_Online = on, dd_ResolutionRefresh = r, dd_PhysicalResolution = p\<rparr>
     | _ \<Rightarrow> None) v \<lparr>dd_Name = [], dd_Online = [], dd_ResolutionRefresh = [], dd_PhysicalResolution = []\<rparr>"

definition dec_darwin_gpu :: "json \<Rightarrow> darwin_gpu option" where
  "dec_darwin_gpu v = dec_struct (\<lambda>kvs g.
     case (decode_field ''sppci_device_type'' dec_string (dg_Type g) kvs,
           decode_field ''sppci_model'' dec_string (dg_Name g) kvs,
           decode_field ''spdisplays_vendor'' dec_string (dg_Vendor g) kvs,
           decode_field ''spdisplays_revision-id'' dec_string (dg_Version g) kvs,
           decode_field ''spdisplays_ndrvs'' (dec_slice dec_display) (dg_Displays g) kvs) of
       (Some t, Some n, Some ven, Some ver, Some ds) \<Rightarrow>
         Some \<lparr>dg_Type = t, dg_Name = n, dg_Vendor = ven, dg_Version = ver, dg_Displays = ds\<rparr>
     | _ \<Rightarrow> None) v \<lparr>dg_Type = [], dg_Name = [], dg_Vendor = [], dg_Version = [], dg_Displays = []\<rparr>"

definition dec_gpuAndScreens :: "json \<Rightarrow> darwin_gpu list option" where
  "dec_gpuAndScreens v =
     dec_struct (\<lambda>kvs gs. decode_field ''SPDisplaysDataType'' (dec_slice dec_darwin_gpu) gs kvs) v []"

text \<open>Running \<open>system_profiler\<close> and decoding what it prints.\<close>

definition run_profiler :: "string list \<Rightarrow> ('z machine_scheme, darwin_gpu list) io" where
  "run_profiler argv w =
     (case RunWithTimeout 15 argv w of (out, w') \<Rightarrow>
        (case cmd_err out of
           Some _ \<Rightarrow> (Inl (Errorf ''failed to run system_profiler''), w')
         | None \<Rightarrow>
            (case Option.bind (json_parse (stdout out)) dec_gpuAndScreens of
               None \<Rightarrow> (Inl (Errorf ''json''), w')
             | Some gs \<Rightarrow> (Inr gs, w'))))"

definition darwin_collectGPUs :: "darwin_options \<Rightarrow> ('z machine_scheme, gpu list) io" where
  "darwin_collectGPUs dw =
     bindE (run_profiler (dw_gpuCmd dw)) (\<lambda>gs.
       ret (map (\<lambda>g. \<lparr>dev_Name = dg_Name g, dev_Device = [], dev_Vendor = dg_Vendor g, dev_Driver = dg_Version g\<rparr>)
              (filter (\<lambda>g. dg_Type g = ''spdisplays_gpu'') gs)))"

definition darwin_collectAccelerators :: "('z machine_scheme, accelerator list) io" where
  "darwin_collectAccelerators = ret []"

definition screenResolutionRegex :: rx where
  "screenResolutionRegex = rx_seq
     [RBegin False, RGrp 1 (rx_plus (RChr is_digit)), RStar True (RChr rx_space), rx_lit ''x'', RStar True (RChr rx_space),
      RGrp 2 (rx_plus (RChr is_digit)), RStar True (RChr rx_space), rx_lit ''@'', RStar True (RChr rx_space),
      RGrp 3 (RSeq (rx_plus (RChr is_digit)) (rx_opt (RSeq (rx_lit ''.'') (rx_plus (RChr is_digit))))),
      RStar True (RChr rx_space), rx_lit ''Hz'', RStar True (RChr rx_space), REnd False]"

definition screenPhysicalRegex :: rx where
  "screenPhysicalRegex = rx_seq
     [RBegin False, RStar True (RChr rx_space), rx_lit ''spdisplays_'', RGrp 1 rx_digits_x_digits, RStar True (RChr rx_dot),
      REnd False]"

definition darwin_screen :: "darwin_display \<Rightarrow> screen" where
  "darwin_screen d =
     (let scr = \<lparr>PhysicalResolution = [], screen_Size = [], Resolution = [], RefreshRate = []\<rparr>;
          scr1 = (case find_submatch screenResolutionRegex (dd_ResolutionRefresh d) of
              None \<Rightarrow> scr
            | Some m \<Rightarrow> scr\<lparr>Resolution := m 1 @ ''x'' @ m 2, RefreshRate := m 3\<rparr>) in
      case find_submatch screenPhysicalRegex (dd_PhysicalResolution d) of
        None \<Rightarrow> scr1
      | Some m \<Rightarrow> scr1\<lparr>PhysicalResolution := m 1\<rparr>)"

definition darwin_collectScreens :: "darwin_options \<Rightarrow> ('z machine_scheme, screen list) io" where
  "darwin_collectScreens dw =
     bindE (run_profiler (dw_screenCmd dw)) (\<lambda>gs.
       ret (map darwin_screen (filter (\<lambda>d. dd_Online d = ''spdisplays_yes'') (concat (map dg_Displays gs)))))"

section \<open>Disks\<close>

definition plist_size :: "(string \<times> plist) list \<Rightarrow> int" where
  "plist_size data =
     (case map_of data ''Size'' of
        Some (PInt sz) \<Rightarrow>
          if sz < 0 then 0
          else (case ConvertUnitToStandard ''b'' sz of (v, None) \<Rightarrow> v | (_, Some _) \<Rightarrow> 0)
      | _ \<Rightarrow> 0)"

text \<open>A partition has no partitions of its own: the recursion is one level deep.\<close>

function parseDiskDict :: "(string \<times> plist) list \<Rightarrow> bool \<Rightarrow> go_error + disk" where
  "parseDiskDict data isPart =
     (if map_of data ''APFSPhysicalStores'' \<noteq> None then Inl (Errorf ''disk is a virtual APFS disk'')
      else if isPart then Inr (Disk (plist_size data) ''part'' [])
      else Inr (Disk (plist_size data) ''disk''
        (case map_of data ''Partitions'' of
           Some (PArray parts) \<Rightarrow>
             List.map_filter (\<lambda>partI.
               case partI of
                 PDict part \<Rightarrow> (case parseDiskDict part True of Inl _ \<Rightarrow> None | Inr d \<Rightarrow> Some d)
               | _ \<Rightarrow> None) parts
         | _ \<Rightarrow> [])))"
  by pat_completeness auto
termination by (relation "measure (\<lambda>(_, p). if p then 0 else 1)") auto

declare parseDiskDict.simps [simp del]

definition disks_of :: "plist list \<Rightarrow> disk list" where
  "disks_of disksAndParts =
     List.map_filter (\<lambda>diskI.
       case diskI of
         PDict data \<Rightarrow> (case parseDiskDict data False of Inl _ \<Rightarrow> None | Inr d \<Rightarrow> Some d)
       | _ \<Rightarrow> None) disksAndParts"

text \<open>The deferred function replaces every error, since none comes with disks. Fuel never runs out.\<close>

definition darwin_collectDisks :: "darwin_options \<Rightarrow> ('z machine_scheme, disk list) io" where
  "darwin_collectDisks dw w =
     (let fail = Inl (Errorf ''no disk information found'') in
      case RunWithTimeout 15 (dw_diskCmd dw) w of (out, w') \<Rightarrow>
        (case cmd_err out of
           Some _ \<Rightarrow> (fail, w')
         | None \<Rightarrow>
            (case dw_xml dw (stdout out) of (err, ts) \<Rightarrow>
               case parseDiskXML err ts of
                 Some (Inr jsonified, _) \<Rightarrow>
                   (case map_of jsonified ''AllDisksAndPartitions'' of
                      Some (PArray disksAndParts) \<Rightarrow> (Inr (disks_of disksAndParts), w')
                    | _ \<Rightarrow> (fail, w'))
               | _ \<Rightarrow> (fail, w'))))"

section \<open>Facts\<close>

lemma go_div_nonneg: "0 \<le> a \<Longrightarrow> 0 < b \<Longrightarrow> go_div a b = a div b"
  by (cases "a = 0") (simp_all add: go_div_def)

lemma ConvertUnit_bytes: "0 \<le> v \<Longrightarrow> ConvertUnitToStandard ''b'' v = (v div 2 ^ 20, None)"
proof -
  assume v: "0 \<le> v"
  moreover have "to_lower ''b'' = ''b''" by code_simp
  ultimately show ?thesis
    using zdiv_zmult2_eq [of 1024 v 1024]
    by (simp add: ConvertUnitToStandard_def ConvertUnitToBytes_def go_div_nonneg pos_imp_zdiv_nonneg_iff Let_def)
qed

lemma mebi_range: "in_u64 v \<Longrightarrow> in_u64 (v div 2 ^ 20)"
  using zdiv_mono2 [of v 1 "2 ^ 20"] by (auto simp: in_u64_def pos_imp_zdiv_nonneg_iff)

lemma RunListFmt_nonempty: "RunListFmt args keep w = (Inr res, w') \<Longrightarrow> res \<noteq> []"
  by (auto simp: RunListFmt_def Let_def split: if_splits prod.splits option.splits)

lemma count_or_range: "in_u64 d \<Longrightarrow> in_u64 (count_or d s)"
  using parse_count_range by (auto simp: count_or_def split: option.splits)

lemma div_range: "in_u64 a \<Longrightarrow> in_u64 b \<Longrightarrow> b \<noteq> 0 \<Longrightarrow> in_u64 (a div b)"
  using zdiv_mono2 [of a 1 b] by (auto simp: in_u64_def pos_imp_zdiv_nonneg_iff)

lemma darwin_cpu_ok: "cpu_ok (darwin_cpu_of arch c)"
proof -
  have r: "in_u64 (count_or 1 s)" "in_u64 (count_or 0 s)" for s
    by (rule count_or_range, simp add: in_u64_def)+
  have "in_u64 (x mod 2 ^ 64)" "in_u64 0" for x by (simp_all add: in_u64_def)
  then show ?thesis using r div_range [OF r(2) r(2)] by (simp add: cpu_ok_def darwin_cpu_of_def Let_def)
qed

lemma plist_size_range:
  assumes "plist_ok (PDict data)"
  shows "in_u64 (plist_size data)"
proof (cases "map_of data ''Size''")
  case (Some v)
  then have "plist_ok v" using assms map_of_SomeD [OF Some] by (auto simp: list_all_iff)
  then have "in_u64 (s div 2 ^ 20)" if "v = PInt s" "0 \<le> s" for s
    using that by (intro mebi_range) (auto simp: in_u64_def in_i64_def max_i64_def)
  then show ?thesis using Some by (auto simp: plist_size_def ConvertUnit_bytes in_u64_def split: plist.splits)
qed (simp add: plist_size_def in_u64_def)

lemma map_filter_all: "(\<And>x y. x \<in> set xs \<Longrightarrow> f x = Some y \<Longrightarrow> P y) \<Longrightarrow> list_all P (List.map_filter f xs)"
  by (auto simp: list_all_iff map_filter_def)

lemma parseDiskDict_ok:
  assumes "plist_ok (PDict data)" "parseDiskDict data isPart = Inr d"
  shows "disk_sized (if isPart then 0 else 1) d"
proof (cases isPart)
  case True
  then show ?thesis using assms plist_size_range by (auto simp: parseDiskDict.simps [of data] split: if_splits)
next
  case False
  let ?f = "\<lambda>partI. case partI of
      PDict part \<Rightarrow> (case parseDiskDict part True of Inl _ \<Rightarrow> None | Inr d \<Rightarrow> Some d) | _ \<Rightarrow> None"
  have part: "disk_sized 0 y" if "plist_ok x" "?f x = Some y" for x y
    using that plist_size_range
    by (auto simp: parseDiskDict.simps [of _ True] split: plist.splits sum.splits if_splits)
  have "list_all (disk_sized 0) (List.map_filter ?f parts)" if "map_of data ''Partitions'' = Some (PArray parts)" for parts
  proof (rule map_filter_all)
    have "plist_ok (PArray parts)" using assms(1) map_of_SomeD [OF that] by (auto simp: list_all_iff)
    then show "disk_sized 0 y" if "x \<in> set parts" "?f x = Some y" for x y
      using part that by (auto simp: list_all_iff)
  qed
  then show ?thesis using assms False plist_size_range
    by (auto simp: parseDiskDict.simps [of data] split: if_splits option.splits plist.splits)
qed

lemma disks_of_ok: "plist_ok (PArray ds) \<Longrightarrow> list_all (disk_sized 1) (disks_of ds)"
  unfolding disks_of_def
  by (rule map_filter_all) (auto simp: list_all_iff dest!: parseDiskDict_ok split: plist.splits sum.splits)

lemma darwin_collectDisks_ok:
  assumes "darwin_collectDisks dw w = (Inr ds, w')"
  shows "list_all (disk_sized 1) ds"
proof -
  obtain err ts kvs us xs where p: "parseDiskXML err ts = Some (Inr kvs, us)"
    "map_of kvs ''AllDisksAndPartitions'' = Some (PArray xs)" "ds = disks_of xs"
    using assms by (auto simp: darwin_collectDisks_def Let_def split: prod.splits option.splits sum.splits plist.splits)
  have "plist_ok (PArray xs)"
    using parseDiskXML_ok [OF p(1)] map_of_SomeD [OF p(2)] by (auto simp: list_all_iff)
  then show ?thesis using disks_of_ok p(3) by simp
qed

section \<open>Properties\<close>

text \<open>The disks of a machine as \<open>diskutil\<close> describes them: virtual ones, which stand for containers of
  other disks, and physical ones with their partitions; sizes in bytes, \<open>names\<close> the other entries
  of a dictionary.\<close>

datatype apple_disk = Virtual_disk int | Physical_disk int "int list"

definition partition_plist :: "int \<Rightarrow> plist" where
  "partition_plist b = PDict [(''Content'', PString ''EFI''), (''Size'', PInt b)]"

fun disk_plist :: "apple_disk \<Rightarrow> plist" where
  "disk_plist (Virtual_disk b) = PDict [(''APFSPhysicalStores'', PArray []), (''Size'', PInt b)]"
| "disk_plist (Physical_disk b ps) =
     PDict [(''Content'', PString ''GUID''), (''Partitions'', PArray (map partition_plist ps)), (''Size'', PInt b)]"

fun apple_disk_bytes :: "apple_disk \<Rightarrow> int list" where
  "apple_disk_bytes (Virtual_disk b) = [b]"
| "apple_disk_bytes (Physical_disk b ps) = b # ps"

definition reported :: "apple_disk \<Rightarrow> disk option" where
  "reported d =
     (case d of
        Virtual_disk _ \<Rightarrow> None
      | Physical_disk b ps \<Rightarrow> Some (Disk (b div 2 ^ 20) ''disk'' (map (\<lambda>p. Disk (p div 2 ^ 20) ''part'' []) ps)))"

lemma partition_read: "0 \<le> b \<Longrightarrow> parseDiskDict [(''Content'', PString ''EFI''), (''Size'', PInt b)] True = Inr (Disk (b div 2 ^ 20) ''part'' [])"
  by (simp add: parseDiskDict.simps plist_size_def ConvertUnit_bytes)

lemma disks_of_plist:
  assumes "list_all (\<lambda>d. list_all (\<lambda>b. 0 \<le> b) (apple_disk_bytes d)) ds"
  shows "disks_of (map disk_plist ds) = List.map_filter reported ds"
proof -
  have parts: "List.map_filter (\<lambda>partI. case partI of
        PDict part \<Rightarrow> (case parseDiskDict part True of Inl _ \<Rightarrow> None | Inr d \<Rightarrow> Some d) | _ \<Rightarrow> None)
      (map partition_plist ps) = map (\<lambda>p. Disk (p div 2 ^ 20) ''part'' []) ps" if "list_all (\<lambda>b. 0 \<le> b) ps" for ps
    using that by (induction ps) (simp_all add: map_filter_simps partition_plist_def partition_read)
  have "(case disk_plist d of
        PDict data \<Rightarrow> (case parseDiskDict data False of Inl _ \<Rightarrow> None | Inr d \<Rightarrow> Some d) | _ \<Rightarrow> None) = reported d"
    if "list_all (\<lambda>b. 0 \<le> b) (apple_disk_bytes d)" for d
    using that parts by (cases d) (simp_all add: parseDiskDict.simps [of _ False] reported_def plist_size_def ConvertUnit_bytes)
  then show ?thesis using assms unfolding disks_of_def
    by (induction ds) (simp_all add: map_filter_simps split: option.split)
qed

lemma disk_plist_ok: "list_all in_i64 (apple_disk_bytes d) \<Longrightarrow> plist_ok (disk_plist d)"
  by (cases d) (auto simp: partition_plist_def list_all_iff)


definition example_disks :: "apple_disk list" where
  "example_disks = [Physical_disk 500277790720 [314572800, 499963174912], Virtual_disk 499963174912]"

definition example_diskutil :: "(string \<times> plist) list" where
  "example_diskutil =
     [(''AllDisks'', PArray [PString ''disk0'', PString ''disk1'']),
      (''AllDisksAndPartitions'', PArray (map disk_plist example_disks))]"

definition example_darwin :: darwin_options where
  "example_darwin =
     darwin_defaultPlatformOptions ''arm64'' (\<lambda>_. (Errorf ''EOF'', plist_document '' '' example_diskutil))"

definition example_mac :: machine where
  "example_mac =
     \<lparr>fs = [], faults = [], seed = 0, m_exec = (\<lambda>_ _ _ _. \<lparr>stdout = [], stderr = [], cmd_err = None\<rparr>), m_environ = [],
      m_runs = 0, m_eval_symlinks = Inr, m_readlink = Inr\<rparr>"


text \<open>The number of cores is that of all sockets together, while it is encoded as \<open>coresPerSocket\<close>.\<close>

lemma darwin_cores_of_all_sockets:
  "Cores (darwin_cpu_of ''x86_64'' [(''hw.packages'', ''2''), (''machdep.cpu.cores_per_package'', ''4'')]) = 8"
  by code_simp

end
