(* ===== verification/Hardware_Windows.thy ===== *)
theory Hardware_Windows
  imports Report_Decode Hardware_Darwin
begin

text \<open>
  The package \<open>collector/sysinfo/hardware\<close> on Windows: everything is asked of PowerShell, which prints
  lists of entries (\<open>Format-List\<close>) or JSON. Disks and partitions come from two commands and are put
  together by the index of the disk.
\<close>

section \<open>Options\<close>

record windows_options =
  ww_productCmd :: "string list"
  ww_cpuCmd :: "string list"
  ww_gpuCmd :: "string list"
  ww_accelCmd :: "string list"
  ww_memoryCmd :: "string list"
  ww_diskCmd :: "string list"
  ww_partitionCmd :: "string list"
  ww_screenResCmd :: "string list"
  ww_screenPhysResCmd :: "string list"
  ww_displaySizeCmd :: "string list"
  ww_arch :: string

definition powershell :: "string list \<Rightarrow> string list" where
  "powershell args = [''powershell.exe'', ''-Command''] @ args"

definition windows_defaultPlatformOptions :: "string \<Rightarrow> windows_options" where
  "windows_defaultPlatformOptions arch =
     \<lparr>ww_productCmd = powershell [''Get-CIMInstance'', ''Win32_ComputerSystem'', ''|'', ''Format-List'', ''-Property'', ''*''],
      ww_cpuCmd = powershell [''Get-CIMInstance'', ''Win32_Processor'', ''|'', ''Format-List'', ''-Property'', ''*''],
      ww_gpuCmd = powershell [''Get-CIMInstance'', ''Win32_VideoController'', ''|'', ''Format-List'', ''-Property'', ''*''],
      ww_accelCmd = powershell [''Get-CimInstance'', ''Win32_PnPEntity'', ''|'', ''Where-Object'',
        ''{ $_.PNPClass -in '' @ [CHR 0x27] @ ''ComputeAccelerator'' @ [CHR 0x27] @ '', '' @ [CHR 0x27] @ ''NeuralProcessor'' @
          [CHR 0x27] @ '' }'', ''|'', ''Select-Object'', ''Name, Manufacturer, PNPClass, HardwareID'', ''|'', ''Format-List''],
      ww_memoryCmd = powershell [''Get-CIMInstance'', ''Win32_ComputerSystem'', ''|'', ''Format-List'', ''-Property'',
        ''TotalPhysicalMemory''],
      ww_diskCmd = powershell [''Get-WmiObject'', ''Win32_DiskDrive'', ''|'', ''Select-Object'',
        ''Model, MediaType, Index, Size, Partitions'', ''|'', ''ConvertTo-Json'', ''-Depth'', ''3''],
      ww_partitionCmd = powershell [''Get-WmiObject'', ''Win32_DiskPartition'', ''|'', ''Select-Object'',
        ''DiskIndex, Size, Type'', ''|'', ''ConvertTo-Json'', ''-Depth'', ''3''],
      ww_screenResCmd = powershell [''Add-Type'', ''-AssemblyName'', ''System.Windows.Forms'', '';'',
        ''[System.Windows.Forms.Screen]::AllScreens'', ''|'', ''Select-Object'', ''Bounds'', ''|'',
        ''ConvertTo-Json'', ''-Depth'', ''3''],
      ww_screenPhysResCmd = powershell [''Get-CIMInstance'', ''Win32_DesktopMonitor'', ''|'', ''Select-Object'',
        ''ScreenWidth, ScreenHeight'', ''|'', ''ConvertTo-Json'', ''-Depth'', ''3''],
      ww_displaySizeCmd = powershell [''Get-CIMInstance'', ''-Namespace'', ''root'' @ [CHR 0x5C] @ ''wmi'',
        ''WmiMonitorBasicDisplayParams'', ''|'', ''Select-Object'', ''MaxHorizontalImageSize, MaxVerticalImageSize'', ''|'',
        ''ConvertTo-Json'', ''-Depth'', ''3''],
      ww_arch = arch\<rparr>"

section \<open>Lists of entries\<close>

definition windows_collectProduct :: "windows_options \<Rightarrow> ('z machine_scheme, product) io" where
  "windows_collectProduct ww =
     bindE (RunListFmt (ww_productCmd ww) (Some [''Model'', ''Manufacturer'', ''SystemSKUNumber''])) (\<lambda>products.
       let p = map_index (products ! 0) in
       ret \<lparr>pr_Family = p ''SystemSKUNumber'', pr_Name = p ''Model'', pr_Vendor = p ''Manufacturer''\<rparr>)"

definition windows_cpu_of :: "string \<Rightarrow> (string \<times> string) list list \<Rightarrow> cpu" where
  "windows_cpu_of arch cpus =
     (let c = map_index (cpus ! 0);
          total = count_or 0 (c ''NumberOfLogicalProcessors'');
          cores0 = count_or 1 (c ''NumberOfCores'');
          cores = (if cores0 = 0 then 1 else cores0) in
      \<lparr>cpu_Name = c ''Name'', cpu_Vendor = c ''Manufacturer'', Arch = arch, Cpus = total, Sockets = int (length cpus),
       Cores = cores, Threads = total div int (length cpus) div cores\<rparr>)"

definition windows_collectCPU :: "windows_options \<Rightarrow> ('z machine_scheme, cpu) io" where
  "windows_collectCPU ww =
     bindE (RunListFmt (ww_cpuCmd ww) (Some [''NumberOfLogicalProcessors'', ''NumberOfCores'', ''Manufacturer'', ''Name'']))
       (\<lambda>cpus. ret (windows_cpu_of (ww_arch ww) cpus))"

text \<open>The driver is the file of the first of the paths, which are separated by commas.\<close>

definition windows_gpu :: "(string \<times> string) list \<Rightarrow> gpu" where
  "windows_gpu g =
     \<lparr>dev_Name = map_index g ''Name'', dev_Device = [], dev_Vendor = map_index g ''AdapterCompatibility'',
      dev_Driver = last (split_on (CHR 0x5C) (fst (cut_at (CHR '','') (map_index g ''InstalledDisplayDrivers''))))\<rparr>"

definition windows_collectGPUs :: "windows_options \<Rightarrow> ('z machine_scheme, gpu list) io" where
  "windows_collectGPUs ww =
     bindE (RunListFmt (ww_gpuCmd ww) (Some [''Name'', ''InstalledDisplayDrivers'', ''AdapterCompatibility'']))
       (\<lambda>gpus. ret (map windows_gpu gpus))"

definition windows_collectAccelerators :: "windows_options \<Rightarrow> ('z machine_scheme, accelerator list) io" where
  "windows_collectAccelerators ww =
     attempt (RunListFmt (ww_accelCmd ww) (Some [''Name'', ''Manufacturer'', ''PNPClass'', ''HardwareID''])) (\<lambda>res.
       case res of
         Inl _ \<Rightarrow> ret []
       | Inr accelData \<Rightarrow>
           ret (map (\<lambda>a. \<lparr>dev_Name = map_index a ''Name'', dev_Device = map_index a ''HardwareID'',
                  dev_Vendor = map_index a ''Manufacturer'', dev_Driver = [], acc_Type = map_index a ''PNPClass''\<rparr>)
                accelData))"

text \<open>The sizes are added as 64-bit numbers; one that is no number, or negative, is skipped.\<close>

fun add_memory :: "string list \<Rightarrow> int \<Rightarrow> int" where
  "add_memory [] acc = acc"
| "add_memory (sm # sms) acc =
     (case parse_int64 sm of
        None \<Rightarrow> add_memory sms acc
      | Some v \<Rightarrow> if v < 0 then add_memory sms acc else add_memory sms (wrap_i64 (acc + v)))"

definition windows_collectMemory :: "windows_options \<Rightarrow> ('z machine_scheme, int) io" where
  "windows_collectMemory ww =
     bindE (RunListFmt (ww_memoryCmd ww) (Some [''TotalPhysicalMemory''])) (\<lambda>oses.
       ret (fst (ConvertUnitToStandard ''b'' (add_memory (map (\<lambda>os. map_index os ''TotalPhysicalMemory'') oses) 0))))"

section \<open>JSON\<close>

text \<open>A list of objects or a single one; those that are the zero value are dropped.\<close>

definition runJSONCommand :: "(json \<Rightarrow> 'a option) \<Rightarrow> 'a \<Rightarrow> string list \<Rightarrow> ('z machine_scheme, 'a list) io" where
  "runJSONCommand dec zv argv w =
     (case RunWithTimeout 15 argv w of (out, w') \<Rightarrow>
        (case cmd_err out of
           Some e \<Rightarrow> (Inl e, w')
         | None \<Rightarrow>
            (case UnmarshalJSON dec (stdout out) of
               Inl e \<Rightarrow> (Inl e, w')
             | Inr r \<Rightarrow> (Inr (filter (\<lambda>res. res \<noteq> zv) r), w'))))"

definition dec_u64 :: "json \<Rightarrow> int \<Rightarrow> int option" where
  "dec_u64 = dec_uint u64_bound"

section \<open>Disks\<close>

record diskOut =
  do_Model :: string
  do_MediaType :: string
  do_Index :: int
  do_Size :: int
  do_Partitions :: int

record partOut =
  po_DiskIndex :: int
  po_Size :: int
  po_Type :: string

definition no_diskOut :: diskOut where
  "no_diskOut = \<lparr>do_Model = [], do_MediaType = [], do_Index = 0, do_Size = 0, do_Partitions = 0\<rparr>"

definition no_partOut :: partOut where
  "no_partOut = \<lparr>po_DiskIndex = 0, po_Size = 0, po_Type = []\<rparr>"

definition dec_diskOut :: "json \<Rightarrow> diskOut option" where
  "dec_diskOut v = dec_struct (\<lambda>kvs d.
     case (decode_field ''Model'' dec_string (do_Model d) kvs, decode_field ''MediaType'' dec_string (do_MediaType d) kvs,
           decode_field ''Index'' dec_u64 (do_Index d) kvs, decode_field ''Size'' dec_u64 (do_Size d) kvs,
           decode_field ''Partitions'' dec_u64 (do_Partitions d) kvs) of
       (Some m, Some t, Some i, Some s, Some p) \<Rightarrow>
         Some \<lparr>do_Model = m, do_MediaType = t, do_Index = i, do_Size = s, do_Partitions = p\<rparr>
     | _ \<Rightarrow> None) v no_diskOut"

definition dec_partOut :: "json \<Rightarrow> partOut option" where
  "dec_partOut v = dec_struct (\<lambda>kvs p.
     case (decode_field ''DiskIndex'' dec_u64 (po_DiskIndex p) kvs, decode_field ''Size'' dec_u64 (po_Size p) kvs,
           decode_field ''Type'' dec_string (po_Type p) kvs) of
       (Some i, Some s, Some t) \<Rightarrow> Some \<lparr>po_DiskIndex = i, po_Size = s, po_Type = t\<rparr>
     | _ \<Rightarrow> None) v no_partOut"

text \<open>The loop over the disks: the indices seen, the places of the disks that are kept, the disks.\<close>

type_synonym disk_state = "int list \<times> (int \<times> nat) list \<times> disk list"

definition disk_turn :: "diskOut \<Rightarrow> disk_state \<Rightarrow> disk_state" where
  "disk_turn d st = (case st of (seen, places, blks) \<Rightarrow>
     if do_Index d \<in> set seen then st
     else let seen' = do_Index d # seen in
       if do_MediaType d \<noteq> ''Fixed hard disk media'' then (seen', places, blks)
       else if do_Model d = ''Microsoft Virtual Disk'' then (seen', places, blks)
       else if do_Partitions d > 128 then (seen', places, blks)
       else (case ConvertUnitToStandard ''b'' (do_Size d) of
               (_, Some _) \<Rightarrow> (seen', places, blks)
             | (sz, None) \<Rightarrow> (seen', (do_Index d, length blks) # places, blks @ [Disk sz ''disk'' []])))"

definition add_child :: "disk \<Rightarrow> disk \<Rightarrow> disk" where
  "add_child c d = Disk (disk_size d) (disk_type d) (disk_children d @ [c])"

definition part_turn :: "int list \<Rightarrow> (int \<times> nat) list \<Rightarrow> partOut \<Rightarrow> disk list \<Rightarrow> disk list" where
  "part_turn seen places p blks =
     (if po_DiskIndex p \<notin> set seen then blks
      else case map_of places (po_DiskIndex p) of
        None \<Rightarrow> blks
      | Some i \<Rightarrow>
         (case ConvertUnitToStandard ''b'' (po_Size p) of
            (_, Some _) \<Rightarrow> blks
          | (sz, None) \<Rightarrow> blks[i := add_child (Disk sz (po_Type p) []) (blks ! i)]))"

definition build_disks :: "diskOut list \<Rightarrow> partOut list \<Rightarrow> disk list" where
  "build_disks disksOut partsOut =
     (case fold disk_turn disksOut ([], [], []) of (seen, places, blks) \<Rightarrow>
        fold (part_turn seen places) partsOut blks)"

definition windows_collectDisks :: "windows_options \<Rightarrow> ('z machine_scheme, disk list) io" where
  "windows_collectDisks ww =
     bindE (runJSONCommand dec_diskOut no_diskOut (ww_diskCmd ww)) (\<lambda>disksOut.
       bindE (runJSONCommand dec_partOut no_partOut (ww_partitionCmd ww)) (\<lambda>partsOut.
         ret (build_disks disksOut partsOut)))"

section \<open>Screens\<close>

type_synonym size_pair = "int \<times> int"

definition dec_pair :: "string \<Rightarrow> string \<Rightarrow> json \<Rightarrow> size_pair \<Rightarrow> size_pair option" where
  "dec_pair x y v cur = dec_struct (\<lambda>kvs p.
     case (decode_field x dec_u64 (fst p) kvs, decode_field y dec_u64 (snd p) kvs) of
       (Some a, Some b) \<Rightarrow> Some (a, b)
     | _ \<Rightarrow> None) v cur"

definition dec_screenRes :: "json \<Rightarrow> size_pair option" where
  "dec_screenRes v = dec_struct (\<lambda>kvs p. decode_field ''Bounds'' (dec_pair ''Width'' ''Height'') p kvs) v (0, 0)"

definition no_screen :: screen where
  "no_screen = \<lparr>PhysicalResolution = [], screen_Size = [], Resolution = [], RefreshRate = []\<rparr>"

definition times_text :: "size_pair \<Rightarrow> string" where
  "times_text p = show_int (fst p) @ ''x'' @ show_int (snd p)"

definition size_text :: "size_pair \<Rightarrow> string" where
  "size_text p = show_int (fst p) @ ''0mm x '' @ show_int (snd p) @ ''0mm''"

text \<open>Sizes that do not fit the screens are ignored, unless no screen is known yet.\<close>

definition with_sizes :: "size_pair list \<Rightarrow> screen list \<Rightarrow> screen list" where
  "with_sizes displaySizes screens =
     (let (ds, scs) =
        (if length displaySizes \<noteq> length screens \<and> displaySizes \<noteq> [] then
           (if screens \<noteq> [] then ([], screens) else (displaySizes, replicate (length displaySizes) no_screen))
         else (displaySizes, screens)) in
      map2 (\<lambda>d sc. sc\<lparr>screen_Size := size_text d\<rparr>) ds (take (length ds) scs) @ drop (length ds) scs)"

definition with_physical :: "size_pair list \<Rightarrow> screen list \<Rightarrow> screen list" where
  "with_physical phys screens =
     (if length phys \<noteq> length screens \<and> phys \<noteq> [] \<and> screens \<noteq> [] then screens
      else let scs = (if length phys \<noteq> length screens \<and> phys \<noteq> [] then replicate (length phys) no_screen else screens) in
        map2 (\<lambda>m sc. sc\<lparr>PhysicalResolution := times_text m\<rparr>) phys (take (length phys) scs) @ drop (length phys) scs)"

definition windows_screens :: "size_pair list \<Rightarrow> size_pair list \<Rightarrow> size_pair list \<Rightarrow> screen list" where
  "windows_screens screenRes displaySizes screenPhysRes =
     with_physical screenPhysRes (with_sizes displaySizes (map (\<lambda>sc. no_screen\<lparr>Resolution := times_text sc\<rparr>) screenRes))"

definition windows_collectScreens :: "windows_options \<Rightarrow> ('z machine_scheme, screen list) io" where
  "windows_collectScreens ww =
     bindP (or_else [] (runJSONCommand dec_screenRes (0, 0) (ww_screenResCmd ww))) (\<lambda>screenRes.
     bindP (or_else [] (runJSONCommand (\<lambda>v. dec_pair ''MaxHorizontalImageSize'' ''MaxVerticalImageSize'' v (0, 0)) (0, 0)
       (ww_displaySizeCmd ww))) (\<lambda>displaySizes.
     bindP (or_else [] (runJSONCommand (\<lambda>v. dec_pair ''ScreenWidth'' ''ScreenHeight'' v (0, 0)) (0, 0)
       (ww_screenPhysResCmd ww))) (\<lambda>screenPhysRes.
       let screens = windows_screens screenRes displaySizes screenPhysRes in
       if screens = [] then throw (Errorf ''no screens found'') else ret screens)))"

section \<open>Sizes are unsigned\<close>

lemma decode_field_keeps:
  assumes "\<And>v x y. dec v x = Some y \<Longrightarrow> P x \<Longrightarrow> P y"
  shows "decode_field name dec cur kvs = Some x \<Longrightarrow> P cur \<Longrightarrow> P x"
proof (induction kvs arbitrary: cur)
  case (Cons kv kvs)
  obtain k v where "kv = (k, v)" by fastforce
  then show ?case using Cons assms by (auto split: if_splits option.splits)
qed simp

lemma dec_u64_range: "dec_u64 v x = Some y \<Longrightarrow> in_u64 x \<Longrightarrow> in_u64 y"
  by (auto simp: dec_u64_def dec_uint_def u64_bound_def in_u64_def split: json.splits option.splits if_splits)

lemma decode_u64: "decode_field name dec_u64 0 kvs = Some x \<Longrightarrow> in_u64 x"
  by (rule decode_field_keeps [where P = in_u64, OF dec_u64_range]) (assumption+, simp add: in_u64_def)

lemma dec_disk_range: "dec_diskOut v = Some d \<Longrightarrow> in_u64 (do_Size d)" "dec_partOut v = Some p \<Longrightarrow> in_u64 (po_Size p)"
  by (auto simp: dec_diskOut_def dec_partOut_def dec_struct_def no_diskOut_def no_partOut_def
      split: json.splits option.splits intro: decode_u64) (simp_all add: in_u64_def)

lemma UnmarshalJSON_all:
  assumes "\<And>v x. dec v = Some x \<Longrightarrow> P x" "UnmarshalJSON dec data = Inr xs"
  shows "list_all P xs"
proof -
  have "list_all P ys" if "those (map dec vs) = Some ys" for vs ys
    using that assms(1) by (induction vs arbitrary: ys) (auto split: option.splits)
  then have "list_all P ys" if "dec_slice dec v [] = Some ys" for v ys
    using that by (auto simp: dec_slice_def split: json.splits)
  then show ?thesis using assms by (auto simp: UnmarshalJSON_def bind_eq_Some_conv split: option.splits)
qed

lemma runJSONCommand_all:
  assumes "\<And>v x. dec v = Some x \<Longrightarrow> P x" "runJSONCommand dec zv argv w = (Inr xs, w')"
  shows "list_all P xs"
  using UnmarshalJSON_all [OF assms(1)] assms(2)
  by (fastforce simp: runJSONCommand_def list_all_iff split: prod.splits option.splits sum.splits)

section \<open>Disks and their partitions\<close>

text \<open>What the disks should be: of the disks with the same index the first; those that are fixed, real
  and not too finely divided; each with the partitions of its index, in the order they come.\<close>

fun first_of_index :: "int list \<Rightarrow> diskOut list \<Rightarrow> diskOut list" where
  "first_of_index seen [] = []"
| "first_of_index seen (d # ds) =
     (if do_Index d \<in> set seen then first_of_index seen ds else d # first_of_index (do_Index d # seen) ds)"

definition real_disk :: "diskOut \<Rightarrow> bool" where
  "real_disk d \<longleftrightarrow> do_MediaType d = ''Fixed hard disk media'' \<and> do_Model d \<noteq> ''Microsoft Virtual Disk'' \<and> do_Partitions d \<le> 128"

definition disk_with :: "partOut list \<Rightarrow> diskOut \<Rightarrow> disk" where
  "disk_with ps d = Disk (do_Size d div 2 ^ 20) ''disk''
     (map (\<lambda>p. Disk (po_Size p div 2 ^ 20) (po_Type p) []) (filter (\<lambda>p. po_DiskIndex p = do_Index d) ps))"

definition disks_reference :: "diskOut list \<Rightarrow> partOut list \<Rightarrow> disk list" where
  "disks_reference ds ps = map (disk_with ps) (filter real_disk (first_of_index [] ds))"

lemma first_of_index_distinct: "distinct (map do_Index (first_of_index seen ds)) \<and> do_Index ` set (first_of_index seen ds) \<inter> set seen = {}"
  by (induction seen ds rule: first_of_index.induct) auto

text \<open>The state of the first loop for the disks kept so far.\<close>

definition places_of :: "diskOut list \<Rightarrow> (int \<times> nat) list" where
  "places_of ks = rev (zip (map do_Index ks) [0..<length ks])"

lemma places_snoc: "places_of (ks @ [d]) = (do_Index d, length ks) # places_of ks"
  by (simp add: places_of_def)

lemma disk_loop:
  assumes "list_all (\<lambda>d. in_u64 (do_Size d)) ds"
  shows "fold disk_turn ds (seen, places_of ks, map (disk_with []) ks) =
    (let fs = first_of_index seen ds; ks' = ks @ filter real_disk fs in
     (rev (map do_Index fs) @ seen, places_of ks', map (disk_with []) ks'))"
  using assms
proof (induction ds arbitrary: seen ks)
  case (Cons d ds)
  then have sz: "0 \<le> do_Size d" by (simp add: in_u64_def)
  show ?case
  proof (cases "do_Index d \<in> set seen")
    case True
    then show ?thesis using Cons by (simp add: disk_turn_def)
  next
    case False
    have turn: "disk_turn d (seen, places_of ks, map (disk_with []) ks) =
        (do_Index d # seen, places_of (ks @ filter real_disk [d]), map (disk_with []) (ks @ filter real_disk [d]))"
      using False sz by (auto simp: disk_turn_def real_disk_def ConvertUnit_bytes places_snoc disk_with_def Let_def)
    show ?thesis using Cons.IH [of "do_Index d # seen" "ks @ filter real_disk [d]"] Cons.prems False turn
      by (simp add: Let_def)
  qed
qed simp

lemma places_of_nth:
  assumes "distinct (map do_Index ks)"
  shows "map_of (places_of ks) i = Some j \<longleftrightarrow> j < length ks \<and> do_Index (ks ! j) = i"
proof -
  have "distinct (map fst (places_of ks))" using assms by (simp add: places_of_def rev_map [symmetric])
  then have "map_of (places_of ks) i = Some j \<longleftrightarrow> (i, j) \<in> set (places_of ks)" by (rule map_of_eq_Some_iff)
  moreover have "(i, j) \<in> set (places_of ks) \<longleftrightarrow> j < length ks \<and> do_Index (ks ! j) = i"
    by (auto simp: places_of_def in_set_zip intro!: exI [of _ j])
  ultimately show ?thesis by simp
qed

lemma part_loop:
  assumes "list_all (\<lambda>p. in_u64 (po_Size p)) ps" "distinct (map do_Index ks)" "do_Index ` set ks \<subseteq> set seen"
  shows "fold (part_turn seen (places_of ks)) ps (map (disk_with pre) ks) = map (disk_with (pre @ ps)) ks"
  using assms(1)
proof (induction ps arbitrary: pre)
  case (Cons p ps)
  have sz: "0 \<le> po_Size p" using Cons.prems by (simp add: in_u64_def)
  have "part_turn seen (places_of ks) p (map (disk_with pre) ks) = map (disk_with (pre @ [p])) ks"
  proof (cases "map_of (places_of ks) (po_DiskIndex p)")
    case None
    then have "po_DiskIndex p \<noteq> do_Index d" if "d \<in> set ks" for d
      using that places_of_nth [OF assms(2), of "po_DiskIndex p"] by (metis in_set_conv_nth option.distinct(1))
    then have "disk_with (pre @ [p]) d = disk_with pre d" if "d \<in> set ks" for d
      using that by (simp add: disk_with_def)
    then show ?thesis using None by (simp add: part_turn_def)
  next
    case (Some i)
    then have i: "i < length ks" "do_Index (ks ! i) = po_DiskIndex p" using places_of_nth [OF assms(2)] by auto
    then have seen: "po_DiskIndex p \<in> set seen" using assms(3) by (metis image_subset_iff nth_mem)
    have other: "j = i" if "j < length ks" "po_DiskIndex p = do_Index (ks ! j)" for j
      using that i assms(2) by (metis distinct_map distinct_conv_nth inj_on_def nth_mem)
    have "part_turn seen (places_of ks) p (map (disk_with pre) ks) =
        (map (disk_with pre) ks)[i := add_child (Disk (po_Size p div 2 ^ 20) (po_Type p) []) (disk_with pre (ks ! i))]"
      using Some seen sz i(1) by (simp add: part_turn_def ConvertUnit_bytes)
    also have "\<dots> = map (disk_with (pre @ [p])) ks"
    proof (rule nth_equalityI)
      fix j
      assume "j < length ((map (disk_with pre) ks)[i := add_child (Disk (po_Size p div 2 ^ 20) (po_Type p) [])
          (disk_with pre (ks ! i))])"
      then have j: "j < length ks" by simp
      show "(map (disk_with pre) ks)[i := add_child (Disk (po_Size p div 2 ^ 20) (po_Type p) []) (disk_with pre (ks ! i))] ! j =
          map (disk_with (pre @ [p])) ks ! j"
      proof (cases "j = i")
        case True
        then show ?thesis using j i(2) [symmetric] by (simp add: add_child_def disk_with_def)
      next
        case False
        then have "po_DiskIndex p \<noteq> do_Index (ks ! j)" using other [OF j] by blast
        then show ?thesis using False j by (simp add: disk_with_def)
      qed
    qed simp
    finally show ?thesis .
  qed
  then show ?case using Cons by simp
qed simp

lemma build_disks_reference:
  assumes "list_all (\<lambda>d. in_u64 (do_Size d)) ds" "list_all (\<lambda>p. in_u64 (po_Size p)) ps"
  shows "build_disks ds ps = disks_reference ds ps"
proof -
  let ?fs = "first_of_index [] ds"
  let ?ks = "filter real_disk ?fs"
  have d: "distinct (map do_Index ?ks)" using first_of_index_distinct [of "[]" ds] by (auto simp: distinct_map inj_on_def)
  have "fold disk_turn ds ([], [], []) = (rev (map do_Index ?fs), places_of ?ks, map (disk_with []) ?ks)"
    using disk_loop [OF assms(1), of "[]" "[]"] by (simp add: Let_def places_of_def)
  moreover have "fold (part_turn (rev (map do_Index ?fs)) (places_of ?ks)) ps (map (disk_with []) ?ks) =
      map (disk_with ([] @ ps)) ?ks"
    by (rule part_loop [OF assms(2) d]) auto
  ultimately show ?thesis by (simp add: build_disks_def disks_reference_def)
qed

section \<open>Properties\<close>

text \<open>C32: on Windows the two loops with their maps of indices put disks and partitions together as they
  should. Whatever the two commands print, if both succeed the disks collected are those the
  declarative description gives: of disks with the same index the first, kept if it is fixed, real
  and has at most 128 partitions, in the order printed; each with exactly the partitions that name
  its index, in their order; and all sizes in mebibytes.\<close>

theorem windows_disks_reference:
  assumes "runJSONCommand dec_diskOut no_diskOut (ww_diskCmd ww) w = (Inr ds, w1)"
    and "runJSONCommand dec_partOut no_partOut (ww_partitionCmd ww) w1 = (Inr ps, w2)"
  shows "windows_collectDisks ww w = (Inr (disks_reference ds ps), w2)"
proof -
  have "list_all (\<lambda>d. in_u64 (do_Size d)) ds" "list_all (\<lambda>p. in_u64 (po_Size p)) ps"
    by (rule runJSONCommand_all [OF dec_disk_range(1) assms(1)], assumption)
       (rule runJSONCommand_all [OF dec_disk_range(2) assms(2)], assumption)
  then show ?thesis using assms by (simp add: windows_collectDisks_def bindE_def build_disks_reference)
qed

definition example_disk_json :: "string \<Rightarrow> int \<Rightarrow> int \<Rightarrow> json" where
  "example_disk_json model index bytes =
     JObj [(''Model'', JStr model), (''MediaType'', JStr ''Fixed hard disk media''), (''Index'', num_json index),
           (''Size'', num_json bytes), (''Partitions'', num_json 1)]"

definition example_part_json :: "int \<Rightarrow> int \<Rightarrow> json" where
  "example_part_json index bytes =
     JObj [(''DiskIndex'', num_json index), (''Size'', num_json bytes), (''Type'', JStr ''NTFS'')]"

definition example_windows :: machine where
  "example_windows =
     \<lparr>fs = [], faults = [], seed = 0,
      m_exec = (\<lambda>n _ _ _. \<lparr>stdout = marshal (JArr (if n = 0
          then [example_disk_json ''Microsoft Virtual Disk'' 1 1048576, example_disk_json ''SSD'' 0 3145728]
          else [example_part_json 1 1048576, example_part_json 0 2097152])), stderr = [], cmd_err = None\<rparr>),
      m_environ = [], m_runs = 0, m_eval_symlinks = Inr, m_readlink = Inr\<rparr>"

lemma dec_u64_of_json: "in_u64 n \<Longrightarrow> dec_u64 (num_json n) cur = Some n"
  by (simp add: dec_u64_def dec_uint_num u64_bound_def in_u64_def)

lemma example_decoded:
  "in_u64 i \<Longrightarrow> in_u64 b \<Longrightarrow> dec_diskOut (example_disk_json m i b) =
     Some \<lparr>do_Model = m, do_MediaType = ''Fixed hard disk media'', do_Index = i, do_Size = b, do_Partitions = 1\<rparr>"
  "in_u64 i \<Longrightarrow> in_u64 b \<Longrightarrow> dec_partOut (example_part_json i b) = Some \<lparr>po_DiskIndex = i, po_Size = b, po_Type = ''NTFS''\<rparr>"
proof -
  have low: "to_lower ''Model'' = ''model''" "to_lower ''MediaType'' = ''mediatype''" "to_lower ''Index'' = ''index''"
    "to_lower ''Size'' = ''size''" "to_lower ''Partitions'' = ''partitions''" "to_lower ''DiskIndex'' = ''diskindex''"
    "to_lower ''Type'' = ''type''"
    by code_simp+
  have "in_u64 1" by (simp add: in_u64_def)
  then show
    "in_u64 i \<Longrightarrow> in_u64 b \<Longrightarrow> dec_diskOut (example_disk_json m i b) =
       Some \<lparr>do_Model = m, do_MediaType = ''Fixed hard disk media'', do_Index = i, do_Size = b, do_Partitions = 1\<rparr>"
    "in_u64 i \<Longrightarrow> in_u64 b \<Longrightarrow> dec_partOut (example_part_json i b) = Some \<lparr>po_DiskIndex = i, po_Size = b, po_Type = ''NTFS''\<rparr>"
    by (simp_all add: dec_diskOut_def dec_partOut_def dec_struct_def example_disk_json_def example_part_json_def low
        dec_string_def dec_u64_of_json)
qed

lemma example_parsed: "json_parse (marshal (JArr [example_disk_json m i b, example_disk_json m' i' b'])) =
     Some (JArr [example_disk_json m i b, example_disk_json m' i' b'])"
  "json_parse (marshal (JArr [example_part_json i b, example_part_json i' b'])) =
     Some (JArr [example_part_json i b, example_part_json i' b'])"
  by (rule json_parse_marshal(1);
      simp add: example_disk_json_def example_part_json_def num_json_def num_ok_show_int max_nesting_def)+

theorem windows_disks_reference_witness:
  "fst (windows_collectDisks (windows_defaultPlatformOptions ''amd64'') example_windows) =
     Inr [Disk 3 ''disk'' [Disk 2 ''NTFS'' []]]"
proof -
  let ?ww = "windows_defaultPlatformOptions ''amd64''"
  let ?ds = "[\<lparr>do_Model = ''Microsoft Virtual Disk'', do_MediaType = ''Fixed hard disk media'', do_Index = 1,
      do_Size = 1048576, do_Partitions = 1\<rparr>, \<lparr>do_Model = ''SSD'', do_MediaType = ''Fixed hard disk media'', do_Index = 0,
      do_Size = 3145728, do_Partitions = 1\<rparr>]"
  let ?ps = "[\<lparr>po_DiskIndex = 1, po_Size = 1048576, po_Type = ''NTFS''\<rparr>, \<lparr>po_DiskIndex = 0, po_Size = 2097152, po_Type = ''NTFS''\<rparr>]"
  have run: "runJSONCommand dec_diskOut no_diskOut (ww_diskCmd ?ww) example_windows = (Inr ?ds, example_windows\<lparr>m_runs := 1\<rparr>)"
    "runJSONCommand dec_partOut no_partOut (ww_partitionCmd ?ww) (example_windows\<lparr>m_runs := 1\<rparr>) =
      (Inr ?ps, example_windows\<lparr>m_runs := 2\<rparr>)"
    by (simp_all add: runJSONCommand_def RunWithTimeout_def Run_def example_windows_def UnmarshalJSON_def example_parsed
        dec_slice_def example_decoded in_u64_def no_diskOut_def no_partOut_def numeral_2_eq_2 del: marshal.simps)
  from windows_disks_reference [OF run] show ?thesis
    by (simp add: disks_reference_def real_disk_def disk_with_def)
qed

text \<open>With two sockets of two cores, each core of two threads: PowerShell describes each socket by a
  section of its own, so that the division by the number of sections makes one thread per core, and
  half of the processors are missing.\<close>

lemma windows_two_sockets:
  "let section = [(''NumberOfCores'', ''2''), (''NumberOfLogicalProcessors'', ''4'')];
     c = windows_cpu_of ''amd64'' [section, section] in
   Sockets c = 2 \<and> Cores c = 2 \<and> Threads c = 1 \<and> Cpus c = 4"
  by code_simp

end
