(* ===== verification/Sysinfo_Ports.thy ===== *)
theory Sysinfo_Ports
  imports Hardware_Windows
begin

text \<open>
  The collectors of macOS and Windows put together: the software of both systems, their empty platform
  information, and \<open>Collect\<close> of the packages \<open>hardware\<close> and \<open>software\<close>, which is the same code on every
  system around different parts. With them the interface of \<open>Sysinfo\<close> is implemented two more times,
  so what is proved of \<open>Collect\<close> there holds on the three systems.
\<close>

section \<open>Collect, whatever the system\<close>

definition hardware_Collect_with ::
    "string \<Rightarrow> ('s, product) io \<Rightarrow> ('s, cpu) io \<Rightarrow> ('s, gpu list) io \<Rightarrow> ('s, accelerator list) io \<Rightarrow> ('s, int) io
     \<Rightarrow> ('s, disk list) io \<Rightarrow> ('s, screen list) io \<Rightarrow> 's \<Rightarrow> (go_error option \<times> hardware_info) \<times> 's" where
  "hardware_Collect_with arch product cpu gpus accelerators memory disks screens =
     bindP (or_else no_product product) (\<lambda>pr.
     bindP (or_else (no_cpu\<lparr>Arch := arch\<rparr>) cpu) (\<lambda>c.
     bindP (or_else [] gpus) (\<lambda>gs.
     bindP (or_else [] accelerators) (\<lambda>accs.
     bindP (or_else 0 memory) (\<lambda>mem.
     bindP (or_else [] disks) (\<lambda>blks.
     bindP (or_else [] screens) (\<lambda>scr.
       retP (None, \<lparr>Product = pr, CPU = c, GPUs = gs, Accelerators = accs, Mem = mem, Blks = blks, Screens = scr\<rparr>))))))))"

definition software_Collect_with ::
    "string \<Rightarrow> string \<Rightarrow> ('s, osInfo) io \<Rightarrow> ('s, string) io \<Rightarrow> ('s, bios) io \<Rightarrow> 's \<Rightarrow> (go_error option \<times> software_info) \<times> 's" where
  "software_Collect_with goos zone os lang bios =
     bindP (or_else \<lparr>Family = goos, Distro = [], os_Version = [], Edition = []\<rparr> os) (\<lambda>i.
     bindP (or_else [] lang) (\<lambda>l.
     bindP (or_else no_bios bios) (\<lambda>b.
       retP (None, \<lparr>si_OS = i, Timezone = zone, Lang = l, si_Bios = b\<rparr>))))"

text \<open>On Linux this is the code modelled before: there the product and the firmware cannot fail, and the
  language is read from the environment.\<close>

definition never_fails :: "('s \<Rightarrow> 'a \<times> 's) \<Rightarrow> ('s, 'a) io" where
  "never_fails m w = (case m w of (x, w') \<Rightarrow> (Inr x, w'))"

lemma linux_hardware_with:
  "hardware_Collect h pi = hardware_Collect_with (hw_arch h) (never_fails (collectProduct h pi)) (collectCPU h)
     (collectGPUs h pi) (collectAccelerators h) (collectMemory h) (collectDisks h) (collectScreens h pi)"
proof -
  have "or_else d (never_fails m) = m" for d :: product and m :: "'a machine_scheme \<Rightarrow> product \<times> 'a machine_scheme"
    by (auto simp: fun_eq_iff or_else_def never_fails_def split: prod.splits)
  then show ?thesis by (simp add: hardware_Collect_def hardware_Collect_with_def)
qed

lemma linux_software_with:
  "software_Collect s pi = software_Collect_with GOOS (timezone s) (collectOS s)
     (\<lambda>w. (case collectLang s of (l, None) \<Rightarrow> Inr l | (_, Some e) \<Rightarrow> Inl e, w)) (never_fails (collectBios s pi))"
  by (auto simp: fun_eq_iff software_Collect_def software_Collect_with_def bindP_def retP_def or_else_def never_fails_def
      collectLang_def Let_def split: prod.splits sum.splits option.splits)

section \<open>Software\<close>

record command_options =
  co_osCmd :: "string list"
  co_langCmd :: "string list"
  co_biosCmd :: "string list"
  co_timezone :: string

definition darwin_software_options :: "string \<Rightarrow> command_options" where
  "darwin_software_options zone =
     \<lparr>co_osCmd = [''sw_vers''], co_langCmd = [''defaults'', ''read'', ''-g'', ''AppleLocale''],
      co_biosCmd = [''system_profiler'', ''SPHardwareDataType'', ''-detailLevel'', ''mini''], co_timezone = zone\<rparr>"

definition darwin_collectOS :: "command_options \<Rightarrow> ('z machine_scheme, osInfo) io" where
  "darwin_collectOS co =
     bindE (RunListFmt (co_osCmd co) None) (\<lambda>os.
       let o0 = map_index (os ! 0) in
       ret \<lparr>Family = ''darwin'', Distro = o0 ''ProductName'', os_Version = o0 ''ProductVersion'', Edition = o0 ''BuildVersion''\<rparr>)"

definition darwin_collectLang :: "command_options \<Rightarrow> ('z machine_scheme, string) io" where
  "darwin_collectLang co w =
     (case RunWithTimeout 15 (co_langCmd co) w of (out, w') \<Rightarrow>
        (case cmd_err out of
           Some e \<Rightarrow> (Inl e, w')
         | None \<Rightarrow>
            (let l = trim_space (stdout out) in
             if l = [] then (Inl (Errorf ''locale was empty''), w') else (Inr l, w'))))"

definition biosRegex :: rx where
  "biosRegex = rx_seq
     [RBegin True, RStar True (RChr rx_space), rx_lit ''Boot ROM Version'', RStar True (RChr rx_space), rx_lit '':'',
      RStar True (RChr rx_space), RGrp 1 (RSeq (RChr rx_dot) (RStar False (RChr rx_dot))), RStar True (RChr rx_space), REnd True]"

definition darwin_collectBios :: "command_options \<Rightarrow> ('z machine_scheme, bios) io" where
  "darwin_collectBios co w =
     (case RunWithTimeout 15 (co_biosCmd co) w of (out, w') \<Rightarrow>
        (case cmd_err out of
           Some e \<Rightarrow> (Inl e, w')
         | None \<Rightarrow>
            (case find_submatch biosRegex (stdout out) of
               None \<Rightarrow> (Inl (Errorf ''failed to parse BIOS info''), w')
             | Some m \<Rightarrow> (Inr \<lparr>bios_Vendor = ''Apple'', bios_Version = m 1\<rparr>, w'))))"

definition windows_software_options :: "string \<Rightarrow> command_options" where
  "windows_software_options zone =
     \<lparr>co_osCmd = powershell [''Get-CimInstance'', ''Win32_OperatingSystem'', ''|'', ''Format-List'', ''*''],
      co_langCmd = powershell [''Get-WinSystemLocale'', ''|'', ''Format-List'', ''IetfLanguageTag''],
      co_biosCmd = powershell [''Get-CimInstance'', ''Win32_BIOS'', ''|'', ''Format-List''], co_timezone = zone\<rparr>"

definition windows_collectOS :: "command_options \<Rightarrow> ('z machine_scheme, osInfo) io" where
  "windows_collectOS co =
     bindE (RunListFmt (co_osCmd co) (Some [''Caption'', ''Version'', ''OperatingSystemSKU''])) (\<lambda>os.
       let o0 = map_index (os ! 0) in
       ret \<lparr>Family = ''windows'', Distro = o0 ''Caption'', os_Version = o0 ''Version'', Edition = o0 ''OperatingSystemSKU''\<rparr>)"

definition windows_collectLang :: "command_options \<Rightarrow> ('z machine_scheme, string) io" where
  "windows_collectLang co =
     bindE (RunListFmt (co_langCmd co) None) (\<lambda>lang. ret (map_index (lang ! 0) ''IetfLanguageTag''))"

definition windows_collectBios :: "command_options \<Rightarrow> ('z machine_scheme, bios) io" where
  "windows_collectBios co =
     bindE (RunListFmt (co_biosCmd co) (Some [''Manufacturer'', ''Version''])) (\<lambda>b.
       ret \<lparr>bios_Vendor = map_index (b ! 0) ''Manufacturer'', bios_Version = map_index (b ! 0) ''Version''\<rparr>)"

section \<open>The two systems\<close>

text \<open>The platform information of both is an empty struct.\<close>

definition empty_collectPlatform :: "('s, unit) io" where
  "empty_collectPlatform = ret ()"

definition darwin_hardware_Collect ::
    "darwin_options \<Rightarrow> unit \<Rightarrow> 'z machine_scheme \<Rightarrow> (go_error option \<times> hardware_info) \<times> 'z machine_scheme" where
  "darwin_hardware_Collect dw _ =
     hardware_Collect_with (dw_arch dw) darwin_collectProduct (darwin_collectCPU dw) (darwin_collectGPUs dw)
       darwin_collectAccelerators (darwin_collectMemory dw) (darwin_collectDisks dw) (darwin_collectScreens dw)"

definition darwin_software_Collect ::
    "command_options \<Rightarrow> unit \<Rightarrow> 'z machine_scheme \<Rightarrow> (go_error option \<times> software_info) \<times> 'z machine_scheme" where
  "darwin_software_Collect co _ =
     software_Collect_with ''darwin'' (co_timezone co) (darwin_collectOS co) (darwin_collectLang co) (darwin_collectBios co)"

definition windows_hardware_Collect ::
    "windows_options \<Rightarrow> unit \<Rightarrow> 'z machine_scheme \<Rightarrow> (go_error option \<times> hardware_info) \<times> 'z machine_scheme" where
  "windows_hardware_Collect ww _ =
     hardware_Collect_with (ww_arch ww) (windows_collectProduct ww) (windows_collectCPU ww) (windows_collectGPUs ww)
       (windows_collectAccelerators ww) (windows_collectMemory ww) (windows_collectDisks ww) (windows_collectScreens ww)"

definition windows_software_Collect ::
    "command_options \<Rightarrow> unit \<Rightarrow> 'z machine_scheme \<Rightarrow> (go_error option \<times> software_info) \<times> 'z machine_scheme" where
  "windows_software_Collect co _ =
     software_Collect_with ''windows'' (co_timezone co) (windows_collectOS co) (windows_collectLang co) (windows_collectBios co)"

definition sysinfo_darwin :: "darwin_options \<Rightarrow> command_options \<Rightarrow> ('z machine_scheme, sys_info) io" where
  "sysinfo_darwin dw co =
     sysinfo_Collect (\<lambda>_. None) hardware_json software_json () empty_collectPlatform
       (darwin_hardware_Collect dw) (darwin_software_Collect co)"

definition sysinfo_windows :: "windows_options \<Rightarrow> command_options \<Rightarrow> ('z machine_scheme, sys_info) io" where
  "sysinfo_windows ww co =
     sysinfo_Collect (\<lambda>_. None) hardware_json software_json () empty_collectPlatform
       (windows_hardware_Collect ww) (windows_software_Collect co)"

section \<open>They only read\<close>

lemma reads_RunListFmt: "reads (RunListFmt args keep)"
  by (rule readsI) (simp add: RunListFmt_def run_defs same_files_def Let_def split: option.splits)

lemma reads_runJSON: "reads (runJSONCommand dec zv argv)"
  by (rule readsI) (simp add: runJSONCommand_def run_defs same_files_def split: option.splits sum.splits)

lemma reads_profiler: "reads (run_profiler argv)"
  by (rule readsI) (simp add: run_profiler_def run_defs same_files_def split: option.splits)

lemma reads_darwin_disks: "reads (darwin_collectDisks dw)"
  by (rule readsI) (simp add: darwin_collectDisks_def run_defs same_files_def Let_def
      split: option.splits sum.splits prod.splits plist.splits)

lemma reads_darwin_lang: "reads (darwin_collectLang co)" "reads (darwin_collectBios co)"
  by (rule readsI, simp add: darwin_collectLang_def darwin_collectBios_def run_defs same_files_def Let_def
      split: option.splits)+

lemmas port_reads = reads_RunListFmt reads_runJSON reads_profiler reads_darwin_disks reads_darwin_lang

lemma reads_hardware_with:
  assumes "reads p" "reads c" "reads g" "reads a" "reads m" "reads d" "reads s"
  shows "reads (hardware_Collect_with arch p c g a m d s)"
  unfolding hardware_Collect_with_def by (intro reads_bindP reads_or_else reads_pure assms)

lemma reads_software_with:
  assumes "reads os" "reads l" "reads b"
  shows "reads (software_Collect_with goos zone os l b)"
  unfolding software_Collect_with_def by (intro reads_bindP reads_or_else reads_pure assms)

lemma reads_darwin: "reads (darwin_hardware_Collect dw u)" "reads (darwin_software_Collect co u)"
  unfolding darwin_hardware_Collect_def darwin_software_Collect_def darwin_collectProduct_def darwin_collectCPU_def
    darwin_collectGPUs_def darwin_collectAccelerators_def darwin_collectMemory_def darwin_collectScreens_def darwin_collectOS_def
  by (intro reads_hardware_with reads_software_with port_reads reads_bindE reads_pure;
      auto simp: Let_def intro!: reads_pure split: option.splits)+

lemma reads_windows: "reads (windows_hardware_Collect ww u)" "reads (windows_software_Collect co u)"
  unfolding windows_hardware_Collect_def windows_software_Collect_def windows_collectProduct_def windows_collectCPU_def
    windows_collectGPUs_def windows_collectAccelerators_def windows_collectMemory_def windows_collectDisks_def
    windows_collectScreens_def windows_collectOS_def windows_collectLang_def windows_collectBios_def
  by (intro reads_hardware_with reads_software_with port_reads reads_bindE reads_bindP reads_or_else reads_attempt reads_pure;
      auto simp: Let_def intro!: reads_pure split: sum.splits)+

section \<open>Ranges\<close>

text \<open>The number of sockets is on Windows the number of sections of the output, which has no bound of its
  own.\<close>

definition counts_ok :: "cpu \<Rightarrow> bool" where
  "counts_ok c \<longleftrightarrow> in_u64 (Cpus c) \<and> 0 \<le> Sockets c \<and> in_u64 (Cores c) \<and> in_u64 (Threads c)"

definition ports_ok :: "hardware_info \<Rightarrow> bool" where
  "ports_ok i \<longleftrightarrow> counts_ok (CPU i) \<and> in_i64 (Mem i) \<and> list_all (disk_sized 1) (Blks i)"

lemma hardware_with_ok:
  assumes "\<And>w c w'. cpu w = (Inr c, w') \<Longrightarrow> counts_ok c" "\<And>w m w'. mem w = (Inr m, w') \<Longrightarrow> in_i64 m"
    and "\<And>w ds w'. disks w = (Inr ds, w') \<Longrightarrow> list_all (disk_sized 1) ds"
  shows "fst (fst (hardware_Collect_with arch pr cpu gs accs mem disks scr w)) = None \<and>
    ports_ok (snd (fst (hardware_Collect_with arch pr cpu gs accs mem disks scr w)))"
proof -
  have "counts_ok (fst (or_else (no_cpu\<lparr>Arch := arch\<rparr>) cpu w))" for w
    by (rule or_else_ok) (use assms(1) in \<open>auto simp: counts_ok_def no_cpu_def in_u64_def\<close>)
  moreover have "in_i64 (fst (or_else 0 mem w))" for w
    by (rule or_else_ok) (use assms(2) in \<open>auto simp: in_i64_def min_i64_def max_i64_def\<close>)
  moreover have "list_all (disk_sized 1) (fst (or_else [] disks w))" for w
    by (rule or_else_ok) (use assms(3) in auto)
  ultimately show ?thesis
    by (simp add: hardware_Collect_with_def bindP_def retP_def ports_ok_def split: prod.split) (metis fst_conv)
qed

lemma darwin_hardware_ok:
  "fst (fst (darwin_hardware_Collect dw u w)) = None \<and> ports_ok (snd (fst (darwin_hardware_Collect dw u w)))"
  unfolding darwin_hardware_Collect_def
proof (rule hardware_with_ok)
  show "counts_ok c" if "darwin_collectCPU dw w = (Inr c, w')" for c and w w' :: "'a machine_scheme"
    using that darwin_cpu_ok
    by (auto simp: darwin_collectCPU_def bindE_def cpu_ok_def counts_ok_def in_u64_def split: prod.splits sum.splits)
  show "in_i64 m" if "darwin_collectMemory dw w = (Inr m, w')" for m and w w' :: "'a machine_scheme"
    using that ConvertUnit_range parse_int64_range
    by (auto simp: darwin_collectMemory_def bindE_def split: prod.splits sum.splits option.splits if_splits)
  show "list_all (disk_sized 1) ds" if "darwin_collectDisks dw w = (Inr ds, w')" for ds and w w' :: "'a machine_scheme"
    using that by (rule darwin_collectDisks_ok)
qed

lemma windows_counts: "cpus \<noteq> [] \<Longrightarrow> counts_ok (windows_cpu_of arch cpus)"
proof -
  assume "cpus \<noteq> []"
  have r: "in_u64 (count_or 1 s)" "in_u64 (count_or 0 s)" "in_u64 1" for s
    by (rule count_or_range, simp add: in_u64_def)+ (simp add: in_u64_def)
  have small: "in_u64 (a div b)" if "in_u64 a" "0 < b" for a b
    using that zdiv_mono2 [of a 1 b] by (auto simp: in_u64_def pos_imp_zdiv_nonneg_iff)
  have "0 < (if count_or 1 s = 0 then 1 else count_or 1 s)" for s using r(1) [of s] by (auto simp: in_u64_def)
  with \<open>cpus \<noteq> []\<close> r small show ?thesis by (simp add: counts_ok_def windows_cpu_of_def Let_def)
qed

lemma add_memory_range: "in_i64 acc \<Longrightarrow> in_i64 (add_memory sms acc)"
  by (induction sms arbitrary: acc) (auto simp: wrap_i64_range split: option.splits)

lemma reference_sized:
  assumes "list_all (\<lambda>d. in_u64 (do_Size d)) ds" "list_all (\<lambda>p. in_u64 (po_Size p)) ps"
  shows "list_all (disk_sized 1) (disks_reference ds ps)"
proof -
  have sub: "set (first_of_index seen ds) \<subseteq> set ds" for seen
    by (induction seen ds rule: first_of_index.induct) auto
  then show ?thesis using assms mebi_range
    by (fastforce simp: disks_reference_def disk_with_def list_all_iff)
qed

lemma windows_hardware_ok:
  "fst (fst (windows_hardware_Collect ww u w)) = None \<and> ports_ok (snd (fst (windows_hardware_Collect ww u w)))"
  unfolding windows_hardware_Collect_def
proof (rule hardware_with_ok)
  show "counts_ok c" if "windows_collectCPU ww w = (Inr c, w')" for c and w w' :: "'a machine_scheme"
    using that windows_counts [OF RunListFmt_nonempty]
    by (auto simp: windows_collectCPU_def bindE_def split: prod.splits sum.splits)
  show "in_i64 m" if "windows_collectMemory ww w = (Inr m, w')" for m and w w' :: "'a machine_scheme"
    using that ConvertUnit_range add_memory_range [of 0]
    by (auto simp: windows_collectMemory_def bindE_def in_i64_def [of 0] min_i64_def max_i64_def split: prod.splits sum.splits)
  show "list_all (disk_sized 1) ds" if run: "windows_collectDisks ww w = (Inr ds, w')" for ds and w w' :: "'a machine_scheme"
  proof -
    obtain dsk ps w1 where out: "runJSONCommand dec_diskOut no_diskOut (ww_diskCmd ww) w = (Inr dsk, w1)"
      "runJSONCommand dec_partOut no_partOut (ww_partitionCmd ww) w1 = (Inr ps, w')" "ds = build_disks dsk ps"
      using run by (auto simp: windows_collectDisks_def bindE_def split: prod.splits sum.splits)
    have "list_all (\<lambda>d. in_u64 (do_Size d)) dsk" "list_all (\<lambda>p. in_u64 (po_Size p)) ps"
      by (rule runJSONCommand_all [OF dec_disk_range(1) out(1)], assumption)
         (rule runJSONCommand_all [OF dec_disk_range(2) out(2)], assumption)
    then show ?thesis using reference_sized build_disks_reference out(3) by simp
  qed
qed

section \<open>The interface of the collectors\<close>

lemma port_files:
  "same_files w (snd (empty_collectPlatform w))"
  "same_files w (snd (darwin_hardware_Collect dw u w))" "same_files w (snd (darwin_software_Collect co u w))"
  "same_files w (snd (windows_hardware_Collect ww u w))" "same_files w (snd (windows_software_Collect co u w))"
  by (simp add: empty_collectPlatform_def)
     (rule reads_darwin [unfolded reads_def, rule_format] reads_windows [unfolded reads_def, rule_format])+

interpretation darwin: collectors empty_collectPlatform "darwin_hardware_Collect dw" "darwin_software_Collect co" same_files
    ports_ok for dw co
  by unfold_locales (auto simp: port_files darwin_hardware_ok intro: same_files_trans)

interpretation windows: collectors empty_collectPlatform "windows_hardware_Collect ww" "windows_software_Collect co" same_files
    ports_ok for ww co
  by unfold_locales (auto simp: port_files windows_hardware_ok intro: same_files_trans)

section \<open>The encoding\<close>

lemma ports_fits: "ports_ok i \<Longrightarrow> json_fits 5 (hardware_json i)"
  using hardware_fits_disks [of 2 i] disk_fits [of 1] by (auto simp: ports_ok_def list_all_iff eval_nat_numeral)

lemma ports_encode:
  assumes "ports_ok h"
  shows "json_wf (sys_info_json \<lparr>Hardware = hardware_json h, Software = software_json s, Platform = None\<rparr>)"
    "json_depth (sys_info_json \<lparr>Hardware = hardware_json h, Software = software_json s, Platform = None\<rparr>) \<le> 6"
proof -
  have "json_fits 5 (software_json s)"
  proof (rule json_fits_mono)
    show "json_fits (Suc (Suc 0)) (software_json s)" by (simp add: software_json_def json_fits_obj os_json_def bios_json_def)
  qed simp
  then have "json_fits (Suc 5) (sys_info_json \<lparr>Hardware = hardware_json h, Software = software_json s, Platform = None\<rparr>)"
    using ports_fits [OF assms] unfolding sys_info_json_def json_fits_obj by simp
  then show "json_wf (sys_info_json \<lparr>Hardware = hardware_json h, Software = software_json s, Platform = None\<rparr>)"
    "json_depth (sys_info_json \<lparr>Hardware = hardware_json h, Software = software_json s, Platform = None\<rparr>) \<le> 6"
    by (simp_all add: json_fits_def)
qed

section \<open>Properties\<close>

text \<open>What holds of the information collected on either system.\<close>

definition encodes :: "'z machine_scheme \<Rightarrow> (go_error + sys_info) \<times> 'z machine_scheme \<Rightarrow> bool" where
  "encodes w run = (case run of
     (Inl _, _) \<Rightarrow> False
   | (Inr i, w') \<Rightarrow> fs w' = fs w \<and> Platform i = None \<and> json_depth (sys_info_json i) \<le> 6 \<and>
       json_parse (marshal (sys_info_json i)) = Some (sys_info_json i))"


end
