(* ===== verification/Processor.thy ===== *)
theory Processor
  imports Database
begin

text \<open>
  The package \<open>ingest/processor\<close>: it reads the reports the web service stored, decodes and
  validates them, uploads them to the database and removes them. Decoding a JSON object into a
  model is done by \<open>mapstructure\<close>, whose two decoders are arguments; so are the test of the
  \<open>uuid\<close> package and the quoting of identifiers.
\<close>

section \<open>Sanitizing\<close>

abbreviation bslash :: char where "bslash \<equiv> CHR 0x5C"

definition null_escape :: string where "null_escape = bslash # ''u0000''"
definition replacement_escape :: string where "replacement_escape = bslash # ''ufffd''"

text \<open>\<open>bytes.ReplaceAll\<close>: occurrences from left to right, not overlapping.\<close>

function sanitizeInvalidUnicodeEscapes :: "string \<Rightarrow> string" where
  "sanitizeInvalidUnicodeEscapes s =
     (case s of
        [] \<Rightarrow> []
      | c # cs \<Rightarrow>
          if has_prefix s null_escape
          then replacement_escape @ sanitizeInvalidUnicodeEscapes (drop 6 s)
          else c # sanitizeInvalidUnicodeEscapes cs)"
  by pat_completeness auto
termination by (relation "measure length") auto

declare sanitizeInvalidUnicodeEscapes.simps [simp del]

section \<open>Legacy applications\<close>

definition isLegacy :: "string \<Rightarrow> bool" where
  "isLegacy app \<longleftrightarrow> hd (split_on slash app) = LegacyReportTag"

text \<open>The regular expression: the tag, a distribution, \<open>desktop\<close>, a version; the two captured parts
  are not empty and hold no slash.\<close>

definition parseLegacyApp :: "string \<Rightarrow> string \<times> string" where
  "parseLegacyApp app =
     (case split_on slash app of
        [tag, d, k, v] \<Rightarrow>
          if tag = LegacyReportTag \<and> k = ''desktop'' \<and> d \<noteq> [] \<and> v \<noteq> [] then (d, v) else ([], [])
      | _ \<Rightarrow> ([], []))"

section \<open>Validation\<close>

definition empty_system_info :: TargetSystemInfo where
  "empty_system_info = \<lparr>ts_Hardware = None, ts_Software = None, ts_Platform = None, ts_Extras = None\<rparr>"

definition validateReport :: "TargetModel \<Rightarrow> go_error option" where
  "validateReport data =
     (if tm_OptOut data then None
      else if tm_InsightsVersion data = [] \<and> tm_CollectionTime data = 0 \<and>
          tm_SystemInfo data = empty_system_info \<and> tm_SourceMetrics data = None
      then Some (Sentinel ErrNoValidData)
      else if tm_Extras data \<noteq> None
      then Some (Joined [Sentinel ErrUnexpectedFields, Errorf ''unexpected Extras field''])
      else if ts_Extras (tm_SystemInfo data) \<noteq> None
      then Some (Joined [Sentinel ErrUnexpectedFields, Errorf ''unexpected SystemInfo.Extras field''])
      else None)"

definition validateLegacyReport :: "LegacyTargetModel \<Rightarrow> go_error option" where
  "validateLegacyReport data =
     (if lm_OptOut data then None
      else if lm_Fields data = None then Some (Sentinel ErrNoValidData)
      else None)"

section \<open>Decoding\<close>

text \<open>\<open>json.Unmarshal\<close> into a map: an object, or null for the nil map.\<close>

definition unmarshal_object :: "string \<Rightarrow> (string \<times> json) list option" where
  "unmarshal_object data =
     (case json_parse data of
        Some (JObj kvs) \<Rightarrow> Some kvs
      | Some JNull \<Rightarrow> Some []
      | _ \<Rightarrow> None)"

definition decodeFile :: "((string \<times> json) list \<Rightarrow> 'a option) \<Rightarrow> string \<Rightarrow> (ingest, 'a) io" where
  "decodeFile decode file =
     bindE (os_read_file file) (\<lambda>raw.
       let data = sanitizeInvalidUnicodeEscapes raw in
       case unmarshal_object data of
         None \<Rightarrow> throw (Joined [Errorf ''json file is invalid and could not be parsed''])
       | Some jsonData \<Rightarrow>
          (case decode jsonData of
             None \<Rightarrow> throw (Joined [Errorf ''file data does not match expected model structure''])
           | Some report \<Rightarrow> ret report))"

definition processAndUpload ::
    "((string \<times> json) list \<Rightarrow> 'a option) \<Rightarrow> string \<Rightarrow> ('a \<Rightarrow> go_error option) \<Rightarrow> ('a \<Rightarrow> (ingest, unit) io)
     \<Rightarrow> (ingest, unit) io" where
  "processAndUpload decode file validate upload =
     bindE (decodeFile decode file) (\<lambda>report.
       let validationErr = validate report in
       if validationErr \<noteq> None \<and> \<not> errors_is_opt validationErr ErrUnexpectedFields
       then throw (the validationErr)
       else attempt (upload report) (\<lambda>res.
         case res of
           Inl err \<Rightarrow> throw (the (errors_join [Some (Sentinel ErrUploadFailed), Some err, validationErr]))
         | Inr _ \<Rightarrow> (case validationErr of None \<Rightarrow> ret () | Some e \<Rightarrow> throw e)))"

section \<open>Files\<close>

definition json_walk_fn :: "(string \<Rightarrow> nat option) \<Rightarrow> (string list \<times> nat) walk_fn" where
  "json_walk_fn sz path isd err acc =
     (case err of
        Some e \<Rightarrow> (WErr e, acc)
      | None \<Rightarrow>
          if \<not> isd \<and> path_ext path = ''.json''
          then (WContinue, (fst acc @ [path], snd acc + (case sz path of None \<Rightarrow> 0 | Some n \<Rightarrow> n)))
          else (WContinue, acc))"

definition getJSONFiles :: "string \<Rightarrow> (ingest, string list \<times> nat) io" where
  "getJSONFiles dir = (\<lambda>w.
     path_walk_dir (json_walk_fn (\<lambda>p. map_option length (file_content (fs w) (resolve p)))) dir ([], 0) w)"

text \<open>The base name without its extension when that is a UUID, otherwise the next one drawn.\<close>

definition getReportID :: "(string \<Rightarrow> bool) \<Rightarrow> string \<Rightarrow> ingest \<Rightarrow> string \<times> ingest" where
  "getReportID uuid_valid file w =
     (let base = path_base file; reportID = trim_suffix base (path_ext base) in
      if uuid_valid reportID then (reportID, w)
      else (case uuids w of [] \<Rightarrow> [] | u # _ \<Rightarrow> u, w\<lparr>uuids := tl (uuids w)\<rparr>))"

section \<open>Processing\<close>

record processor =
  p_reportsDir :: string
  p_db :: db_manager

text \<open>What the libraries provide.\<close>

record ingest_libs =
  lib_target :: "(string \<times> json) list \<Rightarrow> TargetModel option"
  lib_legacy :: "(string \<times> json) list \<Rightarrow> LegacyTargetModel option"
  lib_uuid_valid :: "string \<Rightarrow> bool"
  lib_sanitize :: "string \<Rightarrow> string"

definition processor_New :: "string \<Rightarrow> db_manager \<Rightarrow> go_error option list \<Rightarrow> ('z os_scheme, processor) io" where
  "processor_New reportsDir db registers =
     (if reportsDir = [] then throw (Errorf ''reportsDir must be set'')
      else bindE (on_error (\<lambda>_. Errorf ''failed to create reportsDir'') (os_mkdir_all reportsDir 448)) (\<lambda>_.
        (case find (\<lambda>e. e \<noteq> None) registers of
           Some _ \<Rightarrow> throw (Errorf ''failed to register metric'')
         | None \<Rightarrow> ret \<lparr>p_reportsDir = reportsDir, p_db = db\<rparr>)))"

text \<open>The pair says whether an upload was attempted, and the error if any.\<close>

definition uploadInvalid ::
    "ingest_libs \<Rightarrow> processor \<Rightarrow> string \<Rightarrow> string \<Rightarrow> string \<Rightarrow> ingest
     \<Rightarrow> (bool \<times> go_error option) \<times> ingest" where
  "uploadInvalid L p file rid app w =
     (case os_read_file file w of
        (Inl _, w1) \<Rightarrow> ((False, Some (Errorf ''failed to re-read invalid file'')), w1)
      | (Inr raw, w1) \<Rightarrow>
         (let data = sanitizeInvalidUnicodeEscapes raw in
          if data = [] \<or> trim_space data = [] then ((False, None), w1)
          else if unmarshal_object data = Some [] then ((False, None), w1)
          else (case UploadInvalid (lib_sanitize L) (p_db p) rid app data w1 of
                  (Inl e, w2) \<Rightarrow> ((True, errors_join [Some (Sentinel ErrUploadFailed), Some e]), w2)
                | (Inr _, w2) \<Rightarrow> ((True, None), w2))))"

definition log_metric :: "metric_event \<Rightarrow> ingest \<Rightarrow> ingest" where
  "log_metric m w = w\<lparr>metric_log := metric_log w @ [m]\<rparr>"

text \<open>The upload of one file, by the kind of its application.\<close>

definition upload_file ::
    "ingest_libs \<Rightarrow> processor \<Rightarrow> string \<Rightarrow> string \<Rightarrow> string \<Rightarrow> bool \<Rightarrow> (ingest, unit) io" where
  "upload_file L p file rid app legacyApp =
     (if legacyApp then
        (let (distribution, version) = parseLegacyApp app in
         processAndUpload (lib_legacy L) file validateLegacyReport
           (\<lambda>report. UploadLegacy (lib_sanitize L) (p_db p) rid distribution version report))
      else
        processAndUpload (lib_target L) file validateReport
          (\<lambda>report. db_Upload (lib_sanitize L) (p_db p) rid app report))"

text \<open>The last part of \<open>processFile\<close>: the file goes, whatever became of an invalid report.\<close>

definition finish_file :: "string \<Rightarrow> string \<Rightarrow> string \<Rightarrow> ingest \<Rightarrow> ingest" where
  "finish_file file app result w =
     (case os_remove file w of
        (Inl _, w') \<Rightarrow> log_metric (FilesProcessed app ''remove_failure'') w'
      | (Inr _, w') \<Rightarrow> log_metric (FilesProcessed app result) w')"

definition processFile ::
    "ingest_libs \<Rightarrow> processor \<Rightarrow> string \<Rightarrow> string \<Rightarrow> bool \<Rightarrow> ingest \<Rightarrow> (nat \<times> nat) \<times> ingest" where
  "processFile L p file app legacyApp w =
     (case getReportID (lib_uuid_valid L) file w of (reportID, w0) \<Rightarrow>
      case upload_file L p file reportID app legacyApp w0 of (res, w1) \<Rightarrow>
        (let procErr = (case res of Inl e \<Rightarrow> Some e | Inr _ \<Rightarrow> None);
             attemptCount = (if procErr = None \<or> errors_is_opt procErr ErrUnexpectedFields \<or>
                errors_is_opt procErr ErrUploadFailed then 1 else 0) in
         if errors_is_opt procErr ErrUploadFailed
         then ((attemptCount, 1), log_metric (FilesProcessed app ''upload_failure'') w1)
         else if procErr = None then ((attemptCount, 0), finish_file file app ''success'' w1)
         else (case uploadInvalid L p file reportID app w1 of ((attempted, err), w2) \<Rightarrow>
           (let result = (if attempted \<and> err \<noteq> None then ''upload_invalid_failure''
                          else if err \<noteq> None then ''upload_invalid_pre_attempt_failure'' else ''success'') in
            ((attemptCount + (if attempted then 1 else 0), if attempted \<and> err \<noteq> None then 1 else 0),
             finish_file file app result w2)))))"

text \<open>The context is polled before every file.\<close>

definition poll_ctx :: "ingest \<Rightarrow> bool \<times> ingest" where
  "poll_ctx w =
     (case cancel_after w of
        None \<Rightarrow> (False, w)
      | Some 0 \<Rightarrow> (True, w)
      | Some (Suc n) \<Rightarrow> (False, w\<lparr>cancel_after := Some n\<rparr>))"

fun process_files ::
    "ingest_libs \<Rightarrow> processor \<Rightarrow> string \<Rightarrow> bool \<Rightarrow> string list \<Rightarrow> nat \<times> nat \<Rightarrow> ingest
     \<Rightarrow> (go_error option \<times> nat \<times> nat) \<times> ingest" where
  "process_files L p app legacyApp [] (a, f) w = ((None, a, f), w)"
| "process_files L p app legacyApp (file # files) (a, f) w =
     (case poll_ctx w of (done, w0) \<Rightarrow>
        if done then ((Some (Sentinel ErrContextCanceled), a, f), w0)
        else case processFile L p file app legacyApp w0 of ((da, df), w1) \<Rightarrow>
          process_files L p app legacyApp files (a + da, f + df) w1)"

text \<open>\<open>float64(f) / float64(a) > 1 - 0.85\<close>, for counts below \<open>2 ^ 50\<close>, where the rounded quotient
  compares with the rounded constant as the fractions do.\<close>

definition over_threshold :: "nat \<Rightarrow> nat \<Rightarrow> bool" where
  "over_threshold a f \<longleftrightarrow> a > 0 \<and> 20 * f > 3 * a"

definition process_errors :: "string \<Rightarrow> go_error option \<Rightarrow> ingest \<Rightarrow> (go_error + unit) \<times> ingest" where
  "process_errors app err w =
     (case err of
        None \<Rightarrow> (Inr (), w)
      | Some e \<Rightarrow> (Inl e, if errors_is e ErrContextCanceled then w else log_metric (ProcessErrors app) w))"

definition Process :: "ingest_libs \<Rightarrow> processor \<Rightarrow> string \<Rightarrow> (ingest, unit) io" where
  "Process L p app w =
     (let dir = path_join [p_reportsDir p, app] in
      case os_mkdir_all dir 488 w of
        (Inl _, w1) \<Rightarrow> process_errors app (Some (Errorf ''failed to create directory'')) w1
      | (Inr _, w1) \<Rightarrow>
         (case getJSONFiles dir w1 of
            (Inl _, w2) \<Rightarrow> process_errors app (Some (Errorf ''failed to get JSON files'')) w2
          | (Inr (files, dirSize), w2) \<Rightarrow>
             (let w3 = log_metric (CacheSizeGauge app dirSize) (log_metric (CacheGauge app (length files)) w2) in
              case process_files L p app (isLegacy app) files (0, 0) w3 of
                ((err, a, f), w4) \<Rightarrow>
                  process_errors app
                    (if over_threshold a f then errors_join [Some (Sentinel ErrDatabaseErrors), err] else err) w4)))"

end
