(* ===== verification/Sanitizer.thy ===== *)
theory Sanitizer
  imports Processor "HOL-Library.Sublist"
begin

text \<open>
  What \<open>sanitizeInvalidUnicodeEscapes\<close> achieves: its output has no escape of the null character
  left, as long as the input is, and what \<open>json.Unmarshal\<close> then decodes holds no null character
  in any string or key, which is what PostgreSQL asks for.
\<close>

lemmas sanitize_unfold = sanitizeInvalidUnicodeEscapes.simps

lemma sanitize_Nil [simp]: "sanitizeInvalidUnicodeEscapes [] = []"
  by (subst sanitize_unfold) simp

lemma sanitize_match: "sanitizeInvalidUnicodeEscapes (null_escape @ s) = replacement_escape @ sanitizeInvalidUnicodeEscapes s"
  by (subst sanitize_unfold) (simp add: null_escape_def has_prefix_def)

lemma sanitize_other:
  "\<not> has_prefix (c # cs) null_escape \<Longrightarrow>
   sanitizeInvalidUnicodeEscapes (c # cs) = c # sanitizeInvalidUnicodeEscapes cs"
  by (subst sanitize_unfold) simp

lemma sanitize_cases:
  obtains "s = []" | c cs where "s = c # cs" "\<not> has_prefix s null_escape"
  | t where "s = null_escape @ t"
proof (cases s)
  case (Cons c cs)
  show ?thesis
  proof (cases "has_prefix s null_escape")
    case True
    then have "s = null_escape @ drop (length null_escape) s"
      by (metis append_take_drop_id has_prefix_def)
    then show ?thesis by (rule that(3))
  qed (use Cons that(2) in simp)
qed (use that(1) in simp)

lemma sanitize_induct [case_names Nil other match]:
  assumes "P []" and "\<And>c cs. \<not> has_prefix (c # cs) null_escape \<Longrightarrow> P cs \<Longrightarrow> P (c # cs)"
    and "\<And>t. P t \<Longrightarrow> P (null_escape @ t)"
  shows "P s"
proof (induction "length s" arbitrary: s rule: less_induct)
  case less
  show ?case
  proof (cases s rule: sanitize_cases)
    case (3 t)
    then have "P t" using less by (simp add: null_escape_def)
    then show ?thesis using assms(3) 3 by simp
  qed (use assms(1,2) less in auto)
qed

lemma length_sanitize: "length (sanitizeInvalidUnicodeEscapes s) = length s"
proof (induction s rule: sanitize_induct)
  case (match t)
  then show ?case unfolding sanitize_match by (simp add: null_escape_def replacement_escape_def)
qed (simp_all add: sanitize_other)

lemma has_prefix_Cons: "has_prefix (c # cs) (d # ds) \<longleftrightarrow> c = d \<and> has_prefix cs ds"
  by (auto simp: has_prefix_def)

lemma has_prefix_Nil [simp]: "has_prefix s []" "has_prefix [] (d # ds) = False"
  by (simp_all add: has_prefix_def)

text \<open>A pattern without a reverse solidus is found in the output where it is in the input.\<close>

lemma sanitize_prefix:
  "bslash \<notin> set x \<Longrightarrow> has_prefix (sanitizeInvalidUnicodeEscapes s) x = has_prefix s x"
proof (induction x arbitrary: s)
  case (Cons y ys)
  show ?case
  proof (cases s rule: sanitize_cases)
    case (2 c cs)
    then show ?thesis using Cons by (simp add: sanitize_other has_prefix_Cons)
  next
    case (3 t)
    have "has_prefix (replacement_escape @ u) (y # ys) = False" "has_prefix (null_escape @ u) (y # ys) = False" for u
      using Cons.prems by (auto simp: replacement_escape_def null_escape_def has_prefix_Cons)
    with 3 show ?thesis by (simp add: sanitize_match)
  qed simp
qed simp

lemma sanitize_no_escape: "\<not> contains_str (sanitizeInvalidUnicodeEscapes s) null_escape"
proof (induction s rule: sanitize_induct)
  case Nil
  show ?case by (simp add: null_escape_def)
next
  case (other c cs)
  have "\<not> has_prefix (c # sanitizeInvalidUnicodeEscapes cs) null_escape"
    using other(1) sanitize_prefix [of "''u0000''" cs] by (simp add: null_escape_def has_prefix_Cons)
  with other show ?case by (simp add: sanitize_other)
next
  case (match t)
  then show ?case unfolding sanitize_match
    by (simp add: replacement_escape_def null_escape_def has_prefix_Cons)
qed

lemma sanitize_id: "\<not> contains_str s null_escape \<Longrightarrow> sanitizeInvalidUnicodeEscapes s = s"
proof (induction s rule: sanitize_induct)
  case (match t)
  have "contains_str (null_escape @ t) null_escape"
    by (simp add: null_escape_def has_prefix_Cons)
  with match show ?case by simp
qed (simp_all add: sanitize_other)

section \<open>Decoded values\<close>

fun no_null :: "json \<Rightarrow> bool" where
  "no_null (JStr s) = (CHR 0x00 \<notin> set s)"
| "no_null (JArr xs) = list_all no_null xs"
| "no_null (JObj kvs) = list_all (\<lambda>(k, v). CHR 0x00 \<notin> set k \<and> no_null v) kvs"
| "no_null _ = True"

lemma contains_suffix: "suffix t s \<Longrightarrow> contains_str t p \<Longrightarrow> contains_str s p"
  unfolding suffix_def contains_str_iff by (metis append.assoc)

lemma suffix_skip_ws: "suffix (skip_ws s) s"
  by (simp add: skip_ws_def suffix_dropWhile)

lemma hex4_suffix: "hex4 s = Some (n, rest) \<Longrightarrow> suffix rest s"
  by (auto simp: hex4_def suffix_def split: list.splits option.splits)

lemma hex_val_0: "hex_val c = Some 0 \<Longrightarrow> c = CHR ''0''"
proof -
  assume "hex_val c = Some 0"
  then have "(of_char c :: nat) = 48" by (auto simp: hex_val_def Let_def split: if_splits)
  then have "c = char_of (48 :: nat)" by (metis char_of_char)
  also have "\<dots> = CHR ''0''" by code_simp
  finally show ?thesis .
qed

lemma hex4_zero: "hex4 s = Some (0, rest) \<Longrightarrow> s = ''0000'' @ rest"
  by (auto simp: hex4_def split: list.splits option.splits dest!: hex_val_0)

lemma hex_val_less: "hex_val c = Some n \<Longrightarrow> n < 16"
  by (auto simp: hex_val_def Let_def split: if_splits)

lemma hex4_less: "hex4 s = Some (n, rest) \<Longrightarrow> n < 65536"
  by (auto simp: hex4_def split: list.splits option.splits dest!: hex_val_less)

lemma char_of_0: "char_of (n :: nat) = CHR 0x00 \<longleftrightarrow> n mod 256 = 0"
proof
  assume "char_of n = CHR 0x00"
  then have "(of_char (char_of n :: char) :: nat) = 0" by simp
  then show "n mod 256 = 0" by simp
next
  assume "n mod 256 = 0"
  then have "(of_char (char_of n :: char) :: nat) = of_char (CHR 0x00)" by simp
  then show "char_of n = CHR 0x00" by (rule of_char_eqI)
qed

lemma char_of_nonnull: "0 < (n :: nat) \<Longrightarrow> n < 256 \<Longrightarrow> char_of n \<noteq> CHR 0x00"
  by (simp add: char_of_0)

lemma utf8_no_null:
  assumes "0 < r" "r < 0x110000"
  shows "CHR 0x00 \<notin> set (utf8 r)"
proof -
  have "r div 262144 < 5" using assms(2) by simp
  moreover have "r < 2048 \<Longrightarrow> r div 64 < 32" "r < 65536 \<Longrightarrow> r div 4096 < 16" by simp_all
  moreover have "r mod 64 < 64" "r div 64 mod 64 < 64" "r div 4096 mod 64 < 64" by simp_all
  ultimately show ?thesis
    using assms(1) unfolding utf8_def by (auto simp: char_of_nonnull dest!: sym [of "CHR 0x00"])
qed

lemma escape_rune_ok:
  assumes "escape_rune r rest = (rune, rest')" "0 < r" "r < 65536"
  shows "suffix rest' rest" "0 < rune" "rune < 0x110000"
proof -
  have s: "suffix more' (b # u # more)" if h: "hex4 more = Some (lo, more')" for b u more lo more'
    using hex4_suffix [OF h] by (simp add: suffix_Cons)
  show "suffix rest' rest" "0 < rune" "rune < 0x110000"
    using assms s by (auto simp: escape_rune_def split: if_splits list.splits option.splits)
qed

lemma read_string_no_null:
  "read_string s = Some (t, rest) \<Longrightarrow> \<not> contains_str s null_escape \<Longrightarrow> CHR 0x00 \<notin> set t \<and> suffix rest s"
proof (induction s arbitrary: t rule: read_string.induct)
  case (1 s)
  obtain c cs where s: "s = c # cs" using "1.prems" by (subst (asm) read_string.simps) (cases s; simp)
  show ?case
  proof (cases "c = CHR 0x22")
    case True
    with "1.prems" s show ?thesis by (subst (asm) read_string.simps) (auto simp: suffix_Cons)
  next
    case nq: False
    show ?thesis
    proof (cases "c = bslash")
      case False
      with "1.prems" s nq obtain t' where t: "read_string cs = Some (t', rest)" "t = c # t'" "\<not> (of_char c :: nat) < 32"
        by (subst (asm) read_string.simps) (auto split: if_splits)
      then have "c \<noteq> CHR 0x00" by auto
      with 1(3) [OF s nq False t(3) t(1)] 1(5) s t show ?thesis by (auto simp: suffix_Cons)
    next
      case True
      obtain e es where cs: "cs = e # es" using "1.prems" s nq True
        by (subst (asm) read_string.simps) (cases cs; simp)
      show ?thesis
      proof (cases "e = CHR ''u''")
        case eu: True
        obtain r rest1 where h: "hex4 es = Some (r, rest1)"
          using "1.prems" s nq True cs eu by (subst (asm) read_string.simps) (auto split: option.splits)
        obtain rune rest2 where e: "escape_rune r rest1 = (rune, rest2)" by fastforce
        obtain t' where t: "read_string rest2 = Some (t', rest)" "t = utf8 rune @ t'"
          using "1.prems" s nq True cs eu h e by (subst (asm) read_string.simps) auto
        have "r \<noteq> 0"
        proof
          assume "r = 0"
          then have "s = null_escape @ rest1"
            using hex4_zero [of es rest1] h s True cs eu by (simp add: null_escape_def)
          then show False using "1.prems"(2) contains_str_iff [of s null_escape] by (metis append_Nil)
        qed
        then have r: "0 < r" by simp
        note ok = escape_rune_ok [OF e r hex4_less [OF h]]
        have suf: "suffix rest2 s" using ok(1) hex4_suffix [OF h] s cs
          by (meson suffix_ConsI suffix_order.trans)
        then have "\<not> contains_str rest2 null_escape" using contains_suffix "1.prems"(2) by blast
        then have "CHR 0x00 \<notin> set t' \<and> suffix rest rest2"
          using 1(1) [OF s nq True cs eu h refl e [symmetric] t(1)] by simp
        then show ?thesis using t(2) utf8_no_null [OF ok(2,3)] suf suffix_order.trans by auto
      next
        case False
        obtain x t' where x: "simple_escape e = Some x" "read_string es = Some (t', rest)" "t = x # t'"
          using "1.prems" s nq True cs False by (subst (asm) read_string.simps) (auto split: option.splits)
        have "x \<noteq> CHR 0x00" using x(1) by (auto simp: simple_escape_def split: if_splits)
        moreover have "\<not> contains_str es null_escape" using "1.prems"(2) s cs by simp
        ultimately show ?thesis using 1(2) [OF s nq True cs False x(1,2)] x(3) s cs by (auto simp: suffix_Cons)
      qed
    qed
  qed
qed

text \<open>The readers of numbers return the text they consumed.\<close>

lemma span_digits_parts: "span_digits t = (a, b) \<Longrightarrow> t = a @ b"
  by (auto simp: span_digits_def)

lemma read_int_part_append: "read_int_part t = Some (n, r) \<Longrightarrow> t = n @ r"
  unfolding read_int_part_def
  by (cases "span_digits t") (auto dest!: span_digits_parts split: list.splits if_splits)

lemma read_frac_append: "read_frac t = Some (n, r) \<Longrightarrow> t = n @ r"
proof (cases t)
  case (Cons c cs)
  assume "read_frac t = Some (n, r)"
  then show ?thesis unfolding read_frac_def Cons
    by (cases "span_digits cs") (auto dest!: span_digits_parts split: list.splits if_splits)
qed (simp add: read_frac_def)

lemma read_exp_append: "read_exp t = Some (n, r) \<Longrightarrow> t = n @ r"
proof (cases t)
  case (Cons c cs)
  assume h: "read_exp t = Some (n, r)"
  obtain sg ds where p: "(case cs of x # xs \<Rightarrow> if x = CHR ''+'' \<or> x = CHR ''-'' then ([x], xs)
      else ([], cs) | [] \<Rightarrow> ([], [])) = (sg, ds)" by fastforce
  then have "cs = sg @ ds" by (auto split: list.splits if_splits)
  with h p show ?thesis unfolding read_exp_def Cons Let_def
    by (cases "span_digits ds") (auto dest!: span_digits_parts split: list.splits if_splits)
qed (simp add: read_exp_def)

lemma read_number_suffix: "read_number s = Some (n, rest) \<Longrightarrow> suffix rest s"
proof -
  assume h: "read_number s = Some (n, rest)"
  obtain sg s1 where p: "(case s of c # cs \<Rightarrow> if c = CHR ''-'' then ([c], cs) else ([], s) | [] \<Rightarrow> ([], [])) = (sg, s1)"
    by fastforce
  then have "s = sg @ s1" by (auto split: list.splits if_splits)
  moreover obtain i s2 f s3 e s4 where "read_int_part s1 = Some (i, s2)" "read_frac s2 = Some (f, s3)"
    "read_exp s3 = Some (e, s4)" "rest = s4"
    using h p by (auto simp: read_number_def split: option.splits)
  ultimately have "s = (sg @ i @ f @ e) @ rest"
    using read_int_part_append read_frac_append read_exp_append by (metis append.assoc)
  then show ?thesis by (rule suffixI)
qed

lemma read_lit_suffix: "read_lit l v s = Some (x, rest) \<Longrightarrow> suffix rest s \<and> x = v"
  by (auto simp: read_lit_def suffix_drop split: if_splits)

text \<open>One level of the reader, then the reader itself.\<close>

definition clean_reader :: "('a \<Rightarrow> bool) \<Rightarrow> 'a reader \<Rightarrow> bool" where
  "clean_reader ok rd \<longleftrightarrow> (\<forall>d s v rest. rd d s = Some (v, rest) \<longrightarrow> \<not> contains_str s null_escape \<longrightarrow>
     ok v \<and> suffix rest s)"

lemma clean_readerD:
  "clean_reader ok rd \<Longrightarrow> rd d s = Some (v, rest) \<Longrightarrow> \<not> contains_str s null_escape \<Longrightarrow> ok v \<and> suffix rest s"
  by (simp add: clean_reader_def)

lemma skip_ws_tail: "skip_ws s = c # cs \<Longrightarrow> suffix cs s"
  using suffix_skip_ws [of s] by (metis suffix_ConsD)

abbreviation "members_ok \<equiv> list_all (\<lambda>(k, v). CHR 0x00 \<notin> set k \<and> no_null v)"

lemma value_body_clean:
  assumes "clean_reader members_ok m" "clean_reader (list_all no_null) e"
  shows "clean_reader no_null (value_body m e)"
  unfolding clean_reader_def
proof (intro allI impI)
  fix d s v rest
  assume h: "value_body m e d s = Some (v, rest)" and nc: "\<not> contains_str s null_escape"
  obtain c cs where s: "skip_ws s = c # cs" using h by (auto simp: value_body_def split: list.splits)
  have suf: "suffix cs s" "suffix (c # cs) s" using skip_ws_tail [OF s] suffix_skip_ws [of s] s by simp_all
  have ncs: "\<not> contains_str cs null_escape" using suf(1) nc contains_suffix by blast
  have inner: "suffix xs cs" if "skip_ws cs = x # xs" for x xs using skip_ws_tail [OF that] .
  have M: "members_ok kvs \<and> suffix r cs" if "m k cs = Some (kvs, r)" for k kvs r
    using clean_readerD [OF assms(1) that ncs] .
  have E: "list_all no_null xs \<and> suffix r cs" if "e k cs = Some (xs, r)" for k xs r
    using clean_readerD [OF assms(2) that ncs] .
  have S: "CHR 0x00 \<notin> set t \<and> suffix r cs" if "read_string cs = Some (t, r)" for t r
    using read_string_no_null [OF that ncs] .
  have "no_null v \<and> (suffix rest cs \<or> suffix rest (c # cs))"
    using h s inner M E S
    by (auto simp: value_body_def split: if_splits list.splits dest: read_lit_suffix read_number_suffix)
  then show "no_null v \<and> suffix rest s" using suf suffix_order.trans by blast
qed

lemma elems_body_clean:
  assumes "clean_reader no_null v" "clean_reader (list_all no_null) e"
  shows "clean_reader (list_all no_null) (elems_body v e)"
  unfolding clean_reader_def
proof (intro allI impI)
  fix d s xs rest
  assume h: "elems_body v e d s = Some (xs, rest)" and nc: "\<not> contains_str s null_escape"
  obtain x r where x: "v d s = Some (x, r)" using h by (auto simp: elems_body_def split: option.splits)
  have ok: "no_null x" "suffix r s" using clean_readerD [OF assms(1) x nc] by auto
  obtain c cs where c: "skip_ws r = c # cs" using h x by (auto simp: elems_body_def split: list.splits)
  have suf: "suffix cs s" using skip_ws_tail [OF c] ok(2) suffix_order.trans by blast
  then have ncs: "\<not> contains_str cs null_escape" using nc contains_suffix by blast
  have "list_all no_null xs \<and> suffix rest cs"
    using h x c ok(1) clean_readerD [OF assms(2) _ ncs] by (auto simp: elems_body_def split: if_splits)
  then show "list_all no_null xs \<and> suffix rest s" using suf suffix_order.trans by blast
qed

lemma members_body_clean:
  assumes "clean_reader no_null v" "clean_reader members_ok m"
  shows "clean_reader members_ok (members_body v m)"
  unfolding clean_reader_def
proof (intro allI impI)
  fix d s kvs rest
  assume h: "members_body v m d s = Some (kvs, rest)" and nc: "\<not> contains_str s null_escape"
  obtain cs k r where k: "skip_ws s = CHR 0x22 # cs" "read_string cs = Some (k, r)"
    using h by (auto simp: members_body_def split: list.splits if_splits option.splits)
  obtain c2 cs2 where c2: "skip_ws r = c2 # cs2" using h k
    by (auto simp: members_body_def split: list.splits)
  obtain x r2 where x: "v d cs2 = Some (x, r2)" using h k c2
    by (auto simp: members_body_def split: if_splits option.splits)
  obtain c3 cs3 where c3: "skip_ws r2 = c3 # cs3" using h k c2 x
    by (auto simp: members_body_def split: if_splits list.splits)
  have "suffix cs s" using skip_ws_tail [OF k(1)] .
  moreover from this have kr: "CHR 0x00 \<notin> set k" "suffix r cs"
    using read_string_no_null [OF k(2)] nc contains_suffix by blast+
  ultimately have s2: "suffix cs2 s" using skip_ws_tail [OF c2] suffix_order.trans by blast
  then have xr: "no_null x" "suffix r2 cs2"
    using clean_readerD [OF assms(1) x] nc contains_suffix by blast+
  then have s3: "suffix cs3 s" using skip_ws_tail [OF c3] s2 suffix_order.trans by blast
  then have nc3: "\<not> contains_str cs3 null_escape" using nc contains_suffix by blast
  have "members_ok kvs \<and> suffix rest cs3"
    using h k c2 x c3 kr(1) xr(1) clean_readerD [OF assms(2) _ nc3]
    by (auto simp: members_body_def split: if_splits)
  then show "members_ok kvs \<and> suffix rest s" using s3 suffix_order.trans by blast
qed

lemma readers_clean:
  "clean_reader no_null (read_value n) \<and> clean_reader (list_all no_null) (read_elems n) \<and>
   clean_reader members_ok (read_members n)"
proof (induction n)
  case 0
  show ?case by (simp add: clean_reader_def)
next
  case (Suc n)
  have e: "read_value (Suc n) = value_body (read_members n) (read_elems n)"
    "read_elems (Suc n) = elems_body (read_value n) (read_elems n)"
    "read_members (Suc n) = members_body (read_value n) (read_members n)"
    by (intro ext; simp)+
  show ?case unfolding e using Suc value_body_clean elems_body_clean members_body_clean by blast
qed

lemma json_parse_no_null: "json_parse s = Some v \<Longrightarrow> \<not> contains_str s null_escape \<Longrightarrow> no_null v"
  using conjunct1 [OF readers_clean, THEN clean_readerD] unfolding json_parse_def
  by (auto simp del: read_value.simps split: option.splits if_splits)

section \<open>Properties\<close>


end
