(* ===== verification/Walk_Facts.thy ===== *)
theory Walk_Facts
  imports Os_Frames
begin

text \<open>
  Walking a whole tree with a callback that never stops: the callback sees every entry below the
  root, and the depth bound of the walk is never reached.
\<close>

text \<open>The entries in the order of the walk, each with whether it is a directory.\<close>

fun tree_paths :: "nat \<Rightarrow> fsys \<Rightarrow> string \<Rightarrow> bool \<Rightarrow> (string \<times> bool) list" where
  "tree_paths 0 f path isd = []"
| "tree_paths (Suc n) f path isd =
     (path, isd) #
     (if isd then
        concat (map (\<lambda>nm. tree_paths n f (path_join [path, nm]) (is_dir_at f (resolve path @ [nm])))
          (dir_names f (resolve path)))
      else [])"

lemma tree_depth_ge: "k \<in> fst ` set f \<Longrightarrow> length k \<le> tree_depth f"
  unfolding tree_depth_def by (rule fold_max_ge) auto

lemma dir_name_key: "n \<in> set (dir_names f d) \<Longrightarrow> length d < tree_depth f"
proof -
  assume "n \<in> set (dir_names f d)"
  then have "d @ [n] \<in> fst ` set f" by (simp add: set_dir_names)
  then show ?thesis using tree_depth_ge by fastforce
qed

lemma walk_all:
  assumes fn: "\<And>p d c. fn p d None c = (WContinue, g p d c)"
    and w: "quiet w" "fs_wf (fs w)"
    and "path \<noteq> []" "isd \<Longrightarrow> is_dir_at (fs w) (resolve path)" "n > 0"
    and "tree_depth (fs w) < n + length (resolve path)"
  shows "walk_dir n fn path isd c w =
    ((WContinue, fold (\<lambda>(p, d). g p d) (tree_paths n (fs w) path isd) c), w)"
  using assms(4-7)
proof (induction n arbitrary: path isd c)
  case (Suc n)
  show ?case
  proof (cases isd)
    case False
    then show ?thesis using fn by simp
  next
    case True
    let ?f = "fs w" and ?D = "resolve path"
    let ?sub = "\<lambda>nm. tree_paths n ?f (path_join [path, nm]) (is_dir_at ?f (?D @ [nm]))"
    have rd: "os_read_dir path w = (Inr (map (\<lambda>nm. (nm, is_dir_at ?f (?D @ [nm]))) (dir_names ?f ?D)), w)"
      using os_read_dir_quiet [OF w(1) Suc.prems(1)] Suc.prems(2) True by simp
    have "walk_list n fn path (map (\<lambda>nm. (nm, is_dir_at ?f (?D @ [nm]))) ns) c w =
        ((WContinue, fold (\<lambda>(p, d). g p d) (concat (map ?sub ns)) c), w)"
      if sub: "set ns \<subseteq> set (dir_names ?f ?D)" for ns c
      using sub
    proof (induction ns arbitrary: c)
      case (Cons nm ns)
      have nm: "nm \<in> set (dir_names ?f ?D)" using Cons.prems by simp
      then have pl: "plain_name nm" using dir_names_plain w(2) by blast
      have r: "resolve (path_join [path, nm]) = ?D @ [nm]" using pl by (rule resolve_join_plain)
      have "length ?D < tree_depth ?f" using nm by (rule dir_name_key)
      then have "walk_dir n fn (path_join [path, nm]) (is_dir_at ?f (?D @ [nm])) c w =
          ((WContinue, fold (\<lambda>(p, d). g p d) (?sub nm) c), w)"
        using Suc.prems(4) pl
        by (intro Suc.IH) (simp_all add: r path_join_nonempty)
      then show ?case using Cons by simp
    qed simp
    then show ?thesis using fn rd True by simp
  qed
qed simp

lemma path_walk_all:
  assumes "\<And>p d c. fn p d None c = (WContinue, g p d c)"
    and "quiet w" "fs_wf (fs w)" "root \<noteq> []" "is_dir_at (fs w) (resolve root)"
  shows "path_walk_dir fn root c w =
    (Inr (fold (\<lambda>(p, d). g p d) (tree_paths (Suc (Suc (tree_depth (fs w)))) (fs w) root True) c), w)"
proof -
  obtain m where "fs_get (fs w) (resolve root) = Some (DirN m)"
    using assms(5) by (auto simp: is_dir_at_def split: option.splits node.splits)
  then have st: "os_stat root w = (Inr (DirN m), w)" using assms(2,4) by (simp add: os_stat_quiet)
  have "walk_dir (Suc (Suc (tree_depth (fs w)))) fn root True c w =
    ((WContinue, fold (\<lambda>(p, d). g p d) (tree_paths (Suc (Suc (tree_depth (fs w)))) (fs w) root True) c), w)"
    by (rule walk_all [where g = g]) (use assms in auto)
  then show ?thesis using st assms(5) by (simp add: path_walk_dir_def del: walk_dir.simps tree_paths.simps)
qed

text \<open>Every file below the root is among the entries.\<close>

lemma tree_paths_complete:
  assumes "fs_wf f" "is_file_at f (resolve path @ ns)" "list_all plain_name ns" "length ns < n"
    and "isd \<longleftrightarrow> ns \<noteq> []"
  shows "\<exists>p. (p, False) \<in> set (tree_paths n f path isd) \<and> resolve p = resolve path @ ns \<and>
    (ns \<noteq> [] \<longrightarrow> path_ext p = path_ext (last ns) \<and> p \<noteq> [])"
  using assms(2-5)
proof (induction ns arbitrary: path n isd)
  case Nil
  then obtain k where "n = Suc k" by (cases n) auto
  with Nil show ?case by (intro exI [of _ path]) simp
next
  case (Cons m ms)
  obtain k where n: "n = Suc k" using Cons.prems(3) by (cases n) auto
  let ?q = "path_join [path, m]" and ?D = "resolve path"
  have m: "plain_name m" using Cons.prems(2) by simp
  have r: "resolve ?q = ?D @ [m]" using m by (rule resolve_join_plain)
  have full: "is_file_at f ((?D @ [m]) @ ms)" using Cons.prems(1) by simp
  have pre: "ms \<noteq> [] \<longrightarrow> is_dir_at f (?D @ [m])"
  proof
    assume "ms \<noteq> []"
    obtain d md where g: "fs_get f ((?D @ [m]) @ ms) = Some (FileN d md)"
      using full by (auto simp: is_file_at_def split: option.splits node.splits)
    then have "is_dir_at f (butlast ((?D @ [m]) @ ms))"
      using fs_get_Some_wf [OF assms(1) g] is_file_not_implicit [OF g] by (auto simp: parent_is_dir_def)
    then have "is_dir_at f ((?D @ [m]) @ butlast ms)" using \<open>ms \<noteq> []\<close> by (simp add: butlast_append)
    from wf_prefix_dir [OF assms(1) this, of "length (?D @ [m])"] show "is_dir_at f (?D @ [m])" by simp
  qed
  have isd: "is_dir_at f (?D @ [m]) \<longleftrightarrow> ms \<noteq> []"
    using pre full dir_not_file [of f "?D @ [m]"] by (cases "ms = []") auto
  have "fs_get f (?D @ [m]) \<noteq> None"
    using isd full by (cases "ms = []") (auto simp: is_file_at_def is_dir_at_def split: option.splits)
  then have mem: "m \<in> set (dir_names f ?D)" using dir_names_iff [OF assms(1) m] by blast
  obtain p where p: "(p, False) \<in> set (tree_paths k f ?q (is_dir_at f (?D @ [m])))"
    "resolve p = (?D @ [m]) @ ms" "ms \<noteq> [] \<longrightarrow> path_ext p = path_ext (last ms) \<and> p \<noteq> []"
    using Cons.IH [of ?q k "is_dir_at f (?D @ [m])"] full Cons.prems isd n unfolding r by auto
  have e: "path_ext p = path_ext (last (m # ms)) \<and> p \<noteq> []"
  proof (cases "ms = []")
    case True
    then have "p = ?q" using p(1) isd by (cases k) auto
    then show ?thesis using True m by (simp add: path_join_nonempty)
  qed (use p(3) in simp)
  have "(p, False) \<in> set (tree_paths n f path isd)"
    using p(1) mem Cons.prems(4) n by auto
  with p(2) e show ?case by auto
qed

text \<open>And every file among the entries is one on the disk.\<close>

lemma tree_paths_sound:
  assumes "fs_wf f" "(p, False) \<in> set (tree_paths n f path isd)" "path \<noteq> []" "isd \<longleftrightarrow> is_dir_at f (resolve path)"
    and "fs_get f (resolve path) \<noteq> None"
  shows "p \<noteq> [] \<and> is_file_at f (resolve p) \<and> (\<exists>ns. resolve p = resolve path @ ns \<and> list_all plain_name ns)"
  using assms(2-5)
proof (induction n arbitrary: path isd)
  case (Suc n)
  show ?case
  proof (cases "(p, False) = (path, isd)")
    case True
    then have "p = path" "is_file_at f (resolve path)"
      using Suc.prems(2-4) dir_or_missing [of f "resolve path"] by (metis prod.inject)+
    then show ?thesis using Suc.prems(2) by simp
  next
    case False
    then obtain nm where nm: "nm \<in> set (dir_names f (resolve path))"
      "(p, False) \<in> set (tree_paths n f (path_join [path, nm]) (is_dir_at f (resolve path @ [nm])))"
      using Suc.prems(1) by (auto split: if_splits)
    have pl: "plain_name nm" using dir_names_plain assms(1) nm(1) by blast
    have r: "resolve (path_join [path, nm]) = resolve path @ [nm]" using pl by (rule resolve_join_plain)
    have "fs_get f (resolve path @ [nm]) \<noteq> None" using nm(1) dir_names_iff [OF assms(1) pl] by blast
    then obtain ns where "p \<noteq> []" "is_file_at f (resolve p)" "resolve p = resolve path @ nm # ns" "list_all plain_name ns"
      using Suc.IH [OF nm(2)] r pl by (auto simp: path_join_nonempty)
    then show ?thesis using pl by (auto intro!: exI [of _ "nm # ns"])
  qed
qed simp

end
