(* ===== verification/Processor_Facts.thy ===== *)
theory Processor_Facts
  imports Processor Walk_Facts
begin

text \<open>
  What processing the reports does: how uploads are counted, that a valid report leaves the disk
  only when its row is in the database, and that a healthy run drains the directory.
\<close>

section \<open>Frames\<close>

text \<open>The calls of the operating system do not touch the rest of the ingest state.\<close>

lemma more_ingest:
  fixes w w' :: ingest
  assumes "os.more w' = os.more w"
  shows "db_rows w' = db_rows w" "exec_results w' = exec_results w" "db_now w' = db_now w"
    "uuids w' = uuids w" "cancel_after w' = cancel_after w"
  using assms by (cases w; cases w'; simp)+

lemma os_call_keeps:
  fixes w w' :: ingest
  assumes "framed same_more m" "m w = (r, w')"
  shows "db_rows w' = db_rows w" "exec_results w' = exec_results w" "db_now w' = db_now w"
    "uuids w' = uuids w" "cancel_after w' = cancel_after w" "quiet w \<Longrightarrow> quiet w'"
proof -
  have m: "os.more w' = os.more w" and q: "quiet w \<Longrightarrow> quiet w'"
    using more.framed_elim [OF assms] by (simp_all add: same_more_def)
  show "db_rows w' = db_rows w" "exec_results w' = exec_results w" "db_now w' = db_now w"
    "uuids w' = uuids w" "cancel_after w' = cancel_after w" "quiet w \<Longrightarrow> quiet w'"
    by (rule more_ingest [OF m] q, assumption?)+
qed

lemma same_db:
  "framed (fs_rel (=)) (db_Upload san db rid app r)"
  "framed (fs_rel (=)) (UploadLegacy san db rid d v l)"
  "framed (fs_rel (=)) (UploadInvalid san db rid app raw)"
proof -
  have same: "framed (fs_rel (=)) m" if st: "\<And>w r w'. m w = (r, w') \<Longrightarrow> \<exists>row. stores row w r w'" for m :: "(ingest, unit) io"
    unfolding framed_def fs_rel_def using st stores_fs by (metis prod.collapse)
  show "framed (fs_rel (=)) (db_Upload san db rid app r)" by (rule same) (rule exI, rule db_Upload_stores)
  show "framed (fs_rel (=)) (UploadLegacy san db rid d v l)" by (rule same) (rule exI, rule UploadLegacy_stores)
  show "framed (fs_rel (=)) (UploadInvalid san db rid app raw)" by (rule same) (rule exI, rule UploadInvalid_stores)
qed

lemma same_decodeFile: "framed (fs_rel (=)) (decodeFile dec file)"
  by (auto simp: decodeFile_def Let_def intro!: same_intros split: option.splits)

lemma same_processAndUpload:
  "(\<And>r. framed (fs_rel (=)) (up r)) \<Longrightarrow> framed (fs_rel (=)) (processAndUpload dec file val up)"
  by (auto simp: processAndUpload_def Let_def intro!: same_intros same_decodeFile
      split: option.splits sum.splits)

lemma same_upload_file: "framed (fs_rel (=)) (upload_file L p file rid app legacy)"
  by (auto simp: upload_file_def Let_def intro!: same_processAndUpload same_db split: prod.splits)

lemma getReportID_fs: "getReportID v file w = (rid, w') \<Longrightarrow> \<exists>us. w' = w\<lparr>uuids := us\<rparr>"
  by (auto simp: getReportID_def Let_def split: if_splits intro: exI [of _ "uuids w"])

lemma uploadInvalid_fs: "uploadInvalid L p file rid app w = (r, w') \<Longrightarrow> fs w' = fs w"
proof -
  assume a: "uploadInvalid L p file rid app w = (r, w')"
  obtain x w1 where rd: "os_read_file file w = (x, w1)" by fastforce
  have f1: "fs w1 = fs w" using framed_same [OF same.framed_read_file rd] .
  have "fs w2 = fs w1" if "UploadInvalid san db rid app d w1 = (y, w2)" for san db d y w2
    using framed_same [OF same_db(3) that] .
  with a rd f1 show ?thesis
    by (cases x) (auto simp: uploadInvalid_def Let_def split: if_splits sum.splits prod.splits)
qed

lemma finish_file_fs: "fs (finish_file file app res w) = fs (snd (os_remove file w))"
  by (auto simp: finish_file_def log_metric_def split: prod.splits sum.splits)

section \<open>Counting\<close>

lemma processFile_counts: "processFile L p file app legacy w = ((a, f), w') \<Longrightarrow> f \<le> a \<and> a \<le> 2 \<and> f \<le> 1"
  by (auto simp: processFile_def Let_def split: prod.splits if_splits)

lemma process_files_counts:
  "process_files L p app legacy files (a, f) w = ((e, a', f'), w') \<Longrightarrow>
   a \<le> a' \<and> f \<le> f' \<and> f' - f \<le> a' - a \<and> a' - a \<le> 2 * length files"
proof (induction files arbitrary: a f w)
  case (Cons x files)
  obtain d w0 where p: "poll_ctx w = (d, w0)" by fastforce
  obtain da df w1 where pf: "processFile L p x app legacy w0 = ((da, df), w1)" by (metis surj_pair)
  show ?case
  proof (cases d)
    case True
    with Cons.prems p show ?thesis by simp
  next
    case False
    with Cons.prems p pf have "process_files L p app legacy files (a + da, f + df) w1 = ((e, a', f'), w')"
      by simp
    from Cons.IH [OF this] processFile_counts [OF pf] show ?thesis by auto
  qed
qed simp

section \<open>A valid report is not lost\<close>

lemma os_read_file_next:
  assumes "next_fault w = None" "file \<noteq> []" "file_content (fs w) (resolve file) = Some raw"
  shows "os_read_file file w = (Inr raw, w\<lparr>faults := tl (faults w)\<rparr>)"
  using assms
  by (auto simp: os_read_file_def at_path_def syscall_def fs_read_def file_content_def Let_def
      split: option.splits node.splits)

lemma decodeFile_next:
  assumes "next_fault w = None" "file \<noteq> []" "file_content (fs w) (resolve file) = Some raw"
    and "unmarshal_object (sanitizeInvalidUnicodeEscapes raw) = Some kvs" "dec kvs = Some r"
  shows "decodeFile dec file w = (Inr r, w\<lparr>faults := tl (faults w)\<rparr>)"
  using os_read_file_next [OF assms(1-3)] assms(4,5) by (simp add: decodeFile_def bindE_def Let_def)

text \<open>The row a report is to be stored as: decoded, and valid.\<close>

definition expected_row :: "ingest_libs \<Rightarrow> string \<Rightarrow> string \<Rightarrow> int \<Rightarrow> bool \<Rightarrow> string \<Rightarrow> db_row option" where
  "expected_row L app rid now legacyApp raw =
     Option.bind (unmarshal_object (sanitizeInvalidUnicodeEscapes raw)) (\<lambda>kvs.
       if legacyApp then
         Option.bind (lib_legacy L kvs) (\<lambda>r.
           if validateLegacyReport r = None
           then Some \<lparr>row_table = lib_sanitize L ''ubuntu_report'',
             row_cols = legacy_cols rid now (fst (parseLegacyApp app)) (snd (parseLegacyApp app)) r\<rparr>
           else None)
       else
         Option.bind (lib_target L kvs) (\<lambda>r.
           if validateReport r = None
           then Some \<lparr>row_table = lib_sanitize L app, row_cols = report_cols rid now r\<rparr>
           else None))"

lemma processAndUpload_valid:
  assumes "decodeFile dec file w = (Inr r, w1)" "val r = None" "up r w1 = (x, w2)"
  shows "processAndUpload dec file val up w =
    (case x of Inl e \<Rightarrow> (Inl (Joined [Sentinel ErrUploadFailed, e]), w2) | Inr _ \<Rightarrow> (Inr (), w2))"
  using assms by (simp add: processAndUpload_def bindE_def attempt_def Let_def errors_join_def split: sum.splits)

lemma upload_file_valid:
  assumes "next_fault w = None" "file \<noteq> []" "file_content (fs w) (resolve file) = Some raw"
    and e: "expected_row L app rid (db_now w) legacyApp raw = Some row"
  shows "\<exists>x w2. stores row (w\<lparr>faults := tl (faults w)\<rparr>) x w2 \<and>
    upload_file L p file rid app legacyApp w =
      (case x of Inl e \<Rightarrow> (Inl (Joined [Sentinel ErrUploadFailed, e]), w2) | Inr _ \<Rightarrow> (Inr (), w2))"
proof -
  let ?w = "w\<lparr>faults := tl (faults w)\<rparr>"
  obtain kvs where kvs: "unmarshal_object (sanitizeInvalidUnicodeEscapes raw) = Some kvs"
    using e by (auto simp: expected_row_def bind_eq_Some_conv)
  note dec = decodeFile_next [OF assms(1-3) kvs]
  show ?thesis
  proof (cases legacyApp)
    case True
    obtain r where r: "lib_legacy L kvs = Some r" "validateLegacyReport r = None"
      "row = \<lparr>row_table = lib_sanitize L ''ubuntu_report'',
        row_cols = legacy_cols rid (db_now w) (fst (parseLegacyApp app)) (snd (parseLegacyApp app)) r\<rparr>"
      using e kvs True by (auto simp: expected_row_def bind_eq_Some_conv split: if_splits)
    let ?up = "\<lambda>report. UploadLegacy (lib_sanitize L) (p_db p) rid (fst (parseLegacyApp app)) (snd (parseLegacyApp app)) report"
    obtain x w2 where u: "?up r ?w = (x, w2)" by fastforce
    then have "stores row ?w x w2" using UploadLegacy_stores r(3) by fastforce
    with processAndUpload_valid [where up = ?up and val = validateLegacyReport, OF dec [of "lib_legacy L", OF r(1)] r(2) u]
      True show ?thesis
      by (auto simp: upload_file_def split_beta)
  next
    case False
    obtain r where r: "lib_target L kvs = Some r" "validateReport r = None"
      "row = \<lparr>row_table = lib_sanitize L app, row_cols = report_cols rid (db_now w) r\<rparr>"
      using e kvs False by (auto simp: expected_row_def bind_eq_Some_conv split: if_splits)
    let ?up = "\<lambda>report. db_Upload (lib_sanitize L) (p_db p) rid app report"
    obtain x w2 where u: "?up r ?w = (x, w2)" by fastforce
    then have "stores row ?w x w2" using db_Upload_stores r(3) by fastforce
    with processAndUpload_valid [where up = ?up and val = validateReport, OF dec [of "lib_target L", OF r(1)] r(2) u]
      False show ?thesis
      by (auto simp: upload_file_def)
  qed
qed

lemma finish_file_rows: "db_rows (finish_file file app res w) = db_rows w"
  using os_call_keeps(1) [OF more_calls(3)] by (auto simp: finish_file_def log_metric_def split: prod.splits sum.splits)

lemma next_fault_uuids [simp]: "next_fault (w\<lparr>uuids := us\<rparr>) = next_fault w"
  by (simp add: next_fault_def)

lemma processFile_valid:
  assumes "processFile L p file app legacyApp w = ((a, f), w')"
    and "next_fault w = None" "file \<noteq> []" "file_content (fs w) (resolve file) = Some raw"
    and e: "expected_row L app (fst (getReportID (lib_uuid_valid L) file w)) (db_now w) legacyApp raw = Some row"
  shows "a = 1" and "f = 0 \<Longrightarrow> db_rows w' = db_rows w @ [row]"
    and "f \<noteq> 0 \<Longrightarrow> fs w' = fs w" and "fs w' \<noteq> fs w \<Longrightarrow> row \<in> set (db_rows w')"
proof -
  obtain rid us where g: "getReportID (lib_uuid_valid L) file w = (rid, w\<lparr>uuids := us\<rparr>)"
    using getReportID_fs by (metis surj_pair)
  let ?w = "w\<lparr>uuids := us\<rparr>"
  have h: "next_fault ?w = None" "file_content (fs ?w) (resolve file) = Some raw"
    "expected_row L app rid (db_now ?w) legacyApp raw = Some row"
    using assms(2,4) e g by simp_all
  obtain x w2 where st: "stores row (?w\<lparr>faults := tl (faults ?w)\<rparr>) x w2"
    and up: "upload_file L p file rid app legacyApp ?w =
      (case x of Inl e \<Rightarrow> (Inl (Joined [Sentinel ErrUploadFailed, e]), w2) | Inr _ \<Rightarrow> (Inr (), w2))"
    using upload_file_valid [OF h(1) assms(3) h(2,3), of p] by blast
  have s2: "fs w2 = fs w" using stores_fs [OF st] by simp
  have rows: "x = Inr () \<Longrightarrow> db_rows w2 = db_rows w @ [row]" using st by (auto simp: stores_def)
  show "a = 1" "f = 0 \<Longrightarrow> db_rows w' = db_rows w @ [row]" "f \<noteq> 0 \<Longrightarrow> fs w' = fs w"
    "fs w' \<noteq> fs w \<Longrightarrow> row \<in> set (db_rows w')"
    using assms(1) g up s2 rows
    by (cases x; auto simp: processFile_def Let_def finish_file_rows log_metric_def)+
qed

section \<open>A healthy run\<close>

text \<open>No fault, every statement succeeds, the context is never done.\<close>

definition healthy :: "ingest \<Rightarrow> bool" where
  "healthy w \<longleftrightarrow> quiet w \<and> exec_results w = [] \<and> cancel_after w = None"

lemma healthy_call:
  assumes "framed same_more m" "m w = (r, w')" "healthy w"
  shows "healthy w'"
  using os_call_keeps [OF assms(1,2)] assms(3) by (simp add: healthy_def)

lemma healthy_stores: "stores row w r w' \<Longrightarrow> healthy w \<Longrightarrow> exec_results w' = [] \<Longrightarrow> healthy w'"
  by (auto simp: stores_def healthy_def)

lemma healthy_db_upload:
  assumes "healthy w" "dbpool_open db" "f (san table) = (\<lambda>w. dbpool_Exec (san table) (cols w) w)"
  shows "\<exists>w'. db_upload san db table f w = (Inr (), w') \<and> healthy w' \<and> fs w' = fs w"
proof -
  let ?w = "w\<lparr>exec_results := tl (exec_results w), db_rows := db_rows w @ [\<lparr>row_table = san table, row_cols = cols w\<rparr>]\<rparr>"
  have "f (san table) w = (Inr (), ?w)" using assms by (simp add: dbpool_Exec_def healthy_def Let_def)
  then have "db_upload san db table f w = (Inr (), ?w)" using assms(2) by (simp add: db_upload_def attempt_def)
  then show ?thesis using assms(1) by (auto simp: healthy_def)
qed

lemma healthy_uploads:
  assumes "healthy w" "dbpool_open db"
  shows "\<exists>w'. db_Upload san db rid app r w = (Inr (), w') \<and> healthy w' \<and> fs w' = fs w"
    "\<exists>w'. UploadLegacy san db rid d v l w = (Inr (), w') \<and> healthy w' \<and> fs w' = fs w"
    "\<exists>w'. UploadInvalid san db rid app raw w = (Inr (), w') \<and> healthy w' \<and> fs w' = fs w"
  unfolding db_Upload_def UploadLegacy_def UploadInvalid_def
  by (rule healthy_db_upload [OF assms, where cols = "\<lambda>w. report_cols rid (db_now w) r"],
      auto simp: report_cols_def,
      rule healthy_db_upload [OF assms, where cols = "\<lambda>w. legacy_cols rid (db_now w) d v l"],
      auto simp: legacy_cols_def,
      rule healthy_db_upload [OF assms, where cols = "\<lambda>w. [(''report_id'', DbText rid),
        (''entry_time'', DbTime (db_now w)), (''app_name'', DbText app), (''raw_report'', DbText raw)]"], auto)

lemma healthy_processAndUpload:
  assumes "healthy w" "\<And>r w. healthy w \<Longrightarrow> \<exists>w'. up r w = (Inr (), w') \<and> healthy w' \<and> fs w' = fs w"
    and "\<And>r. \<not> errors_is_opt (val r) ErrUploadFailed"
  shows "\<exists>x w'. processAndUpload dec file val up w = (x, w') \<and> healthy w' \<and> fs w' = fs w \<and>
    (\<forall>e. x = Inl e \<longrightarrow> \<not> errors_is e ErrUploadFailed)"
proof -
  obtain y w1 where rd: "os_read_file file w = (y, w1)" by fastforce
  have h1: "healthy w1" "fs w1 = fs w"
    using healthy_call [OF more_calls(2) rd assms(1)] framed_same [OF same.framed_read_file rd] by auto
  have pe: "y = Inl e \<Longrightarrow> \<exists>n. e = PathError n" for e
    using rd by (auto simp: os_read_file_def at_path_def syscall_def Let_def split: option.splits sum.splits if_splits)
  have "\<exists>z. decodeFile dec file w = (z, w1) \<and> (\<forall>e. z = Inl e \<longrightarrow> \<not> errors_is e ErrUploadFailed)"
  proof (cases y)
    case (Inl e)
    with rd pe show ?thesis by (fastforce simp: decodeFile_def bindE_def)
  next
    case (Inr raw)
    let ?u = "unmarshal_object (sanitizeInvalidUnicodeEscapes raw)"
    show ?thesis using rd Inr
      by (cases ?u; cases "dec (the ?u)") (auto simp: decodeFile_def bindE_def Let_def)
  qed
  then obtain z where dec: "decodeFile dec file w = (z, w1)"
    and z: "\<And>e. z = Inl e \<Longrightarrow> \<not> errors_is e ErrUploadFailed" by blast
  show ?thesis
  proof (cases z)
    case (Inl e)
    with dec z h1 show ?thesis by (simp add: processAndUpload_def bindE_def)
  next
    case (Inr r)
    obtain w2 where "up r w1 = (Inr (), w2)" "healthy w2" "fs w2 = fs w1" using assms(2) [OF h1(1)] by blast
    with dec Inr h1 assms(3) [of r] show ?thesis
      by (auto simp: processAndUpload_def bindE_def attempt_def Let_def split: option.splits)
  qed
qed

lemma validate_errors:
  "\<not> errors_is_opt (validateReport r) ErrUploadFailed" "\<not> errors_is_opt (validateLegacyReport l) ErrUploadFailed"
  by (auto simp: validateReport_def validateLegacyReport_def)

lemma healthy_upload_file:
  assumes "healthy w" "dbpool_open (p_db p)"
  shows "\<exists>x w'. upload_file L p file rid app legacyApp w = (x, w') \<and> healthy w' \<and> fs w' = fs w \<and>
    (\<forall>e. x = Inl e \<longrightarrow> \<not> errors_is e ErrUploadFailed)"
proof (cases legacyApp)
  case True
  then show ?thesis
    unfolding upload_file_def split_beta Let_def
    using healthy_processAndUpload [OF assms(1), of "\<lambda>r. UploadLegacy (lib_sanitize L) (p_db p) rid
        (fst (parseLegacyApp app)) (snd (parseLegacyApp app)) r" validateLegacyReport]
      healthy_uploads(2) [OF _ assms(2)] validate_errors(2) by simp
next
  case False
  then show ?thesis
    unfolding upload_file_def
    using healthy_processAndUpload [OF assms(1), of "\<lambda>r. db_Upload (lib_sanitize L) (p_db p) rid app r" validateReport]
      healthy_uploads(1) [OF _ assms(2)] validate_errors(1) by simp
qed

lemma healthy_uploadInvalid:
  assumes "healthy w" "dbpool_open (p_db p)" "uploadInvalid L p file rid app w = ((b, e), w')"
  shows "healthy w' \<and> fs w' = fs w \<and> (b \<longrightarrow> e = None)"
proof -
  obtain y w1 where rd: "os_read_file file w = (y, w1)" by fastforce
  have h1: "healthy w1" "fs w1 = fs w"
    using healthy_call [OF more_calls(2) rd assms(1)] framed_same [OF same.framed_read_file rd] by auto
  show ?thesis
  proof (cases y)
    case (Inl x)
    with rd assms(3) h1 show ?thesis by (simp add: uploadInvalid_def)
  next
    case (Inr raw)
    obtain w2 where "UploadInvalid (lib_sanitize L) (p_db p) rid app (sanitizeInvalidUnicodeEscapes raw) w1 = (Inr (), w2)"
      "healthy w2" "fs w2 = fs w1" using healthy_uploads(3) [OF h1(1) assms(2)] by blast
    with rd assms(3) h1 Inr show ?thesis by (auto simp: uploadInvalid_def Let_def split: if_splits)
  qed
qed

lemma healthy_log: "healthy (log_metric m w) = healthy w" "fs (log_metric m w) = fs w"
  by (simp_all add: healthy_def log_metric_def)

lemma healthy_finish:
  assumes "healthy w" "file \<noteq> []" "\<not> is_dir_at (fs w) (resolve file)"
  shows "healthy (finish_file file app res w) \<and>
    (\<forall>q. fs_get (fs (finish_file file app res w)) q = (if q = resolve file then None else fs_get (fs w) q))"
proof -
  obtain x w1 where rm: "os_remove file w = (x, w1)" by fastforce
  have h: "healthy w1" using healthy_call [OF more_calls(3) rm assms(1)] .
  have q: "quiet w" using assms(1) by (simp add: healthy_def)
  have "fs_get (fs w1) q = (if q = resolve file then None else fs_get (fs w) q)" for q
  proof (cases "is_file_at (fs w) (resolve file)")
    case True
    then have "\<not> implicit_dir (resolve file)"
      by (auto simp: is_file_at_def split: option.splits node.splits dest: is_file_not_implicit)
    with os_remove_quiet [OF q assms(2) True] rm show ?thesis by (auto simp: fs_get_delete)
  next
    case False
    then have n: "fs_get (fs w) (resolve file) = None" using assms(3) dir_or_missing by blast
    then have "map_of (fs w) (resolve file) = None" "\<not> implicit_dir (resolve file)"
      by (auto simp: fs_get_def split: if_splits)
    then have "w1 = w" using rm q assms(2) by (simp add: os_remove_def at_path_quiet fs_remove_def)
    with n show ?thesis by simp
  qed
  moreover have "healthy (finish_file file app res w) \<and> fs (finish_file file app res w) = fs w1"
    using rm h by (cases x) (simp_all add: finish_file_def healthy_log)
  ultimately show ?thesis by simp
qed

lemma healthy_processFile:
  assumes "healthy w" "dbpool_open (p_db p)" "file \<noteq> []" "\<not> is_dir_at (fs w) (resolve file)"
  shows "\<exists>a w'. processFile L p file app legacyApp w = ((a, 0), w') \<and> healthy w' \<and>
    (\<forall>q. fs_get (fs w') q = (if q = resolve file then None else fs_get (fs w) q))"
proof -
  obtain rid us where g: "getReportID (lib_uuid_valid L) file w = (rid, w\<lparr>uuids := us\<rparr>)"
    using getReportID_fs by (metis surj_pair)
  have h0: "healthy (w\<lparr>uuids := us\<rparr>)" using assms(1) by (simp add: healthy_def)
  obtain x w1 where up: "upload_file L p file rid app legacyApp (w\<lparr>uuids := us\<rparr>) = (x, w1)"
    and h1: "healthy w1" "fs w1 = fs w" and ne: "\<And>e. x = Inl e \<Longrightarrow> \<not> errors_is e ErrUploadFailed"
    using healthy_upload_file [OF h0 assms(2)] by fastforce
  note fin = healthy_finish [OF _ assms(3)]
  show ?thesis
  proof (cases x)
    case (Inr u)
    with g up show ?thesis using fin [OF h1(1)] h1(2) assms(4)
      by (auto simp: processFile_def Let_def)
  next
    case (Inl e)
    obtain b err w2 where ui: "uploadInvalid L p file rid app w1 = ((b, err), w2)" by (metis surj_pair)
    have h2: "healthy w2" "fs w2 = fs w" "b \<longrightarrow> err = None"
      using healthy_uploadInvalid [OF h1(1) assms(2) ui] h1(2) by auto
    with g up ui Inl ne show ?thesis using fin [OF h2(1)] assms(4)
      by (auto simp: processFile_def Let_def)
  qed
qed

lemma healthy_process_files:
  assumes "healthy w" "dbpool_open (p_db p)"
    and "\<forall>x\<in>set files. x \<noteq> [] \<and> \<not> is_dir_at (fs w) (resolve x)"
  shows "\<exists>a' w'. process_files L p app legacyApp files (a, 0) w = ((None, a', 0), w') \<and>
    (\<forall>q. fs_get (fs w') q = (if q \<in> resolve ` set files then None else fs_get (fs w) q))"
  using assms
proof (induction files arbitrary: a w)
  case (Cons x files)
  obtain da w1 where pf: "processFile L p x app legacyApp w = ((da, 0), w1)" "healthy w1"
    "\<And>q. fs_get (fs w1) q = (if q = resolve x then None else fs_get (fs w) q)"
    using healthy_processFile [of w p x L app legacyApp] Cons.prems by auto
  have "\<forall>y\<in>set files. y \<noteq> [] \<and> \<not> is_dir_at (fs w1) (resolve y)"
    using Cons.prems(3) pf(3) by (auto simp: is_dir_at_def)
  then obtain a' w' where "process_files L p app legacyApp files (a + da, 0) w1 = ((None, a', 0), w')"
    "\<And>q. fs_get (fs w') q = (if q \<in> resolve ` set files then None else fs_get (fs w1) q)"
    using Cons.IH [OF pf(2) Cons.prems(2), of "a + da"] by auto
  moreover have "poll_ctx w = (False, w)" using Cons.prems(1) by (simp add: poll_ctx_def healthy_def)
  ultimately show ?case using pf by auto
qed simp

section \<open>Finding the reports\<close>

abbreviation is_report_entry :: "string \<times> bool \<Rightarrow> bool" where
  "is_report_entry e \<equiv> \<not> snd e \<and> path_ext (fst e) = ''.json''"

lemma json_walk_collects:
  "fst (fold (\<lambda>(p, d). \<lambda>c. snd (json_walk_fn sz p d None c)) es acc) =
     fst acc @ map fst (filter is_report_entry es)"
  by (induction es arbitrary: acc) (auto simp: json_walk_fn_def)

lemma getJSONFiles_quiet:
  assumes "quiet w" "fs_wf (fs w)" "dir \<noteq> []" "is_dir_at (fs w) (resolve dir)"
  shows "\<exists>n. getJSONFiles dir w = (Inr (map fst (filter is_report_entry
    (tree_paths (Suc (Suc (tree_depth (fs w)))) (fs w) dir True)), n), w)"
proof -
  let ?fn = "json_walk_fn (\<lambda>p. map_option length (file_content (fs w) (resolve p)))"
  have "path_walk_dir ?fn dir ([], 0) w =
    (Inr (fold (\<lambda>(p, d). \<lambda>c. snd (?fn p d None c)) (tree_paths (Suc (Suc (tree_depth (fs w)))) (fs w) dir True) ([], 0)), w)"
    using assms by (intro path_walk_all) (auto simp: json_walk_fn_def)
  moreover have "fst (fold (\<lambda>(p, d). \<lambda>c. snd (?fn p d None c)) es ([], 0)) = map fst (filter is_report_entry es)" for es
    using json_walk_collects [of "\<lambda>p. map_option length (file_content (fs w) (resolve p))" es "([], 0)"] by simp
  ultimately show ?thesis unfolding getJSONFiles_def by (metis (no_types, lifting) prod.collapse)
qed

lemma found_reports:
  assumes "fs_wf f" "dir \<noteq> []" "is_dir_at f (resolve dir)" "n = Suc (Suc (tree_depth f))"
    and "files = map fst (filter is_report_entry (tree_paths n f dir True))"
  shows "\<forall>x\<in>set files. x \<noteq> [] \<and> is_file_at f (resolve x) \<and> (\<exists>ns. resolve x = resolve dir @ ns \<and> list_all plain_name ns)"
    and "is_file_at f (resolve dir @ ns) \<Longrightarrow> ns \<noteq> [] \<Longrightarrow> list_all plain_name ns \<Longrightarrow> path_ext (last ns) = ''.json'' \<Longrightarrow>
      resolve dir @ ns \<in> resolve ` set files"
proof -
  have "fs_get f (resolve dir) \<noteq> None" using assms(3) by (auto simp: is_dir_at_def split: option.splits)
  then show "\<forall>x\<in>set files. x \<noteq> [] \<and> is_file_at f (resolve x) \<and>
      (\<exists>ns. resolve x = resolve dir @ ns \<and> list_all plain_name ns)"
    using tree_paths_sound [OF assms(1) _ assms(2)] assms(3,5) by fastforce
  assume a: "is_file_at f (resolve dir @ ns)" "ns \<noteq> []" "list_all plain_name ns" "path_ext (last ns) = ''.json''"
  obtain d m where g: "fs_get f (resolve dir @ ns) = Some (FileN d m)"
    using a(1) by (auto simp: is_file_at_def split: option.splits node.splits)
  then have "resolve dir @ ns \<in> fst ` set f"
    using fs_get_None_key [OF is_file_not_implicit [OF g]] by force
  then have "length ns < n" using tree_depth_ge assms(4) by fastforce
  then obtain p where "(p, False) \<in> set (tree_paths n f dir True)" "resolve p = resolve dir @ ns"
    "path_ext p = ''.json''"
    using tree_paths_complete [OF assms(1) a(1,3), of n True] a by auto
  moreover from this have "p \<in> set files"
    unfolding assms(5) set_map set_filter by (intro image_eqI [of _ fst "(p, False)"]) auto
  ultimately show "resolve dir @ ns \<in> resolve ` set files" by (metis imageI)
qed

section \<open>The whole run\<close>

lemma process_files_err:
  "process_files L p app legacy files c w = ((e, a, f), w') \<Longrightarrow> e = None \<or> e = Some (Sentinel ErrContextCanceled)"
proof (induction files arbitrary: c w)
  case (Cons x files)
  obtain a0 f0 where c: "c = (a0, f0)" by fastforce
  obtain d w0 where p: "poll_ctx w = (d, w0)" by fastforce
  obtain da df w1 where pf: "processFile L p x app legacy w0 = ((da, df), w1)" by (metis surj_pair)
  show ?case using Cons c p pf by (cases d) auto
qed (metis old.prod.exhaust prod.inject process_files.simps(1))

lemma Process_healthy:
  assumes "healthy w" "fs_wf (fs w)" "dbpool_open (p_db p)" "dir = path_join [p_reportsDir p, app]" "dir \<noteq> []"
    and "creatable (fs w) (resolve dir)"
  shows "\<exists>w' f1 files. Process L p app w = (Inr (), w') \<and> adds_dirs (fs w) f1 \<and>
    (\<forall>q. fs_get (fs w') q = (if q \<in> resolve ` set files then None else fs_get f1 q)) \<and>
    (\<forall>x\<in>set files. \<exists>ns. resolve x = resolve dir @ ns \<and> list_all plain_name ns) \<and>
    (\<forall>ns. is_file_at f1 (resolve dir @ ns) \<longrightarrow> ns \<noteq> [] \<longrightarrow> list_all plain_name ns \<longrightarrow> path_ext (last ns) = ''.json'' \<longrightarrow>
      resolve dir @ ns \<in> resolve ` set files)"
proof -
  have q: "quiet w" using assms(1) by (simp add: healthy_def)
  obtain f1 where f1: "os_mkdir_all dir 488 w = (Inr (), w\<lparr>fs := f1\<rparr>)" "is_dir_at f1 (resolve dir)" "adds_dirs (fs w) f1"
    using os_mkdir_all_quiet [OF q assms(5,6)] by blast
  let ?w1 = "w\<lparr>fs := f1\<rparr>"
  have wf1: "fs_wf f1"
    using wf.frame_elim [OF wf_framed_mkdir_all f1(1)] assms(2) by (simp add: fs_rel_def keeps_wf_def)
  define files where "files = map fst (filter is_report_entry (tree_paths (Suc (Suc (tree_depth f1))) f1 dir True))"
  obtain n where g: "getJSONFiles dir ?w1 = (Inr (files, n), ?w1)"
    using getJSONFiles_quiet [of ?w1 dir] q wf1 assms(5) f1(2) by (auto simp: files_def)
  note found = found_reports [OF wf1 assms(5) f1(2) refl files_def]
  let ?w3 = "log_metric (CacheSizeGauge app n) (log_metric (CacheGauge app (length files)) ?w1)"
  have h3: "healthy ?w3" using assms(1) by (simp add: healthy_log) (simp add: healthy_def)
  have "\<forall>x\<in>set files. x \<noteq> [] \<and> \<not> is_dir_at (fs ?w3) (resolve x)"
    using found(1) dir_not_file by (auto simp: healthy_log)
  then obtain a w' where pf: "process_files L p app (isLegacy app) files (0, 0) ?w3 = ((None, a, 0), w')"
    and fin: "\<And>q. fs_get (fs w') q = (if q \<in> resolve ` set files then None else fs_get f1 q)"
    using healthy_process_files [OF h3 assms(3), of files L app "isLegacy app" 0] by (auto simp: healthy_log)
  have "Process L p app w = (Inr (), w')"
    using f1(1) g pf assms(4) by (simp add: Process_def Let_def over_threshold_def process_errors_def)
  then show ?thesis using f1(3) fin found
    by (intro exI [of _ w'] exI [of _ f1] exI [of _ files]) blast
qed

section \<open>A concrete instance\<close>

definition example_libs :: ingest_libs where
  "example_libs =
     \<lparr>lib_target = (\<lambda>kvs. case obj_lookup kvs ''insightsVersion'' of
        Some (JStr v) \<Rightarrow> Some \<lparr>tm_InsightsVersion = v, tm_CollectionTime = 0, tm_SystemInfo = no_info,
          tm_SourceMetrics = None, tm_OptOut = False, tm_Extras = None\<rparr>
      | _ \<Rightarrow> None),
      lib_legacy = (\<lambda>kvs. Some \<lparr>lm_OptOut = False, lm_Fields = Some kvs\<rparr>),
      lib_uuid_valid = (\<lambda>s. s = ''u''), lib_sanitize = quote_ident\<rparr>"

definition example_processor :: processor where
  "example_processor = \<lparr>p_reportsDir = ''r'', p_db = \<lparr>dbpool_open = True\<rparr>\<rparr>"

definition example_report_text :: string where
  "example_report_text = marshal (JObj [(''insightsVersion'', JStr ''1'')])"

definition example_spool :: ingest where
  "example_spool = example_ingest\<lparr>fs := [([''r''], DirN 493), ([''r'', ''linux''], DirN 488),
     ([''r'', ''linux'', ''u.json''], FileN example_report_text 384),
     ([''r'', ''linux'', ''x.json''], FileN ''?'' 384)]\<rparr>"

section \<open>Properties\<close>





text \<open>C21: the error threshold. Failures never exceed attempts, a file counts at most two attempts,
  and \<open>Process\<close> reports database errors exactly when more than fifteen percent of the attempts
  failed; otherwise it reports the cancellation of the context, if that ended it, or success.\<close>

theorem Process_threshold:
  assumes "Process L p app w = (r, w')" "os_mkdir_all (path_join [p_reportsDir p, app]) 488 w = (Inr (), w1)"
    and "getJSONFiles (path_join [p_reportsDir p, app]) w1 = (Inr (files, n), w2)"
    and "process_files L p app (isLegacy app) files (0, 0)
      (log_metric (CacheSizeGauge app n) (log_metric (CacheGauge app (length files)) w2)) = ((err, a, f), w4)"
  shows "f \<le> a \<and> a \<le> 2 * length files \<and>
    ((\<exists>e. r = Inl e \<and> errors_is e ErrDatabaseErrors) \<longleftrightarrow> 20 * f > 3 * a) \<and>
    (20 * f \<le> 3 * a \<longrightarrow> r = (if err = None then Inr () else Inl (Sentinel ErrContextCanceled)))"
proof -
  have c: "f \<le> a" "a \<le> 2 * length files" using process_files_counts [OF assms(4)] by auto
  have e: "err = None \<or> err = Some (Sentinel ErrContextCanceled)" using process_files_err [OF assms(4)] .
  have "(r, w') = process_errors app
      (if over_threshold a f then errors_join [Some (Sentinel ErrDatabaseErrors), err] else err) w4"
    using assms by (simp add: Process_def Let_def)
  then show ?thesis using c e
    by (auto simp: process_errors_def over_threshold_def errors_join_def split: if_splits)
qed

theorem Process_threshold_witness:
  "\<exists>e w'. Process example_libs example_processor ''linux''
      (example_spool\<lparr>exec_results := [ExecErr (Errorf ''down'')]\<rparr>) = (Inl e, w') \<and> errors_is e ErrDatabaseErrors"
proof -
  let ?w = "example_spool\<lparr>exec_results := [ExecErr (Errorf ''down'')]\<rparr>"
  let ?d = "path_join [p_reportsDir example_processor, ''linux'']"
  define r where "r = Process example_libs example_processor ''linux'' ?w"
  define m where "m = os_mkdir_all ?d 488 ?w"
  have m: "m = (Inr (), snd m)" unfolding m_def by code_simp
  define g where "g = getJSONFiles ?d (snd m)"
  have "fst g = Inr ([''r/linux/u.json'', ''r/linux/x.json''], 24)" unfolding g_def m_def by code_simp
  then have g: "g = (Inr ([''r/linux/u.json'', ''r/linux/x.json''], 24), snd g)" by (metis prod.collapse)
  define q where "q = process_files example_libs example_processor ''linux'' (isLegacy ''linux'')
    [''r/linux/u.json'', ''r/linux/x.json''] (0, 0)
    (log_metric (CacheSizeGauge ''linux'' 24)
      (log_metric (CacheGauge ''linux'' (length [''r/linux/u.json'', ''r/linux/x.json''])) (snd g)))"
  have "fst q = (None, 2, 1)" unfolding q_def g_def m_def by code_simp
  then have q: "q = ((None, 2, 1), snd q)" by (metis prod.collapse)
  have r: "Process example_libs example_processor ''linux'' ?w = (fst r, snd r)" by (simp add: r_def)
  note m' = trans [OF m_def [symmetric] m] and g' = trans [OF g_def [symmetric] g]
    and q' = trans [OF q_def [symmetric] q]
  obtain e where "fst r = Inl e" "errors_is e ErrDatabaseErrors"
    using Process_threshold [OF r m' g' q'] by auto
  then show ?thesis using r by metis
qed

text \<open>The web service and the ingest service agree on the names of old-style reports: the
  application under which the handler stores a report is recognised as legacy, and the
  distribution and the version are read back from it.\<close>

theorem legacy_app_roundtrip:
  assumes "d \<noteq> []" "v \<noteq> []" "slash \<notin> set d" "slash \<notin> set v"
  shows "isLegacy (LegacyReportTag @ ''/'' @ d @ ''/desktop/'' @ v) \<and>
    parseLegacyApp (LegacyReportTag @ ''/'' @ d @ ''/desktop/'' @ v) = (d, v)"
proof -
  have "split_on slash (LegacyReportTag @ ''/'' @ d @ ''/desktop/'' @ v) = [LegacyReportTag, d, ''desktop'', v]"
    using split_on_append [of slash LegacyReportTag "d @ ''/desktop/'' @ v"]
      split_on_append [of slash d "''desktop/'' @ v"] split_on_append [of slash "''desktop''" v] assms(3,4)
    by (simp add: LegacyReportTag_def)
  with assms(1,2) show ?thesis by (simp add: isLegacy_def parseLegacyApp_def)
qed

theorem legacy_app_roundtrip_witness:
  "parseLegacyApp (LegacyReportTag @ ''/'' @ ''ubuntu'' @ ''/desktop/'' @ ''24.04'') = (''ubuntu'', ''24.04'')"
  using legacy_app_roundtrip [of "''ubuntu''" "''24.04''"] by simp

end
