(* ===== verification/Daemon_Process.thy ===== *)
theory Daemon_Process
  imports Prelude
begin

text \<open>
  The process around a service: \<open>run\<close> and \<open>installSignalHandler\<close> of the two \<open>main.go\<close> of
  \<open>server/cmd\<close>, with \<open>Quit\<close> and \<open>WaitReady\<close> of the application. The main goroutine runs the
  command while a second one receives signals from a channel that holds one of them. The service
  itself is a parameter: the steps of its \<open>Run\<close>, its \<open>Quit\<close> and its result, under the contract
  of the locale below.
\<close>

section \<open>State\<close>

datatype os_signal = SIGHUP | SIGINT | SIGTERM

text \<open>What executing the command comes to: it ends, with an error or not, having closed the channel
  \<open>ready\<close> or not; or it has made a service, closed the channel, and runs the service.\<close>

datatype 's startup = Ends "go_error option" bool | Starts 's

fun ready_closed :: "'s startup \<Rightarrow> bool" where
  "ready_closed (Ends e b) = b"
| "ready_closed (Starts s) = True"

datatype main_state =
    Executing
  | RunningService
  | Deferred nat
  | Joining nat
  | Exited nat
  | Killed

datatype handler_state = Receiving | Quitting | HandlerDone

record 's process =
  pr_main :: main_state
  pr_handler :: handler_state
  pr_signals :: "os_signal list"
  pr_stopped :: bool
  pr_ready :: bool
  pr_daemon :: "'s option"

definition process_init :: "'s process" where
  "process_init = \<lparr>pr_main = Executing, pr_handler = Receiving, pr_signals = [], pr_stopped = False,
     pr_ready = False, pr_daemon = None\<rparr>"

section \<open>Steps\<close>

text \<open>The value of \<open>run\<close>, from the error of the command and whether usage messages are silenced.\<close>

definition exit_code :: "go_error option \<Rightarrow> bool \<Rightarrow> nat" where
  "exit_code err silenced =
     (case err of None \<Rightarrow> 0 | Some _ \<Rightarrow> if \<not> silenced then 2 else 1)"

text \<open>Every \<open>close(a.ready)\<close> comes after the last assignment of \<open>a.daemon\<close>, and \<open>Quit\<close> reads the
  daemon only after it: the two are one step.\<close>

definition execute_step :: "bool \<Rightarrow> 's startup \<Rightarrow> 's process \<Rightarrow> 's process" where
  "execute_step silenced st p =
     (case st of
        Ends e b \<Rightarrow> p\<lparr>pr_ready := b, pr_main := Deferred (exit_code e silenced)\<rparr>
      | Starts s \<Rightarrow> p\<lparr>pr_daemon := Some s, pr_ready := True, pr_main := RunningService\<rparr>)"

text \<open>A signal is put in the channel, or lost when the channel is full. Once \<open>signal.Stop\<close> has been
  called the default action is taken: it ends the process.\<close>

definition deliver :: "os_signal \<Rightarrow> 's process \<Rightarrow> 's process" where
  "deliver sig p =
     (if pr_stopped p then p\<lparr>pr_main := Killed\<rparr>
      else if length (pr_signals p) < 1 then p\<lparr>pr_signals := pr_signals p @ [sig]\<rparr>
      else p)"

text \<open>\<open>Hup\<close> prints the stack traces and says not to quit.\<close>

definition Hup :: bool where
  "Hup = False"

text \<open>One turn of the loop of the handler. A closed channel still gives the signals it holds.\<close>

definition handler_turn :: "'s process \<Rightarrow> 's process" where
  "handler_turn p =
     (case pr_signals p of
        sig # rest \<Rightarrow>
          p\<lparr>pr_signals := rest,
            pr_handler := (if sig \<in> {SIGINT, SIGTERM} \<or> Hup then Quitting else Receiving)\<rparr>
      | [] \<Rightarrow> if pr_stopped p then p\<lparr>pr_handler := HandlerDone\<rparr> else p)"

text \<open>\<open>Quit\<close>, once \<open>WaitReady\<close> has returned.\<close>

definition app_Quit :: "('s \<Rightarrow> 's) \<Rightarrow> 's process \<Rightarrow> 's process" where
  "app_Quit quit p = p\<lparr>pr_daemon := map_option quit (pr_daemon p), pr_handler := HandlerDone\<rparr>"

text \<open>The deferred function: \<open>signal.Stop\<close> and \<open>close\<close>, then waiting for the handler.\<close>

definition stop_signals :: "nat \<Rightarrow> 's process \<Rightarrow> 's process" where
  "stop_signals c p = p\<lparr>pr_stopped := True, pr_main := Joining c\<rparr>"

text \<open>The parameters: the steps of the service, its \<open>Quit(false)\<close>, what its \<open>Run\<close> has returned if it
  has, whether usage messages are silenced, and what the command comes to.\<close>

inductive process_step ::
    "('s \<Rightarrow> 's \<Rightarrow> bool) \<Rightarrow> ('s \<Rightarrow> 's) \<Rightarrow> ('s \<Rightarrow> go_error option option) \<Rightarrow> bool \<Rightarrow> 's startup
     \<Rightarrow> 's process \<Rightarrow> 's process \<Rightarrow> bool"
  for work quit result silenced st where
  executes: "pr_main p = Executing \<Longrightarrow> process_step work quit result silenced st p (execute_step silenced st p)"
| runs: "pr_main p = RunningService \<Longrightarrow> pr_daemon p = Some s \<Longrightarrow> work s s' \<Longrightarrow>
    process_step work quit result silenced st p (p\<lparr>pr_daemon := Some s'\<rparr>)"
| run_returns: "pr_main p = RunningService \<Longrightarrow> pr_daemon p = Some s \<Longrightarrow> result s = Some e \<Longrightarrow>
    process_step work quit result silenced st p (p\<lparr>pr_main := Deferred (exit_code e silenced)\<rparr>)"
| stops: "pr_main p = Deferred c \<Longrightarrow> process_step work quit result silenced st p (stop_signals c p)"
| joins: "pr_main p = Joining c \<Longrightarrow> pr_handler p = HandlerDone \<Longrightarrow>
    process_step work quit result silenced st p (p\<lparr>pr_main := Exited c\<rparr>)"
| receives: "pr_handler p = Receiving \<Longrightarrow> pr_signals p \<noteq> [] \<or> pr_stopped p \<Longrightarrow> pr_main p \<noteq> Killed \<Longrightarrow>
    process_step work quit result silenced st p (handler_turn p)"
| quits: "pr_handler p = Quitting \<Longrightarrow> pr_ready p \<Longrightarrow> pr_main p \<noteq> Killed \<Longrightarrow>
    process_step work quit result silenced st p (app_Quit quit p)"
| signalled: "(\<forall>c. pr_main p \<noteq> Exited c) \<Longrightarrow> process_step work quit result silenced st p (deliver sig p)"

inductive_cases process_step_cases: "process_step work quit result silenced st p p'"

inductive process_reach ::
    "('s \<Rightarrow> 's \<Rightarrow> bool) \<Rightarrow> ('s \<Rightarrow> 's) \<Rightarrow> ('s \<Rightarrow> go_error option option) \<Rightarrow> bool \<Rightarrow> 's startup
     \<Rightarrow> 's process \<Rightarrow> bool"
  for work quit result silenced st where
  starts: "process_reach work quit result silenced st process_init"
| goes_on: "process_reach work quit result silenced st p \<Longrightarrow> process_step work quit result silenced st p p' \<Longrightarrow>
    process_reach work quit result silenced st p'"

text \<open>Asked to stop by a signal: it is in the channel, or the handler acts on it.\<close>

definition interrupted :: "'s process \<Rightarrow> bool" where
  "interrupted p \<longleftrightarrow> pr_main p \<noteq> Killed \<and>
     (pr_handler p = Quitting \<or> SIGINT \<in> set (pr_signals p) \<or> SIGTERM \<in> set (pr_signals p))"

lemmas process_defs = execute_step_def deliver_def handler_turn_def app_Quit_def stop_signals_def Hup_def
  process_init_def

section \<open>A handler that waits for a channel nobody closes\<close>

text \<open>While \<open>ready\<close> is open an interrupted process stays interrupted, and its handler cannot end.\<close>

definition stuck :: "'s process \<Rightarrow> bool" where
  "stuck p \<longleftrightarrow> \<not> pr_ready p \<and> pr_handler p \<noteq> HandlerDone \<and> length (pr_signals p) \<le> 1 \<and>
     (\<forall>c. pr_main p \<noteq> Exited c) \<and>
     (pr_handler p = Quitting \<or> SIGINT \<in> set (pr_signals p) \<or> SIGTERM \<in> set (pr_signals p))"

lemma stuck_step:
  assumes "process_step work quit result silenced st p p'" "stuck p" "\<not> ready_closed st"
  shows "stuck p'"
  using assms
  by (cases st; erule_tac process_step_cases)
     (auto simp: stuck_def process_defs split: list.splits if_splits)

lemma stuck_forever:
  assumes "(process_step work quit result silenced st)\<^sup>*\<^sup>* p p'" "stuck p" "\<not> ready_closed st"
  shows "stuck p'"
  using assms by (induction rule: rtranclp_induct) (auto dest: stuck_step)

section \<open>From the deferred function to the exit\<close>

text \<open>Once the channel of signals is closed and \<open>ready\<close> is closed too, the handler runs dry and the
  process exits.\<close>

definition can_exit ::
    "('s \<Rightarrow> 's \<Rightarrow> bool) \<Rightarrow> ('s \<Rightarrow> 's) \<Rightarrow> ('s \<Rightarrow> go_error option option) \<Rightarrow> bool \<Rightarrow> 's startup \<Rightarrow> 's process
     \<Rightarrow> bool" where
  "can_exit work quit result silenced st p \<longleftrightarrow>
     (\<exists>p' c. (process_step work quit result silenced st)\<^sup>*\<^sup>* p p' \<and> pr_main p' = Exited c)"

lemma can_exit_step:
  "process_step work quit result silenced st p p' \<Longrightarrow> can_exit work quit result silenced st p' \<Longrightarrow>
   can_exit work quit result silenced st p"
  unfolding can_exit_def by (meson converse_rtranclp_into_rtranclp)

lemma can_exit_steps:
  "(process_step work quit result silenced st)\<^sup>*\<^sup>* p p' \<Longrightarrow> can_exit work quit result silenced st p' \<Longrightarrow>
   can_exit work quit result silenced st p"
  unfolding can_exit_def by (meson rtranclp_trans)

lemma can_exit_exited: "pr_main p = Exited c \<Longrightarrow> can_exit work quit result silenced st p"
  unfolding can_exit_def by blast

lemma can_exit_done:
  assumes "pr_main p = Joining c" "pr_handler p = HandlerDone"
  shows "can_exit work quit result silenced st p"
  by (rule can_exit_step [OF joins [OF assms]]) (rule can_exit_exited, simp)

lemma can_exit_quitting:
  assumes "pr_main p = Joining c" "pr_handler p = Quitting" "pr_ready p"
  shows "can_exit work quit result silenced st p"
proof (rule can_exit_step)
  show "process_step work quit result silenced st p (app_Quit quit p)" using assms by (intro quits) auto
  show "can_exit work quit result silenced st (app_Quit quit p)"
    by (rule can_exit_done [of _ c]) (use assms in \<open>simp_all add: app_Quit_def\<close>)
qed

lemma can_exit_receiving:
  assumes "pr_main p = Joining c" "pr_handler p = Receiving" "pr_stopped p" "pr_ready p"
  shows "can_exit work quit result silenced st p"
  using assms
proof (induction "length (pr_signals p)" arbitrary: p)
  case 0
  show ?case
    by (rule can_exit_step [OF receives], use 0 in auto, rule can_exit_done [of _ c])
       (use 0 in \<open>simp_all add: handler_turn_def\<close>)
next
  case (Suc n)
  let ?p = "handler_turn p"
  have p: "pr_main ?p = Joining c" "pr_stopped ?p" "pr_ready ?p" "length (pr_signals ?p) = n" "pr_handler ?p \<noteq> HandlerDone"
    using Suc.prems Suc.hyps(2) by (auto simp: handler_turn_def split: list.splits)
  then have "can_exit work quit result silenced st ?p"
    using Suc.hyps(1) [of ?p] can_exit_quitting by (cases "pr_handler ?p") blast+
  moreover have "process_step work quit result silenced st p ?p" using Suc.prems by (intro receives) auto
  ultimately show ?case by (rule can_exit_step [rotated])
qed

lemma can_exit_deferred:
  assumes "pr_main p = Deferred c" "pr_ready p"
  shows "can_exit work quit result silenced st p"
proof (rule can_exit_step [OF stops [OF assms(1)]])
  let ?p = "stop_signals c p"
  have "pr_main ?p = Joining c" "pr_stopped ?p" "pr_ready ?p" using assms(2) by (simp_all add: stop_signals_def)
  then show "can_exit work quit result silenced st ?p"
    by (cases "pr_handler ?p") (blast intro: can_exit_done can_exit_quitting can_exit_receiving)+
qed

section \<open>The contract of a service\<close>

text \<open>What the process relies on: \<open>Quit\<close> asks the service to stop and does not change what \<open>Run\<close> has
  returned, being asked lasts, and a service that has been asked can return.\<close>

locale stoppable_service =
  fixes work :: "'s \<Rightarrow> 's \<Rightarrow> bool" and quit :: "'s \<Rightarrow> 's" and result :: "'s \<Rightarrow> go_error option option"
    and sound :: "'s \<Rightarrow> bool" and asked :: "'s \<Rightarrow> bool"
  assumes sound_work: "sound s \<Longrightarrow> work s s' \<Longrightarrow> sound s'"
    and sound_quit: "sound s \<Longrightarrow> sound (quit s)"
    and asked_quit: "asked (quit s)"
    and asked_work: "asked s \<Longrightarrow> work s s' \<Longrightarrow> asked s'"
    and result_quit: "result (quit s) = result s"
    and can_return: "sound s \<Longrightarrow> asked s \<Longrightarrow> \<exists>s' e. work\<^sup>*\<^sup>* s s' \<and> result s' = Some e"
begin

definition service_ok :: "'s process \<Rightarrow> bool" where
  "service_ok p \<longleftrightarrow> (pr_main p = RunningService \<longrightarrow>
     (\<exists>s. pr_daemon p = Some s \<and> sound s \<and> (pr_handler p = HandlerDone \<longrightarrow> asked s)))"

definition process_ok :: "'s startup \<Rightarrow> 's process \<Rightarrow> bool" where
  "process_ok st p \<longleftrightarrow> length (pr_signals p) \<le> 1 \<and>
     (pr_stopped p \<longleftrightarrow> (case pr_main p of Joining _ \<Rightarrow> True | Exited _ \<Rightarrow> True | Killed \<Rightarrow> True | _ \<Rightarrow> False)) \<and>
     (pr_ready p \<longleftrightarrow> pr_main p \<noteq> Executing \<and> ready_closed st) \<and>
     (pr_handler p = HandlerDone \<longrightarrow> pr_ready p \<or> pr_stopped p \<and> pr_signals p = []) \<and>
     (\<forall>c. pr_main p = Exited c \<longrightarrow> pr_handler p = HandlerDone) \<and> service_ok p"

lemma process_ok_init: "process_ok st process_init"
  by (simp add: process_ok_def service_ok_def process_init_def)

lemma process_ok_step:
  assumes "process_step work quit result silenced st p p'" "process_ok st p" "\<forall>s. st = Starts s \<longrightarrow> sound s"
  shows "process_ok st p'"
  using assms(1)
proof (cases rule: process_step.cases)
  case executes
  then show ?thesis using assms(2,3)
    by (cases st) (auto simp: process_ok_def service_ok_def execute_step_def)
next
  case (runs s s')
  then show ?thesis using assms(2) sound_work asked_work
    by (auto simp: process_ok_def service_ok_def)
next
  case receives
  then show ?thesis using assms(2)
    by (auto simp: process_ok_def service_ok_def handler_turn_def Hup_def split: list.splits main_state.splits)
next
  case quits
  then show ?thesis using assms(2) sound_quit asked_quit
    by (auto simp: process_ok_def service_ok_def app_Quit_def)
next
  case (signalled sig)
  then show ?thesis using assms(2)
    by (auto simp: process_ok_def service_ok_def deliver_def split: main_state.splits)
qed (use assms(2) in \<open>auto simp: process_ok_def service_ok_def stop_signals_def\<close>)

lemma process_reach_ok:
  assumes "process_reach work quit result silenced st p" "\<forall>s. st = Starts s \<longrightarrow> sound s"
  shows "process_ok st p"
  using assms
proof (induction rule: process_reach.induct)
  case (goes_on p p')
  then show ?case using process_ok_step by blast
qed (rule process_ok_init)

text \<open>The steps of the service are steps of the process.\<close>

lemma work_lifts:
  assumes "work\<^sup>*\<^sup>* s s'" "pr_main p = RunningService" "pr_daemon p = Some s"
  shows "(process_step work quit result silenced st)\<^sup>*\<^sup>* p (p\<lparr>pr_daemon := Some s'\<rparr>)"
  using assms(1)
proof (induction rule: rtranclp_induct)
  case base
  have "p\<lparr>pr_daemon := Some s\<rparr> = p" using assms(3) by (cases p) simp
  then show ?case by simp
next
  case (step s1 s2)
  have "process_step work quit result silenced st (p\<lparr>pr_daemon := Some s1\<rparr>) (p\<lparr>pr_daemon := Some s1\<rparr>\<lparr>pr_daemon := Some s2\<rparr>)"
    using assms(2) step.hyps(2) by (intro runs) simp_all
  with step.IH show ?case by simp
qed

lemma can_exit_asked:
  assumes "pr_main p = RunningService" "pr_daemon p = Some s" "sound s" "asked s" "pr_ready p"
  shows "can_exit work quit result silenced st p"
proof -
  obtain s' e where s': "work\<^sup>*\<^sup>* s s'" "result s' = Some e" using can_return assms(3,4) by blast
  let ?p = "p\<lparr>pr_daemon := Some s'\<rparr>"
  have "process_step work quit result silenced st ?p (?p\<lparr>pr_main := Deferred (exit_code e silenced)\<rparr>)"
    using assms(1) s'(2) by (intro run_returns) simp_all
  moreover have "can_exit work quit result silenced st (?p\<lparr>pr_main := Deferred (exit_code e silenced)\<rparr>)"
    using assms(5) by (intro can_exit_deferred) simp_all
  ultimately have "can_exit work quit result silenced st ?p" by (rule can_exit_step)
  with work_lifts [OF s'(1) assms(1,2)] show ?thesis by (rule can_exit_steps)
qed

lemma can_exit_running:
  assumes "pr_main p = RunningService" "process_ok st p" "interrupted p" "ready_closed st"
  shows "can_exit work quit result silenced st p"
proof -
  obtain s where s: "pr_daemon p = Some s" "sound s" "pr_handler p = HandlerDone \<Longrightarrow> asked s" "pr_ready p"
    "length (pr_signals p) \<le> 1"
    using assms by (auto simp: process_ok_def service_ok_def)
  have quitting: "can_exit work quit result silenced st q"
    if "pr_main q = RunningService" "pr_daemon q = Some s" "pr_handler q = Quitting" "pr_ready q" for q
  proof (rule can_exit_step)
    show "process_step work quit result silenced st q (app_Quit quit q)" using that by (intro quits) auto
    show "can_exit work quit result silenced st (app_Quit quit q)"
      by (rule can_exit_asked [of _ "quit s"]) (use that s sound_quit asked_quit in \<open>auto simp: app_Quit_def\<close>)
  qed
  show ?thesis
  proof (cases "pr_handler p")
    case Receiving
    then have "pr_signals p = [SIGINT] \<or> pr_signals p = [SIGTERM]"
      using assms(3) s(5) by (cases "pr_signals p") (auto simp: interrupted_def)
    then have t: "pr_main (handler_turn p) = RunningService" "pr_daemon (handler_turn p) = Some s"
      "pr_handler (handler_turn p) = Quitting" "pr_ready (handler_turn p)" "pr_signals p \<noteq> []"
      using s assms(1) by (auto simp: handler_turn_def)
    have "process_step work quit result silenced st p (handler_turn p)"
      using Receiving assms(1) t(5) by (intro receives) auto
    with quitting [OF t(1-4)] show ?thesis by (rule can_exit_step [rotated])
  next
    case Quitting
    with quitting assms(1) s show ?thesis by blast
  next
    case HandlerDone
    with can_exit_asked assms(1) s show ?thesis by blast
  qed
qed

lemma can_exit_interrupted:
  assumes "process_ok st p" "interrupted p" "ready_closed st" "\<forall>s. st = Starts s \<longrightarrow> sound s"
  shows "can_exit work quit result silenced st p"
proof (cases "pr_main p")
  case Executing
  let ?p = "execute_step silenced st p"
  have e: "process_step work quit result silenced st p ?p" using Executing by (rule executes)
  then have "process_ok st ?p" using process_ok_step assms(1,4) by blast
  moreover have "interrupted ?p" using assms(2) by (cases st) (auto simp: interrupted_def execute_step_def)
  moreover have "pr_main ?p = RunningService \<or> (\<exists>c. pr_main ?p = Deferred c)" "pr_ready ?p"
    using assms(3) by (cases st; simp add: execute_step_def)+
  ultimately have "can_exit work quit result silenced st ?p" using can_exit_running can_exit_deferred assms(3) by blast
  with e show ?thesis by (rule can_exit_step)
next
  case (Joining c)
  then have "pr_ready p" "pr_stopped p" using assms by (auto simp: process_ok_def)
  with Joining show ?thesis
    by (cases "pr_handler p") (blast intro: can_exit_done can_exit_quitting can_exit_receiving)+
qed (use assms can_exit_running can_exit_deferred can_exit_exited in \<open>auto simp: process_ok_def interrupted_def\<close>)

text \<open>So a signal ends the process exactly when the command closes \<open>ready\<close>.\<close>

lemma exits_iff_ready:
  assumes "process_reach work quit result silenced st p" "interrupted p" "\<forall>s. st = Starts s \<longrightarrow> sound s"
  shows "can_exit work quit result silenced st p \<longleftrightarrow> ready_closed st"
proof
  have ok: "process_ok st p" using assms process_reach_ok by blast
  show "can_exit work quit result silenced st p" if "ready_closed st"
    using can_exit_interrupted ok assms(2,3) that by blast
  show "ready_closed st" if "can_exit work quit result silenced st p"
  proof (rule ccontr)
    assume no: "\<not> ready_closed st"
    then have "stuck p" using ok assms(2) by (auto simp: stuck_def process_ok_def interrupted_def)
    with no that show False using stuck_forever unfolding can_exit_def stuck_def by metis
  qed
qed

text \<open>The exit status is that of the command, or of the service it ran.\<close>

definition code_ok :: "bool \<Rightarrow> 's startup \<Rightarrow> 's process \<Rightarrow> bool" where
  "code_ok silenced st p \<longleftrightarrow> (pr_main p = RunningService \<longrightarrow> (\<exists>s. st = Starts s)) \<and>
     (\<forall>c. pr_main p \<in> {Deferred c, Joining c, Exited c} \<longrightarrow>
        (case st of
           Ends e b \<Rightarrow> c = exit_code e silenced
         | Starts s0 \<Rightarrow> \<exists>s e. pr_daemon p = Some s \<and> result s = Some e \<and> c = exit_code e silenced))"

lemma code_ok_step:
  assumes "process_step work quit result silenced st p p'" "code_ok silenced st p"
  shows "code_ok silenced st p'"
  using assms(1)
proof (cases rule: process_step.cases)
  case quits
  then show ?thesis using assms(2) result_quit
    by (cases st) (auto simp: code_ok_def app_Quit_def)
qed (use assms(2) in \<open>auto simp: code_ok_def process_defs split: startup.splits list.splits\<close>)

lemma process_reach_code: "process_reach work quit result silenced st p \<Longrightarrow> code_ok silenced st p"
proof (induction rule: process_reach.induct)
  case (goes_on p p')
  then show ?case using code_ok_step by blast
qed (simp add: code_ok_def process_init_def)

end

end
