(* ===== verification/Ingest.thy ===== *)
theory Ingest
  imports Prelude
begin

text \<open>
  The package \<open>server/internal/ingest\<close>: the service runs the worker pool and the metrics server
  side by side, each asking the other to stop when it ends, and gives up waiting for the second
  after the allowed time of degraded operation. Its life is a step relation: the two goroutines,
  the timer of \<open>Run\<close> and the callers of \<open>Quit\<close> take turns in any order.
\<close>

section \<open>State\<close>

datatype service_result = Pending | Finished "go_error option"

datatype service_phase =
    Launching
  | AwaitFirst
  | AwaitSecond "go_error option" bool
  | ServiceReturned "go_error option"

text \<open>In \<open>AwaitSecond err workers\<close> the first result \<open>err\<close> has been received, from the workers or
  from the metrics server; the time allowed for the second counts from then on.\<close>

record service =
  sv_ctx :: bool
  sv_graceful :: bool
  sv_workers :: service_result
  sv_metrics :: service_result
  sv_metrics_closed :: bool
  sv_launched :: bool
  sv_phase :: service_phase

definition ingest_New :: service where
  "ingest_New = \<lparr>sv_ctx = False, sv_graceful = False, sv_workers = Pending, sv_metrics = Pending,
     sv_metrics_closed = False, sv_launched = False, sv_phase = Launching\<rparr>"

definition graceful_ctx_done :: "service \<Rightarrow> bool" where
  "graceful_ctx_done s \<longleftrightarrow> sv_graceful s \<or> sv_ctx s"

section \<open>The two goroutines\<close>

text \<open>The pool returned an error that is the one of its context, which is a normal stop, or not.\<close>

definition runWorkers :: "go_error \<Rightarrow> service \<Rightarrow> service" where
  "runWorkers err s =
     (let res = (if graceful_ctx_done s \<and> errors_is err ErrContextCanceled then None
                 else Some (Errorf ''ingest workers encountered an error'')) in
      s\<lparr>sv_workers := Finished res, sv_graceful := True\<rparr>)"

datatype metrics_event =
    MCtxDone
  | MGracefulDone "go_error option"
  | MServerErr "go_error option"

definition runMetrics :: "metrics_event \<Rightarrow> service \<Rightarrow> service" where
  "runMetrics ev s =
     (case ev of
        MCtxDone \<Rightarrow> s\<lparr>sv_metrics_closed := True, sv_metrics := Finished None, sv_graceful := True\<rparr>
      | MGracefulDone shutdown \<Rightarrow>
          s\<lparr>sv_metrics_closed := True,
            sv_metrics := Finished (map_option (\<lambda>_. Errorf ''failed to gracefully shutdown metrics server'') shutdown),
            sv_graceful := True\<rparr>
      | MServerErr err \<Rightarrow>
          s\<lparr>sv_metrics := Finished (map_option (\<lambda>_. Errorf ''metrics server encountered an error'') err),
            sv_graceful := True\<rparr>)"

definition metrics_ready :: "metrics_event \<Rightarrow> service \<Rightarrow> bool" where
  "metrics_ready ev s \<longleftrightarrow>
     (case ev of MCtxDone \<Rightarrow> sv_ctx s | MGracefulDone _ \<Rightarrow> graceful_ctx_done s | MServerErr _ \<Rightarrow> True)"

section \<open>Run and Quit\<close>

definition ErrTeardownTimeout :: go_error where
  "ErrTeardownTimeout = Errorf ''service teardown timed out''"

definition service_launch :: "service \<Rightarrow> service" where
  "service_launch s =
     (if graceful_ctx_done s then s\<lparr>sv_phase := ServiceReturned (Some (Sentinel ErrContextCanceled))\<rparr>
      else s\<lparr>sv_launched := True, sv_phase := AwaitFirst\<rparr>)"

text \<open>Receiving the first result, of either goroutine, then the second or the time-out. The
  deferred call cancels the outer context.\<close>

definition service_first :: "bool \<Rightarrow> service \<Rightarrow> service" where
  "service_first workers s =
     (case (if workers then sv_workers s else sv_metrics s) of
        Pending \<Rightarrow> s
      | Finished e \<Rightarrow> s\<lparr>sv_phase := AwaitSecond e workers\<rparr>)"

definition service_second :: "bool \<Rightarrow> service \<Rightarrow> service" where
  "service_second timeout s =
     (case sv_phase s of
        AwaitSecond e workers \<Rightarrow>
          if timeout
          then s\<lparr>sv_phase := ServiceReturned (errors_join [e, Some ErrTeardownTimeout]), sv_ctx := True\<rparr>
          else (case (if workers then sv_metrics s else sv_workers s) of
                  Pending \<Rightarrow> s
                | Finished e2 \<Rightarrow> s\<lparr>sv_phase := ServiceReturned (errors_join [e, e2]), sv_ctx := True\<rparr>)
      | _ \<Rightarrow> s)"

definition service_Quit :: "bool \<Rightarrow> service \<Rightarrow> service" where
  "service_Quit force s =
     (if force then s\<lparr>sv_ctx := True, sv_metrics_closed := True\<rparr> else s\<lparr>sv_graceful := True\<rparr>)"

inductive service_work :: "service \<Rightarrow> service \<Rightarrow> bool" where
  launch: "sv_phase s = Launching \<Longrightarrow> service_work s (service_launch s)"
| workers: "sv_launched s \<Longrightarrow> sv_workers s = Pending \<Longrightarrow> service_work s (runWorkers err s)"
| metrics: "sv_launched s \<Longrightarrow> sv_metrics s = Pending \<Longrightarrow> metrics_ready ev s \<Longrightarrow> service_work s (runMetrics ev s)"
| first: "sv_phase s = AwaitFirst \<Longrightarrow> service_work s (service_first b s)"
| second: "sv_phase s = AwaitSecond e b \<Longrightarrow> service_work s (service_second timeout s)"

inductive service_step :: "service \<Rightarrow> service \<Rightarrow> bool" where
  works: "service_work s s' \<Longrightarrow> service_step s s'"
| quit: "service_step s (service_Quit force s)"

inductive_cases service_work_cases: "service_work s s'"

inductive_cases service_step_cases: "service_step s s'"

inductive service_reach :: "service \<Rightarrow> bool" where
  init: "service_reach ingest_New"
| step: "service_reach s \<Longrightarrow> service_step s s' \<Longrightarrow> service_reach s'"

section \<open>The invariant\<close>

text \<open>A goroutine that has ended has asked the other to stop; the first result received is that of
  the goroutine named; a service that has returned has cancelled everything or had been asked
  to stop; a service that waits for a first result has launched its goroutines.\<close>

definition service_inv :: "service \<Rightarrow> bool" where
  "service_inv s \<longleftrightarrow>
     (\<forall>e. sv_workers s = Finished e \<or> sv_metrics s = Finished e \<longrightarrow> sv_graceful s) \<and>
     (\<forall>e b. sv_phase s = AwaitSecond e b \<longrightarrow> (if b then sv_workers s else sv_metrics s) = Finished e) \<and>
     (\<forall>e. sv_phase s = ServiceReturned e \<longrightarrow> graceful_ctx_done s) \<and>
     (sv_phase s = AwaitFirst \<longrightarrow> sv_launched s)"

lemmas service_defs = service_launch_def runWorkers_def runMetrics_def service_first_def service_second_def
  service_Quit_def graceful_ctx_done_def Let_def

lemma service_inv_work: "service_work s s' \<Longrightarrow> service_inv s \<Longrightarrow> service_inv s'"
  by (erule service_work_cases)
     (auto simp: service_inv_def service_defs split: metrics_event.splits service_result.splits if_splits)

lemma service_inv_Quit: "service_inv s \<Longrightarrow> service_inv (service_Quit force s)"
  by (auto simp: service_inv_def service_defs)

lemma service_inv_step: "service_step s s' \<Longrightarrow> service_inv s \<Longrightarrow> service_inv s'"
  by (erule service_step_cases) (blast intro: service_inv_work service_inv_Quit)+

lemma service_reach_inv: "service_reach s \<Longrightarrow> service_inv s"
proof (induction rule: service_reach.induct)
  case (step s s')
  then show ?case using service_inv_step by blast
qed (simp add: service_inv_def ingest_New_def)

text \<open>A service that has been asked to stop can return, whatever its worker pool does: the metrics
  server can always be shut down, and the pool is waited for only as long as the timer runs.\<close>

lemma service_second_returns:
  "sv_phase s = AwaitSecond e b \<Longrightarrow> \<exists>s' r. service_work s s' \<and> sv_phase s' = ServiceReturned r"
  using second [of s e b True] by (auto simp: service_second_def)

lemma service_first_returns:
  assumes "sv_phase s = AwaitFirst" "sv_metrics s = Finished e"
  shows "\<exists>s' r. service_work\<^sup>*\<^sup>* s s' \<and> sv_phase s' = ServiceReturned r"
proof -
  have "service_work s (service_first False s)" using assms(1) by (rule first)
  moreover have "sv_phase (service_first False s) = AwaitSecond e False" using assms by (simp add: service_first_def)
  ultimately show ?thesis using service_second_returns by (metis converse_rtranclp_into_rtranclp r_into_rtranclp)
qed

lemma service_can_return:
  assumes "service_inv s" "graceful_ctx_done s"
  shows "\<exists>s' r. service_work\<^sup>*\<^sup>* s s' \<and> sv_phase s' = ServiceReturned r"
proof (cases "sv_phase s")
  case Launching
  moreover have "sv_phase (service_launch s) = ServiceReturned (Some (Sentinel ErrContextCanceled))"
    using assms(2) by (simp add: service_launch_def)
  ultimately show ?thesis using launch by blast
next
  case AwaitFirst
  show ?thesis
  proof (cases "sv_metrics s")
    case Pending
    let ?s = "runMetrics (MGracefulDone None) s"
    have "service_work s ?s"
      using AwaitFirst Pending assms by (intro metrics) (auto simp: service_inv_def metrics_ready_def)
    moreover have "sv_phase ?s = AwaitFirst" "sv_metrics ?s = Finished None"
      using AwaitFirst by (simp_all add: runMetrics_def)
    ultimately show ?thesis using service_first_returns by (meson converse_rtranclp_into_rtranclp)
  next
    case (Finished e)
    then show ?thesis using AwaitFirst service_first_returns by blast
  qed
next
  case (AwaitSecond e b)
  then show ?thesis using service_second_returns by (metis r_into_rtranclp)
qed blast

section \<open>Properties\<close>

text \<open>The service never hangs on the second goroutine. Once one result has been received, \<open>Run\<close>
  can return by the next step in every case: with both errors joined when the other has ended,
  and otherwise, when the time is up, with the first error and the time-out; the outer context
  is then cancelled. And whoever ends first has asked the other to stop.\<close>

theorem service_returns:
  assumes "service_reach s" "sv_phase s = AwaitSecond e b"
  shows "sv_graceful s \<and>
    (\<exists>s' r. service_step s s' \<and> sv_phase s' = ServiceReturned r \<and> sv_ctx s' \<and>
      (case (if b then sv_metrics s else sv_workers s) of
         Finished e2 \<Rightarrow> r = errors_join [e, e2]
       | Pending \<Rightarrow> r = errors_join [e, Some ErrTeardownTimeout]))"
proof -
  have inv: "service_inv s" using service_reach_inv [OF assms(1)] .
  then have g: "sv_graceful s" using assms(2) by (auto simp: service_inv_def split: if_splits)
  have "service_step s (service_second t s)" for t by (rule works) (rule second [OF assms(2)])
  note st = this
  show ?thesis
  proof (cases "if b then sv_metrics s else sv_workers s")
    case Pending
    have "sv_phase (service_second True s) = ServiceReturned (errors_join [e, Some ErrTeardownTimeout]) \<and>
        sv_ctx (service_second True s)"
      using assms(2) by (simp add: service_second_def)
    then show ?thesis using g st [of True] Pending by auto
  next
    case (Finished e2)
    have "sv_phase (service_second False s) = ServiceReturned (errors_join [e, e2]) \<and> sv_ctx (service_second False s)"
      using assms(2) Finished by (simp add: service_second_def)
    then show ?thesis using g st [of False] Finished by auto
  qed
qed

theorem service_returns_witness:
  "let s = service_first True (runWorkers (Errorf ''boom'') (service_launch ingest_New)) in
   sv_graceful s \<and> (\<exists>s' r. service_step s s' \<and> sv_phase s' = ServiceReturned r \<and> sv_ctx s' \<and>
     r = errors_join [Some (Errorf ''ingest workers encountered an error''), Some ErrTeardownTimeout])"
proof -
  let ?s1 = "service_launch ingest_New" and ?s2 = "runWorkers (Errorf ''boom'') (service_launch ingest_New)"
  let ?s = "service_first True ?s2"
  have "service_reach ?s1" by (rule step [OF init works [OF launch]]) (simp add: ingest_New_def)
  then have "service_reach ?s2" by (rule step [OF _ works [OF workers]]) (simp_all add: ingest_New_def service_defs)
  then have r: "service_reach ?s" by (rule step [OF _ works [OF first]]) (simp add: ingest_New_def service_defs)
  have p: "sv_phase ?s = AwaitSecond (Some (Errorf ''ingest workers encountered an error'')) True"
    "sv_metrics ?s = Pending" by (simp_all add: ingest_New_def service_defs)
  show ?thesis unfolding Let_def using service_returns [OF r p(1)] p(2) by auto
qed

end
