(* ===== verification/Workers.thy ===== *)
theory Workers
  imports Server_Config
begin

text \<open>
  The package \<open>ingest/workers\<close>: one worker goroutine per allowed application, started and stopped
  as the allow list changes. The pool, its workers, the watcher's signals and the clock of the
  debounce timer take turns in any order: a step relation. A worker's context is a child of the
  context of the pool. What \<open>Process\<close> returns is an input of the worker's step.
\<close>

section \<open>State\<close>

text \<open>A worker has been started with \<open>go\<close>, is about to poll its context and process, sleeps after
  an error, or has returned.\<close>

datatype wphase = WStarting | WRunning | WSleeping | WDone

record worker =
  wk_app :: string
  wk_cancelled :: bool
  wk_phase :: wphase
  wk_backoff :: int

datatype pphase = PoolRunning | PoolWaiting | PoolReturned go_error

record pool =
  p_workers :: "(string \<times> nat) list"
  p_goroutines :: "worker list"
  p_active :: int
  p_ctx_done :: bool
  p_timer :: "int option"
  p_clock :: int
  p_phase :: pphase

definition second :: int where "second = 1000000000"
definition baseBackoff :: int where "baseBackoff = 5 * second"
definition maxBackoff :: int where "maxBackoff = 30 * second"
definition debounceDuration :: int where "debounceDuration = 5 * second"

definition workers_New :: "go_error option \<Rightarrow> go_error + pool" where
  "workers_New register =
     (case register of
        Some _ \<Rightarrow> Inl (Errorf ''failed to register active workers gauge'')
      | None \<Rightarrow> Inr \<lparr>p_workers = [], p_goroutines = [], p_active = 0, p_ctx_done = False, p_timer = None,
                   p_clock = 0, p_phase = PoolRunning\<rparr>)"

section \<open>Synchronising the workers\<close>

definition cancel_worker :: "nat \<Rightarrow> pool \<Rightarrow> pool" where
  "cancel_worker i p =
     p\<lparr>p_goroutines := (p_goroutines p)[i := (p_goroutines p ! i)\<lparr>wk_cancelled := True\<rparr>]\<rparr>"

definition stop_removed :: "(string \<Rightarrow> bool) \<Rightarrow> pool \<Rightarrow> pool" where
  "stop_removed allowed p =
     (let removed = filter (\<lambda>(app, _). \<not> allowed app) (p_workers p);
          p' = fold (\<lambda>(_, i). cancel_worker i) removed p in
      p'\<lparr>p_workers := filter (\<lambda>(app, _). allowed app) (p_workers p)\<rparr>)"

definition start_worker :: "string \<Rightarrow> pool \<Rightarrow> pool" where
  "start_worker app p =
     p\<lparr>p_workers := (app, length (p_goroutines p)) # p_workers p,
       p_goroutines := p_goroutines p @
         [\<lparr>wk_app = app, wk_cancelled = False, wk_phase = WStarting, wk_backoff = baseBackoff\<rparr>]\<rparr>"

fun start_added :: "string list \<Rightarrow> pool \<Rightarrow> pool" where
  "start_added [] p = p"
| "start_added (app # apps) p =
     (if map_of (p_workers p) app \<noteq> None then start_added apps p
      else if p_ctx_done p then p
      else start_added apps (start_worker app p))"

definition syncWorkers :: "(string \<Rightarrow> bool) \<Rightarrow> string list \<Rightarrow> pool \<Rightarrow> pool" where
  "syncWorkers allowed apps p = start_added apps (stop_removed allowed p)"

section \<open>One worker\<close>

text \<open>What the goroutine meets next: it runs for the first time; \<open>Process\<close> returns; the random
  pause is over. \<open>done\<close> says whether its context is done when it looks.\<close>

datatype worker_input = Started | Processed "go_error option" | Slept

definition worker_step :: "bool \<Rightarrow> worker_input \<Rightarrow> worker \<Rightarrow> worker" where
  "worker_step done i k =
     (case (wk_phase k, i) of
        (WStarting, Started) \<Rightarrow> k\<lparr>wk_phase := WRunning, wk_backoff := baseBackoff\<rparr>
      | (WRunning, Processed err) \<Rightarrow>
          if done then k\<lparr>wk_phase := WDone\<rparr>
          else (case err of
                  None \<Rightarrow> k\<lparr>wk_backoff := baseBackoff\<rparr>
                | Some _ \<Rightarrow> k\<lparr>wk_phase := WSleeping\<rparr>)
      | (WSleeping, Slept) \<Rightarrow>
          if done then k\<lparr>wk_phase := WDone\<rparr>
          else k\<lparr>wk_phase := WRunning, wk_backoff := min (wk_backoff k * 2) maxBackoff\<rparr>
      | _ \<Rightarrow> k)"

definition counted :: "worker \<Rightarrow> bool" where
  "counted k \<longleftrightarrow> wk_phase k = WRunning \<or> wk_phase k = WSleeping"

definition ctx_done :: "pool \<Rightarrow> worker \<Rightarrow> bool" where
  "ctx_done p k \<longleftrightarrow> wk_cancelled k \<or> p_ctx_done p"

text \<open>The step of the \<open>i\<close>-th goroutine; the gauge goes up when it starts and down when it returns.\<close>

definition appWorker :: "nat \<Rightarrow> worker_input \<Rightarrow> pool \<Rightarrow> pool" where
  "appWorker i inp p =
     (let k = p_goroutines p ! i; k' = worker_step (ctx_done p k) inp k in
      p\<lparr>p_goroutines := (p_goroutines p)[i := k'],
        p_active := p_active p + (if counted k' then 1 else 0) - (if counted k then 1 else 0)\<rparr>)"

section \<open>The pool\<close>

definition pool_return :: "go_error \<Rightarrow> pool \<Rightarrow> pool" where
  "pool_return e p = p\<lparr>p_phase := PoolReturned e, p_ctx_done := True\<rparr>"

text \<open>Up to the loop: a done context, a watcher that does not start, the first synchronisation.\<close>

definition pool_Run :: "go_error option \<Rightarrow> (string \<Rightarrow> bool) \<Rightarrow> string list \<Rightarrow> pool \<Rightarrow> pool" where
  "pool_Run watch allowed apps p =
     (if p_ctx_done p then pool_return (Sentinel ErrContextCanceled) p
      else case watch of
        Some _ \<Rightarrow> pool_return (Errorf ''failed to start watch configuration'') p
      | None \<Rightarrow> (syncWorkers allowed apps p)\<lparr>p_timer := Some (p_clock p + debounceDuration), p_phase := PoolRunning\<rparr>)"

datatype pool_input =
    PCtxDone
  | PReload bool
  | PTimer
  | PWatchErr bool

definition pool_select :: "(string \<Rightarrow> bool) \<Rightarrow> string list \<Rightarrow> pool_input \<Rightarrow> pool \<Rightarrow> pool" where
  "pool_select allowed apps i p =
     (case i of
        PCtxDone \<Rightarrow> p\<lparr>p_phase := PoolWaiting\<rparr>
      | PReload ok \<Rightarrow>
          if \<not> ok then pool_return (Errorf ''reloadEventCh closed unexpectedly'') p
          else p\<lparr>p_timer := Some (p_clock p + debounceDuration)\<rparr>
      | PTimer \<Rightarrow> (syncWorkers allowed apps p)\<lparr>p_timer := None\<rparr>
      | PWatchErr ok \<Rightarrow> if \<not> ok then pool_return (Errorf ''cfgWatchErrCh closed unexpectedly'') p else p)"

definition input_ready :: "pool_input \<Rightarrow> pool \<Rightarrow> bool" where
  "input_ready i p \<longleftrightarrow>
     (case i of PCtxDone \<Rightarrow> p_ctx_done p | PTimer \<Rightarrow> (\<exists>t. p_timer p = Some t \<and> t \<le> p_clock p) | _ \<Rightarrow> True)"

inductive pool_step :: "conf_manager \<times> pool \<Rightarrow> conf_manager \<times> pool \<Rightarrow> bool" where
  select: "p_phase p = PoolRunning \<Longrightarrow> input_ready i p \<Longrightarrow>
    pool_step (cm, p) (cm, pool_select (IsAllowed cm) (AllowList cm) i p)"
| wait: "p_phase p = PoolWaiting \<Longrightarrow> \<forall>k\<in>set (p_goroutines p). wk_phase k = WDone \<Longrightarrow>
    pool_step (cm, p) (cm, pool_return (Sentinel ErrContextCanceled) p)"
| work: "i < length (p_goroutines p) \<Longrightarrow> pool_step (cm, p) (cm, appWorker i inp p)"
| cancel: "pool_step (cm, p) (cm, p\<lparr>p_ctx_done := True\<rparr>)"
| tick: "0 \<le> d \<Longrightarrow> pool_step (cm, p) (cm, p\<lparr>p_clock := p_clock p + d\<rparr>)"
| reconfigure: "conf_ok cm' \<Longrightarrow> pool_step (cm, p) (cm', p)"

inductive pool_reach :: "conf_manager \<times> pool \<Rightarrow> bool" where
  start: "conf_ok cm \<Longrightarrow> workers_New None = Inr p \<Longrightarrow>
    pool_reach (cm, pool_Run watch (IsAllowed cm) (AllowList cm) (p\<lparr>p_ctx_done := c\<rparr>))"
| step: "pool_reach s \<Longrightarrow> pool_step s s' \<Longrightarrow> pool_reach s'"

inductive_cases pool_step_cases: "pool_step s s'"

section \<open>The invariant of the pool\<close>

text \<open>
  The map names, for every application it holds, one goroutine of that application that has not
  been cancelled; every goroutine that has not been cancelled is in the map; the gauge counts the
  goroutines that are at work; back-offs stay within their bounds.
\<close>

definition workers_inv :: "(string \<times> nat) list \<Rightarrow> worker list \<Rightarrow> bool" where
  "workers_inv ws gs \<longleftrightarrow> distinct (map fst ws) \<and>
     (\<forall>(app, i)\<in>set ws. i < length gs \<and> wk_app (gs ! i) = app \<and> \<not> wk_cancelled (gs ! i)) \<and>
     (\<forall>i<length gs. \<not> wk_cancelled (gs ! i) \<longrightarrow> (wk_app (gs ! i), i) \<in> set ws)"

definition gauge_inv :: "int \<Rightarrow> worker list \<Rightarrow> bool" where
  "gauge_inv n gs \<longleftrightarrow> n = int (length (filter counted gs)) \<and>
     (\<forall>k\<in>set gs. baseBackoff \<le> wk_backoff k \<and> wk_backoff k \<le> maxBackoff)"

definition pool_inv :: "pool \<Rightarrow> bool" where
  "pool_inv p \<longleftrightarrow> workers_inv (p_workers p) (p_goroutines p) \<and> gauge_inv (p_active p) (p_goroutines p)"

lemma backoff_bounds: "baseBackoff \<le> maxBackoff" "0 < baseBackoff"
  by (simp_all add: baseBackoff_def maxBackoff_def second_def)

subsection \<open>Cancelling\<close>

definition cancel_all :: "nat set \<Rightarrow> worker list \<Rightarrow> worker list" where
  "cancel_all S gs = map (\<lambda>i. if i \<in> S then (gs ! i)\<lparr>wk_cancelled := True\<rparr> else gs ! i) [0..<length gs]"

lemma cancel_all_nth [simp]:
  "i < length gs \<Longrightarrow> cancel_all S gs ! i = (if i \<in> S then (gs ! i)\<lparr>wk_cancelled := True\<rparr> else gs ! i)"
  "length (cancel_all S gs) = length gs"
  by (simp_all add: cancel_all_def)

lemma fold_cancel:
  "\<forall>(_, i)\<in>set xs. i < length (p_goroutines p) \<Longrightarrow>
   fold (\<lambda>(_, i). cancel_worker i) xs p = p\<lparr>p_goroutines := cancel_all (snd ` set xs) (p_goroutines p)\<rparr>"
proof (induction xs arbitrary: p)
  case Nil
  have "cancel_all {} gs = gs" for gs by (rule nth_equalityI) simp_all
  then show ?case by simp
next
  case (Cons x xs)
  obtain a i where x: "x = (a, i)" by fastforce
  let ?p = "cancel_worker i p"
  have "fold (\<lambda>(_, i). cancel_worker i) xs ?p = ?p\<lparr>p_goroutines := cancel_all (snd ` set xs) (p_goroutines ?p)\<rparr>"
    using Cons by (intro Cons.IH) (auto simp: cancel_worker_def)
  moreover have "cancel_all (snd ` set xs) (p_goroutines ?p) = cancel_all (snd ` set (x # xs)) (p_goroutines p)"
    using Cons.prems x by (intro nth_equalityI) (auto simp: cancel_worker_def nth_list_update)
  moreover have "?p\<lparr>p_goroutines := gs\<rparr> = p\<lparr>p_goroutines := gs\<rparr>" for gs by (simp add: cancel_worker_def)
  ultimately show ?case using x by simp
qed

lemma filter_counted_phases: "map wk_phase gs = map wk_phase gs' \<Longrightarrow> length (filter counted gs) = length (filter counted gs')"
proof -
  have "length (filter counted gs) = length (filter (\<lambda>x. x = WRunning \<or> x = WSleeping) (map wk_phase gs))" for gs
    by (simp add: filter_map comp_def counted_def [abs_def])
  then show "map wk_phase gs = map wk_phase gs' \<Longrightarrow> ?thesis" by metis
qed

lemma gauge_cancel_all: "gauge_inv n gs \<Longrightarrow> gauge_inv n (cancel_all S gs)"
proof -
  assume g: "gauge_inv n gs"
  have "map wk_phase (cancel_all S gs) = map wk_phase gs" by (rule nth_equalityI) simp_all
  then have e: "length (filter counted (cancel_all S gs)) = length (filter counted gs)"
    by (rule filter_counted_phases)
  have "baseBackoff \<le> wk_backoff k \<and> wk_backoff k \<le> maxBackoff" if k: "k \<in> set (cancel_all S gs)" for k
  proof -
    obtain i where "i < length gs" "k = cancel_all S gs ! i" using k by (auto simp: in_set_conv_nth)
    then have "wk_backoff k = wk_backoff (gs ! i)" "gs ! i \<in> set gs" by auto
    then show ?thesis using g by (auto simp: gauge_inv_def)
  qed
  then show ?thesis using g e by (simp add: gauge_inv_def)
qed

lemma stop_removed_eq:
  assumes "workers_inv (p_workers p) (p_goroutines p)"
  shows "stop_removed allowed p =
    p\<lparr>p_goroutines := cancel_all (snd ` {(a, i) \<in> set (p_workers p). \<not> allowed a}) (p_goroutines p),
      p_workers := filter (\<lambda>(app, _). allowed app) (p_workers p)\<rparr>"
proof -
  have "\<forall>(_, i)\<in>set (filter (\<lambda>(app, _). \<not> allowed app) (p_workers p)). i < length (p_goroutines p)"
    using assms by (auto simp: workers_inv_def)
  from fold_cancel [OF this] show ?thesis by (simp add: stop_removed_def Let_def set_filter case_prod_unfold)
qed

lemma workers_invI:
  assumes "distinct (map fst ws)"
    and "\<And>a i. (a, i) \<in> set ws \<Longrightarrow> i < length gs \<and> wk_app (gs ! i) = a \<and> \<not> wk_cancelled (gs ! i)"
    and "\<And>i. i < length gs \<Longrightarrow> \<not> wk_cancelled (gs ! i) \<Longrightarrow> (wk_app (gs ! i), i) \<in> set ws"
  shows "workers_inv ws gs"
  using assms unfolding workers_inv_def by blast

lemma distinct_fst_filter: "distinct (map fst xs) \<Longrightarrow> distinct (map fst (filter P xs))"
  by (induction xs) auto

lemma stop_removed_inv:
  assumes "pool_inv p"
  shows "pool_inv (stop_removed allowed p)"
proof -
  let ?ws = "p_workers p" and ?gs = "p_goroutines p"
  let ?S = "snd ` {(a, i) \<in> set ?ws. \<not> allowed a}"
  let ?ws' = "filter (\<lambda>(app, _). allowed app) ?ws"
  have inv: "workers_inv ?ws ?gs" using assms by (simp add: pool_inv_def)
  have app: "(a, i) \<in> set ?ws \<Longrightarrow> a = wk_app (?gs ! i)" for a i using inv by (auto simp: workers_inv_def)
  have S: "i \<in> ?S \<longleftrightarrow> (wk_app (?gs ! i), i) \<in> set ?ws \<and> \<not> allowed (wk_app (?gs ! i))" for i
  proof
    assume "i \<in> ?S"
    then obtain a where "(a, i) \<in> set ?ws" "\<not> allowed a" by auto
    then show "(wk_app (?gs ! i), i) \<in> set ?ws \<and> \<not> allowed (wk_app (?gs ! i))" using app by metis
  qed (auto intro!: image_eqI [of _ snd "(wk_app (?gs ! i), i)"])
  have "distinct (map fst ?ws')" using inv by (simp add: workers_inv_def distinct_fst_filter)
  moreover have "i < length (cancel_all ?S ?gs) \<and> wk_app (cancel_all ?S ?gs ! i) = a \<and> \<not> wk_cancelled (cancel_all ?S ?gs ! i)"
    if "(a, i) \<in> set ?ws'" for a i
    using that inv S app by (auto simp: workers_inv_def)
  moreover have "(wk_app (cancel_all ?S ?gs ! i), i) \<in> set ?ws'"
    if "i < length (cancel_all ?S ?gs)" "\<not> wk_cancelled (cancel_all ?S ?gs ! i)" for i
    using that inv S by (auto simp: workers_inv_def split: if_splits)
  ultimately have "workers_inv ?ws' (cancel_all ?S ?gs)" by (rule workers_invI)
  then show ?thesis
    using assms gauge_cancel_all [of "p_active p" ?gs ?S] stop_removed_eq [OF inv, of allowed]
    by (simp add: pool_inv_def)
qed

subsection \<open>Starting\<close>

lemma start_worker_inv:
  assumes "pool_inv p" "map_of (p_workers p) app = None"
  shows "pool_inv (start_worker app p)"
proof -
  have n: "app \<notin> fst ` set (p_workers p)" using assms(2) by (simp add: map_of_eq_None_iff)
  have "workers_inv (p_workers (start_worker app p)) (p_goroutines (start_worker app p))"
    using assms(1) n
    by (auto simp: pool_inv_def workers_inv_def start_worker_def nth_append less_Suc_eq)
  moreover have "gauge_inv (p_active (start_worker app p)) (p_goroutines (start_worker app p))"
    using assms(1) backoff_bounds by (auto simp: pool_inv_def gauge_inv_def start_worker_def counted_def)
  ultimately show ?thesis by (simp add: pool_inv_def)
qed

lemma start_added_inv: "pool_inv p \<Longrightarrow> pool_inv (start_added apps p)"
  by (induction apps p rule: start_added.induct) (auto simp: start_worker_inv)

lemma start_added_dom:
  "\<not> p_ctx_done p \<Longrightarrow> fst ` set (p_workers (start_added apps p)) = fst ` set (p_workers p) \<union> set apps"
proof (induction apps p rule: start_added.induct)
  case (2 app apps p)
  show ?case
  proof (cases "map_of (p_workers p) app = None")
    case True
    then show ?thesis using 2 by (auto simp: start_worker_def)
  next
    case False
    then have "app \<in> fst ` set (p_workers p)" by (simp add: map_of_eq_None_iff)
    then show ?thesis using 2 False by auto
  qed
qed simp

lemma syncWorkers_inv: "pool_inv p \<Longrightarrow> pool_inv (syncWorkers allowed apps p)"
  by (simp add: syncWorkers_def stop_removed_inv start_added_inv)

context config_provider
begin

text \<open>With a provider whose set and list agree, synchronising makes the workers those listed.\<close>

lemma sync_dom:
  assumes "good c" "pool_inv p" "\<not> p_ctx_done p"
  shows "fst ` set (p_workers (syncWorkers (is_allowed c) (allow_list c) p)) = set (allow_list c)"
proof -
  have w: "workers_inv (p_workers p) (p_goroutines p)" using assms(2) by (simp add: pool_inv_def)
  have ws: "p_workers (stop_removed (is_allowed c) p) = filter (\<lambda>(app, _). is_allowed c app) (p_workers p)"
    using stop_removed_eq [OF w, of "is_allowed c"] by simp
  have "fst ` set (p_workers (stop_removed (is_allowed c) p)) \<subseteq> set (allow_list c)"
  proof
    fix a assume "a \<in> fst ` set (p_workers (stop_removed (is_allowed c) p))"
    then have "is_allowed c a" unfolding ws by auto
    then show "a \<in> set (allow_list c)" by (simp only: allowed_iff [OF assms(1)])
  qed
  moreover have "\<not> p_ctx_done (stop_removed (is_allowed c) p)"
    using stop_removed_eq [OF w, of "is_allowed c"] assms(3) by simp
  note start_added_dom [OF this, of "allow_list c"]
  ultimately show ?thesis unfolding syncWorkers_def by blast
qed

end

subsection \<open>Working\<close>

lemma worker_step_keeps [simp]:
  "wk_app (worker_step d i k) = wk_app k" "wk_cancelled (worker_step d i k) = wk_cancelled k"
  by (simp_all add: worker_step_def split: wphase.splits worker_input.splits option.splits)

lemma worker_step_backoff:
  "baseBackoff \<le> wk_backoff k \<and> wk_backoff k \<le> maxBackoff \<Longrightarrow>
   baseBackoff \<le> wk_backoff (worker_step d i k) \<and> wk_backoff (worker_step d i k) \<le> maxBackoff"
  using backoff_bounds by (auto simp: worker_step_def split: wphase.splits worker_input.splits option.splits)

lemma length_filter_update:
  "i < length xs \<Longrightarrow> int (length (filter P (xs[i := y]))) =
     int (length (filter P xs)) + (if P y then 1 else 0) - (if P (xs ! i) then 1 else 0)"
proof (induction xs arbitrary: i)
  case (Cons x xs)
  show ?case
  proof (cases i)
    case (Suc n)
    then have "int (length (filter P (xs[n := y]))) =
        int (length (filter P xs)) + (if P y then 1 else 0) - (if P (xs ! n) then 1 else 0)"
      using Cons by simp
    then show ?thesis using Suc by (simp split: if_splits)
  qed simp
qed simp

lemma appWorker_inv:
  assumes "pool_inv p" "i < length (p_goroutines p)"
  shows "pool_inv (appWorker i inp p)"
proof -
  let ?k = "p_goroutines p ! i" and ?k' = "worker_step (ctx_done p (p_goroutines p ! i)) inp (p_goroutines p ! i)"
  have "workers_inv (p_workers p) ((p_goroutines p)[i := ?k'])"
    using assms unfolding pool_inv_def workers_inv_def by (auto simp: nth_list_update)
  moreover have "baseBackoff \<le> wk_backoff ?k' \<and> wk_backoff ?k' \<le> maxBackoff"
    using assms by (intro worker_step_backoff) (simp add: pool_inv_def gauge_inv_def)
  then have "\<forall>k\<in>set ((p_goroutines p)[i := ?k']). baseBackoff \<le> wk_backoff k \<and> wk_backoff k \<le> maxBackoff"
    using assms set_update_subset_insert [of "p_goroutines p" i ?k'] by (auto simp: pool_inv_def gauge_inv_def)
  ultimately show ?thesis
    using assms length_filter_update [OF assms(2), of counted ?k']
    by (simp add: appWorker_def Let_def pool_inv_def gauge_inv_def)
qed

section \<open>Reachable states\<close>

lemma pool_inv_fields [simp]:
  "pool_inv (p\<lparr>p_timer := t\<rparr>) = pool_inv p" "pool_inv (p\<lparr>p_phase := ph\<rparr>) = pool_inv p"
  "pool_inv (p\<lparr>p_ctx_done := c\<rparr>) = pool_inv p" "pool_inv (p\<lparr>p_clock := n\<rparr>) = pool_inv p"
  by (simp_all add: pool_inv_def)

lemma pool_return_inv [simp]: "pool_inv (pool_return e p) = pool_inv p"
  by (simp add: pool_return_def)

lemma pool_select_inv: "pool_inv p \<Longrightarrow> pool_inv (pool_select allowed apps i p)"
  by (auto simp: pool_select_def syncWorkers_inv split: pool_input.splits)

lemma workers_New_inv: "workers_New r = Inr p \<Longrightarrow> pool_inv p"
  by (auto simp: workers_New_def pool_inv_def workers_inv_def gauge_inv_def split: option.splits)

lemma pool_Run_inv: "pool_inv p \<Longrightarrow> pool_inv (pool_Run watch allowed apps p)"
  by (auto simp: pool_Run_def syncWorkers_inv split: option.splits)

lemma pool_step_inv: "pool_step s s' \<Longrightarrow> pool_inv (snd s) \<and> conf_ok (fst s) \<Longrightarrow> pool_inv (snd s') \<and> conf_ok (fst s')"
  by (erule pool_step_cases) (auto simp: pool_select_inv appWorker_inv)

lemma pool_reach_inv: "pool_reach s \<Longrightarrow> pool_inv (snd s) \<and> conf_ok (fst s)"
proof (induction rule: pool_reach.induct)
  case (start cm p watch c)
  then show ?case using pool_Run_inv workers_New_inv by simp
next
  case (step s s')
  then show ?case using pool_step_inv by blast
qed

text \<open>Two goroutines that have not been cancelled and serve the same application are one.\<close>

lemma workers_unique:
  assumes "workers_inv ws gs" "i < length gs" "j < length gs" "\<not> wk_cancelled (gs ! i)" "\<not> wk_cancelled (gs ! j)"
    and "wk_app (gs ! i) = wk_app (gs ! j)"
  shows "i = j"
proof -
  have "(wk_app (gs ! i), i) \<in> set ws" "(wk_app (gs ! i), j) \<in> set ws"
    using assms by (auto simp: workers_inv_def)
  moreover have "distinct (map fst ws)" using assms(1) by (simp add: workers_inv_def)
  ultimately show ?thesis by (metis map_of_is_SomeI option.inject)
qed

section \<open>A concrete instance\<close>

definition example_allow :: conf_manager where
  "example_allow = \<lparr>configPath = ''c'', AllowedList = [''linux'', ''wsl'', ''linux''], allowSet = [''linux'', ''wsl'']\<rparr>"

definition example_pool :: pool where
  "example_pool = pool_Run None (IsAllowed example_allow) (AllowList example_allow) (projr (workers_New None))"

lemma example_pool_reach: "pool_reach (example_allow, example_pool)"
proof -
  have "conf_ok example_allow" by code_simp
  then have "pool_reach (example_allow, pool_Run None (IsAllowed example_allow) (AllowList example_allow)
      ((projr (workers_New None))\<lparr>p_ctx_done := False\<rparr>))"
    by (rule start) (simp add: workers_New_def)
  moreover have "(projr (workers_New None))\<lparr>p_ctx_done := False\<rparr> = projr (workers_New None)"
    by (simp add: workers_New_def)
  ultimately show ?thesis by (simp add: example_pool_def)
qed

section \<open>Properties\<close>

text \<open>C24: in every reachable state at most one worker that has not been told to stop serves an
  application, the gauge of active workers counts exactly those at work, and the back-off of
  every worker lies between five and thirty seconds, so that drawing a random pause below it
  never fails.\<close>

theorem pool_invariant:
  assumes "pool_reach (cm, p)"
  shows "(\<forall>i<length (p_goroutines p). \<forall>j<length (p_goroutines p).
      \<not> wk_cancelled (p_goroutines p ! i) \<longrightarrow> \<not> wk_cancelled (p_goroutines p ! j) \<longrightarrow>
      wk_app (p_goroutines p ! i) = wk_app (p_goroutines p ! j) \<longrightarrow> i = j) \<and>
    p_active p = int (length (filter counted (p_goroutines p))) \<and>
    (\<forall>k\<in>set (p_goroutines p). 5 * second \<le> wk_backoff k \<and> wk_backoff k \<le> 30 * second)"
proof -
  have inv: "workers_inv (p_workers p) (p_goroutines p)" "gauge_inv (p_active p) (p_goroutines p)"
    using pool_reach_inv [OF assms] by (simp_all add: pool_inv_def)
  then show ?thesis using workers_unique [OF inv(1)]
    by (auto simp: gauge_inv_def baseBackoff_def maxBackoff_def)
qed

theorem pool_invariant_witness:
  "length (p_goroutines example_pool) = 2 \<and> p_active example_pool = 0 \<and>
   list_all (\<lambda>k. 5 * second \<le> wk_backoff k) (p_goroutines example_pool)"
proof -
  have "length (p_goroutines example_pool) = 2" "length (filter counted (p_goroutines example_pool)) = 0"
    by code_simp+
  then show ?thesis using pool_invariant [OF example_pool_reach] by (simp add: list_all_iff)
qed

text \<open>C25: when the debounce timer of a running pool fires, the workers become those of the allow
  list: every listed application has a worker that has not been told to stop, and every worker
  of an application that is not listed has been told to stop.\<close>

theorem pool_resync:
  assumes "pool_reach (cm, p)" "\<not> p_ctx_done p" "p_phase p = PoolRunning" "p_timer p = Some t" "t \<le> p_clock p"
    and "p' = pool_select (IsAllowed cm) (AllowList cm) PTimer p"
  shows "pool_step (cm, p) (cm, p') \<and>
    (\<forall>app. app \<in> set (AllowList cm) \<longleftrightarrow>
      (\<exists>k\<in>set (p_goroutines p'). wk_app k = app \<and> \<not> wk_cancelled k))"
proof -
  have inv: "pool_inv p" "conf_ok cm" using pool_reach_inv [OF assms(1)] by simp_all
  let ?p = "syncWorkers (IsAllowed cm) (AllowList cm) p"
  have p': "p_workers p' = p_workers ?p" "p_goroutines p' = p_goroutines ?p"
    using assms(6) by (simp_all add: pool_select_def)
  have dom: "fst ` set (p_workers ?p) = set (AllowList cm)"
    using conf.sync_dom [OF inv(2,1) assms(2)] .
  have w: "workers_inv (p_workers ?p) (p_goroutines ?p)"
    using syncWorkers_inv [OF inv(1)] by (simp add: pool_inv_def)
  have "app \<in> fst ` set (p_workers ?p) \<longleftrightarrow> (\<exists>k\<in>set (p_goroutines ?p). wk_app k = app \<and> \<not> wk_cancelled k)" for app
  proof
    assume "app \<in> fst ` set (p_workers ?p)"
    then obtain i where "(app, i) \<in> set (p_workers ?p)" by auto
    then show "\<exists>k\<in>set (p_goroutines ?p). wk_app k = app \<and> \<not> wk_cancelled k"
      using w by (auto simp: workers_inv_def intro!: bexI [of _ "p_goroutines ?p ! i"])
  next
    assume "\<exists>k\<in>set (p_goroutines ?p). wk_app k = app \<and> \<not> wk_cancelled k"
    then obtain i where "i < length (p_goroutines ?p)" "wk_app (p_goroutines ?p ! i) = app"
      "\<not> wk_cancelled (p_goroutines ?p ! i)" by (auto simp: in_set_conv_nth)
    then have "(app, i) \<in> set (p_workers ?p)" using w by (auto simp: workers_inv_def)
    then show "app \<in> fst ` set (p_workers ?p)" by force
  qed
  moreover have "pool_step (cm, p) (cm, p')"
    using select [OF assms(3), of PTimer cm] assms(4-6) by (simp add: input_ready_def)
  ultimately show ?thesis using dom p' by simp
qed

theorem pool_resync_witness:
  "let p = example_pool\<lparr>p_clock := p_clock example_pool + 6 * second\<rparr>;
     cm = \<lparr>configPath = ''c'', AllowedList = [''wsl''], allowSet = [''wsl'']\<rparr>;
     p' = pool_select (IsAllowed cm) (AllowList cm) PTimer p in
   pool_step (cm, p) (cm, p') \<and> (\<exists>k\<in>set (p_goroutines p'). wk_app k = ''wsl'' \<and> \<not> wk_cancelled k) \<and>
   \<not> (\<exists>k\<in>set (p_goroutines p'). wk_app k = ''linux'' \<and> \<not> wk_cancelled k)"
proof -
  let ?p = "example_pool\<lparr>p_clock := p_clock example_pool + 6 * second\<rparr>"
  let ?cm = "\<lparr>configPath = ''c'', AllowedList = [''wsl''], allowSet = [''wsl'']\<rparr>"
  have "0 \<le> 6 * second" by (simp add: second_def)
  then have "pool_reach (example_allow, ?p)" using example_pool_reach tick pool_reach.step by blast
  moreover have "conf_ok ?cm" by code_simp
  ultimately have r: "pool_reach (?cm, ?p)" using reconfigure pool_reach.step by blast
  have h: "\<not> p_ctx_done ?p" "p_phase ?p = PoolRunning" "p_timer ?p = Some (5 * second)" "5 * second \<le> p_clock ?p"
    "''wsl'' \<in> set (AllowList ?cm)" "''linux'' \<notin> set (AllowList ?cm)"
    by code_simp+
  show ?thesis unfolding Let_def using pool_resync [OF r h(1-4) refl] h(5,6) by blast
qed

end
