(* ===== verification/Migration.thy ===== *)
theory Migration
  imports Prelude
begin

text \<open>
  The package \<open>ingest/migration\<close>: a database that was managed by golang-migrate is handed over to
  goose in one transaction. The state is the schema, the transaction that is open (a copy of the
  schema it works on), and the outcomes of the coming statements; a commit whose outcome is lost
  may have taken effect.
\<close>

section \<open>State\<close>

record schema =
  tables :: "string list"
  sm_row :: "(int \<times> bool) option"
  goose_rows :: "int list"

datatype sql_outcome = SqlOk | SqlErr | SqlLost

record migration_db =
  db_schema :: schema
  db_tx :: "schema option"
  sql_results :: "sql_outcome list"

definition expectedTables :: "string list" where
  "expectedTables = [''invalid_reports'', ''linux'', ''windows'', ''darwin'', ''ubuntu_report'',
     ''ubuntu_desktop_provision'', ''ubuntu_release_upgrader'', ''wsl_setup'']"

section \<open>Statements\<close>

definition next_sql :: "migration_db \<Rightarrow> sql_outcome \<times> migration_db" where
  "next_sql d = (case sql_results d of [] \<Rightarrow> SqlOk | x # _ \<Rightarrow> x, d\<lparr>sql_results := tl (sql_results d)\<rparr>)"

definition sql_query :: "(schema \<Rightarrow> 'a option) \<Rightarrow> (migration_db, 'a) io" where
  "sql_query q d =
     (case next_sql d of (out, d') \<Rightarrow>
        if out \<noteq> SqlOk then (Inl (Errorf ''query''), d')
        else (case q (case db_tx d of None \<Rightarrow> db_schema d | Some s \<Rightarrow> s) of
                None \<Rightarrow> (Inl (Errorf ''no rows''), d')
              | Some x \<Rightarrow> (Inr x, d')))"

definition tx_exec :: "(schema \<Rightarrow> schema) \<Rightarrow> (migration_db, unit) io" where
  "tx_exec f d =
     (case next_sql d of (out, d') \<Rightarrow>
        if out \<noteq> SqlOk then (Inl (Errorf ''exec''), d')
        else (Inr (), d'\<lparr>db_tx := map_option f (db_tx d)\<rparr>))"

definition tx_begin :: "(migration_db, unit) io" where
  "tx_begin d =
     (case next_sql d of (out, d') \<Rightarrow>
        if out \<noteq> SqlOk then (Inl (Errorf ''begin''), d') else (Inr (), d'\<lparr>db_tx := Some (db_schema d)\<rparr>))"

definition tx_commit :: "(migration_db, unit) io" where
  "tx_commit d =
     (case next_sql d of (out, d') \<Rightarrow>
        let applied = (case db_tx d of None \<Rightarrow> d' | Some s \<Rightarrow> d'\<lparr>db_schema := s, db_tx := None\<rparr>) in
        case out of SqlOk \<Rightarrow> (Inr (), applied) | SqlErr \<Rightarrow> (Inl (Errorf ''commit''), d')
          | SqlLost \<Rightarrow> (Inl (Errorf ''commit''), applied))"

definition tx_rollback :: "migration_db \<Rightarrow> migration_db" where
  "tx_rollback d = d\<lparr>db_tx := None\<rparr>"

section \<open>The bootstrap\<close>

definition has_table :: "string \<Rightarrow> schema \<Rightarrow> bool" where
  "has_table t s \<longleftrightarrow> t \<in> set (tables s)"

definition verifyExpectedTables :: "int \<Rightarrow> (migration_db, unit) io" where
  "verifyExpectedTables version =
     for_each (\<lambda>t.
       bindE (on_error (\<lambda>_. Errorf ''failed to check existence of table'') (sql_query (\<lambda>s. Some (has_table t s)))) (\<lambda>exists.
         if exists then ret () else throw (Errorf ''expected table does not exist'')))
       (take (nat version) expectedTables)"

definition create_goose :: "schema \<Rightarrow> schema" where
  "create_goose s =
     (if has_table ''goose_db_version'' s then s
      else s\<lparr>tables := tables s @ [''goose_db_version''], goose_rows := []\<rparr>)"

definition insert_version :: "int \<Rightarrow> schema \<Rightarrow> schema" where
  "insert_version v s = s\<lparr>goose_rows := goose_rows s @ [v]\<rparr>"

definition drop_migrations :: "schema \<Rightarrow> schema" where
  "drop_migrations s = s\<lparr>tables := filter (\<lambda>t. t \<noteq> ''schema_migrations'') (tables s), sm_row := None\<rparr>"

definition bootstrap_tx :: "int \<Rightarrow> (migration_db, unit) io" where
  "bootstrap_tx version =
     bindE (on_error (\<lambda>_. Errorf ''failed to create goose_db_version table'') (tx_exec create_goose)) (\<lambda>_.
     bindE (on_error (\<lambda>_. Errorf ''failed to check goose_db_version state'')
         (sql_query (\<lambda>s. Some (length (goose_rows s))))) (\<lambda>count.
     bindE (if count = 0
            then for_each (\<lambda>v. on_error (\<lambda>_. Errorf ''failed to seed goose_db_version'') (tx_exec (insert_version v)))
                   [0..version]
            else ret ()) (\<lambda>_.
     bindE (on_error (\<lambda>_. Errorf ''failed to drop schema_migrations'') (tx_exec drop_migrations)) (\<lambda>_.
       on_error (\<lambda>_. Errorf ''failed to commit bootstrap transaction'') tx_commit))))"

definition BootstrapFromGolangMigrate :: "(migration_db, unit) io" where
  "BootstrapFromGolangMigrate =
     bindE (on_error (\<lambda>_. Errorf ''failed to check for schema_migrations table'')
         (sql_query (\<lambda>s. Some (has_table ''schema_migrations'' s)))) (\<lambda>exists.
     if \<not> exists then ret ()
     else bindE (on_error (\<lambda>_. Errorf ''failed to read schema_migrations'') (sql_query sm_row)) (\<lambda>(version, dirty).
       if dirty then throw (Errorf ''schema_migrations is dirty: manual intervention required'')
       else bindE (verifyExpectedTables version) (\<lambda>_.
         bindE (on_error (\<lambda>_. Errorf ''failed to begin bootstrap transaction'') tx_begin) (\<lambda>_.
           (\<lambda>d. case bootstrap_tx version d of (r, d') \<Rightarrow> (r, tx_rollback d'))))))"

section \<open>Atomicity\<close>

text \<open>What the whole bootstrap makes of a schema.\<close>

definition handed_over :: "int \<Rightarrow> schema \<Rightarrow> schema" where
  "handed_over version s =
     (let s1 = create_goose s in
      drop_migrations (if goose_rows s1 = [] then s1\<lparr>goose_rows := [0..version]\<rparr> else s1))"

text \<open>Until the commit only the transaction's copy changes.\<close>

definition outside_same :: "migration_db \<Rightarrow> migration_db \<Rightarrow> bool" where
  "outside_same d d' \<longleftrightarrow> db_schema d' = db_schema d"

interpretation outside: effect_frame outside_same
  by unfold_locales (auto simp: outside_same_def)

lemmas outside_intros = outside.framed_ret outside.framed_throw outside.framed_bindE outside.framed_attempt
  outside.framed_on_error outside.framed_for_each

lemma outside_calls:
  "framed outside_same (sql_query q)" "framed outside_same (tx_exec f)" "framed outside_same tx_begin"
  by (auto simp: framed_def outside_same_def sql_query_def tx_exec_def tx_begin_def next_sql_def split: option.splits)

lemma outside_verify: "framed outside_same (verifyExpectedTables v)"
  unfolding verifyExpectedTables_def by (intro outside_intros outside_calls) (auto intro: outside_intros)

lemma tx_exec_Inr:
  "tx_exec f d = (Inr u, d') \<Longrightarrow> db_tx d = Some s \<Longrightarrow> db_tx d' = Some (f s) \<and> db_schema d' = db_schema d"
  by (auto simp: tx_exec_def next_sql_def split: if_splits)

lemma sql_query_Inr:
  "sql_query q d = (Inr x, d') \<Longrightarrow> q (case db_tx d of None \<Rightarrow> db_schema d | Some s \<Rightarrow> s) = Some x \<and>
     db_tx d' = db_tx d \<and> db_schema d' = db_schema d"
  by (auto simp: sql_query_def next_sql_def split: if_splits option.splits)

lemma seed_Inr:
  assumes "for_each (\<lambda>v. on_error g (tx_exec (insert_version v))) vs d = (Inr u, d')" "db_tx d = Some s"
  shows "db_tx d' = Some (s\<lparr>goose_rows := goose_rows s @ vs\<rparr>) \<and> db_schema d' = db_schema d"
  using assms
proof (induction vs arbitrary: d s)
  case (Cons v vs)
  obtain d1 where d1: "tx_exec (insert_version v) d = (Inr (), d1)"
    "for_each (\<lambda>v. on_error g (tx_exec (insert_version v))) vs d1 = (Inr u, d')"
    using Cons.prems(1) by (auto simp: bindE_eq_Inr on_error_eq_Inr)
  have "db_tx d1 = Some (insert_version v s)" "db_schema d1 = db_schema d"
    using tx_exec_Inr [OF d1(1) Cons.prems(2)] by auto
  with Cons.IH [OF d1(2)] show ?case by (simp add: insert_version_def)
qed simp

text \<open>The statements of the transaction before its commit.\<close>

definition bootstrap_prep :: "int \<Rightarrow> (migration_db, unit) io" where
  "bootstrap_prep version =
     bindE (on_error (\<lambda>_. Errorf ''failed to create goose_db_version table'') (tx_exec create_goose)) (\<lambda>_.
     bindE (on_error (\<lambda>_. Errorf ''failed to check goose_db_version state'')
         (sql_query (\<lambda>s. Some (length (goose_rows s))))) (\<lambda>count.
     bindE (if count = 0
            then for_each (\<lambda>v. on_error (\<lambda>_. Errorf ''failed to seed goose_db_version'') (tx_exec (insert_version v)))
                   [0..version]
            else ret ()) (\<lambda>_.
       on_error (\<lambda>_. Errorf ''failed to drop schema_migrations'') (tx_exec drop_migrations))))"

lemma bindE_assoc: "bindE (bindE m k) h = bindE m (\<lambda>x. bindE (k x) h)"
  by (auto simp: bindE_def fun_eq_iff split: prod.splits sum.splits)

lemma bootstrap_tx_split:
  "bootstrap_tx v = bindE (bootstrap_prep v) (\<lambda>_. on_error (\<lambda>_. Errorf ''failed to commit bootstrap transaction'') tx_commit)"
  by (simp add: bootstrap_tx_def bootstrap_prep_def bindE_assoc)

lemma outside_prep: "framed outside_same (bootstrap_prep v)"
  unfolding bootstrap_prep_def
  by (intro outside_intros outside_calls) (auto intro!: outside_intros outside_calls)

lemma prep_Inr:
  assumes "bootstrap_prep v d = (Inr u, d')" "db_tx d = Some s"
  shows "db_tx d' = Some (handed_over v s) \<and> db_schema d' = db_schema d"
proof -
  obtain d1 d2 d3 where
    1: "tx_exec create_goose d = (Inr (), d1)" and
    2: "sql_query (\<lambda>s. Some (length (goose_rows s))) d1 = (Inr (length (goose_rows (create_goose s))), d2)" and
    3: "(if length (goose_rows (create_goose s)) = 0
         then for_each (\<lambda>v. on_error (\<lambda>_. Errorf ''failed to seed goose_db_version'') (tx_exec (insert_version v))) [0..v]
         else ret ()) d2 = (Inr (), d3)" and
    4: "tx_exec drop_migrations d3 = (Inr u, d')"
  proof -
    obtain d1 n d2 d3 where *: "tx_exec create_goose d = (Inr (), d1)"
      "sql_query (\<lambda>s. Some (length (goose_rows s))) d1 = (Inr n, d2)"
      "(if n = 0 then for_each (\<lambda>v. on_error (\<lambda>_. Errorf ''failed to seed goose_db_version'') (tx_exec (insert_version v)))
           [0..v] else ret ()) d2 = (Inr (), d3)"
      "tx_exec drop_migrations d3 = (Inr u, d')"
      using assms(1) unfolding bootstrap_prep_def bindE_eq_Inr on_error_eq_Inr by auto
    moreover have "n = length (goose_rows (create_goose s))"
      using tx_exec_Inr [OF *(1) assms(2)] sql_query_Inr [OF *(2)] by simp
    ultimately show thesis using that by blast
  qed
  have d2: "db_tx d2 = Some (create_goose s)" "db_schema d2 = db_schema d"
    using tx_exec_Inr [OF 1 assms(2)] sql_query_Inr [OF 2] by auto
  have "db_tx d3 = Some (if goose_rows (create_goose s) = [] then (create_goose s)\<lparr>goose_rows := [0..v]\<rparr> else create_goose s)
      \<and> db_schema d3 = db_schema d"
  proof (cases "goose_rows (create_goose s) = []")
    case True
    then show ?thesis using seed_Inr [OF 3 [simplified True list.size if_True refl] d2(1)] d2(2)
      by (simp add: True)
  next
    case False
    then show ?thesis using 3 d2 by simp
  qed
  then show ?thesis using tx_exec_Inr [OF 4] by (auto simp: handed_over_def Let_def)
qed

text \<open>A query changes neither the schema nor the transaction.\<close>

definition reading :: "migration_db \<Rightarrow> migration_db \<Rightarrow> bool" where
  "reading d d' \<longleftrightarrow> db_schema d' = db_schema d \<and> db_tx d' = db_tx d"

interpretation reading: effect_frame reading
  by unfold_locales (auto simp: reading_def)

lemma reading_query: "framed reading (sql_query q)"
  by (auto simp: framed_def reading_def sql_query_def next_sql_def split: option.splits)

lemma reading_verify: "framed reading (verifyExpectedTables v)"
  unfolding verifyExpectedTables_def
  by (intro reading.framed_for_each reading.framed_bindE reading.framed_on_error reading_query)
    (auto intro: reading.framed_ret reading.framed_throw)

lemma verify_loop_Inr:
  assumes "for_each (\<lambda>t. bindE (on_error g (sql_query (\<lambda>s. Some (has_table t s))))
             (\<lambda>exists. if exists then ret () else throw e)) ts d = (Inr u, d')" "db_tx d = None"
  shows "(\<forall>t\<in>set ts. has_table t (db_schema d)) \<and> db_tx d' = None"
  using assms
proof (induction ts arbitrary: d)
  case (Cons t ts)
  let ?f = "\<lambda>t. bindE (on_error g (sql_query (\<lambda>s. Some (has_table t s))))
             (\<lambda>exists. if exists then ret () else throw e)"
  obtain b d1 where d1: "sql_query (\<lambda>s. Some (has_table t s)) d = (Inr b, d1)" "b"
    "for_each ?f ts d1 = (Inr u, d')"
    using Cons.prems(1) by (auto simp: bindE_eq_Inr on_error_eq_Inr split: if_splits)
  from sql_query_Inr [OF d1(1)] Cons.prems(2) d1(2)
  have "has_table t (db_schema d)" "db_tx d1 = None" "db_schema d1 = db_schema d" by simp_all
  with Cons.IH [OF d1(3)] show ?case by simp
qed simp

lemma verify_Inr:
  "verifyExpectedTables v d = (Inr u, d') \<Longrightarrow> db_tx d = None \<Longrightarrow>
   (\<forall>t\<in>set (take (nat v) expectedTables). has_table t (db_schema d)) \<and> db_tx d' = None"
  unfolding verifyExpectedTables_def by (rule verify_loop_Inr)

text \<open>The transaction as a whole: nothing, or everything; an error with the change applied comes
  only from the commit.\<close>

lemma bootstrap_tx_cases:
  assumes "bootstrap_tx v d = (r, d')" "db_tx d = Some s"
  shows "db_schema d' = (if r = Inr () then handed_over v s else db_schema d) \<or>
    (r = Inl (Errorf ''failed to commit bootstrap transaction'') \<and> db_schema d' = handed_over v s)"
proof (cases "bootstrap_prep v d")
  case (Pair q d1)
  have same: "db_schema d1 = db_schema d"
    using outside.framed_elim [OF outside_prep Pair] by (simp add: outside_same_def)
  show ?thesis
  proof (cases q)
    case (Inl e)
    then show ?thesis using assms(1) Pair same by (auto simp: bootstrap_tx_split bindE_def)
  next
    case (Inr u)
    have "db_tx d1 = Some (handed_over v s)"
      using prep_Inr [OF _ assms(2)] Pair Inr by blast
    then show ?thesis using assms(1) Pair Inr same
      by (auto simp: bootstrap_tx_split bindE_def on_error_def tx_commit_def next_sql_def Let_def
          split: sql_outcome.splits list.splits)
  qed
qed

lemma handed_over_tables:
  "\<not> has_table ''schema_migrations'' (handed_over v s)"
  "t \<noteq> ''schema_migrations'' \<Longrightarrow> has_table t s \<Longrightarrow> has_table t (handed_over v s)"
  by (auto simp: handed_over_def Let_def drop_migrations_def has_table_def create_goose_def)

text \<open>The outcomes of the bootstrap, in the order of its returns.\<close>

lemma Bootstrap_cases:
  assumes "db_tx d = None" "BootstrapFromGolangMigrate d = (r, d')"
  shows "db_tx d' = None \<and>
    (db_schema d' = db_schema d \<and> (r = Inr () \<longrightarrow> \<not> has_table ''schema_migrations'' (db_schema d)) \<or>
     (\<exists>v. sm_row (db_schema d) = Some (v, False) \<and>
       (\<forall>t\<in>set (take (nat v) expectedTables). has_table t (db_schema d)) \<and>
       db_schema d' = handed_over v (db_schema d) \<and>
       (r = Inr () \<or> r = Inl (Errorf ''failed to commit bootstrap transaction''))))"
    (is "?G d' r")
proof -
  have early: "?G d' r" if "r = Inl e" "reading d d'" for e using that assms(1) by (simp add: reading_def)
  note B = assms(2) [unfolded BootstrapFromGolangMigrate_def]
  obtain q1 d1 where q1: "sql_query (\<lambda>s. Some (has_table ''schema_migrations'' s)) d = (q1, d1)"
    by fastforce
  have r1: "reading d d1" using reading.framed_elim [OF reading_query q1] .
  obtain q2 d2 where q2: "sql_query sm_row d1 = (q2, d2)" by fastforce
  have r2: "reading d d2" using reading.R_trans [OF r1 reading.framed_elim [OF reading_query q2]] .
  consider e where "q1 = Inl e" | "q1 = Inr False" | e where "q1 = Inr True" "q2 = Inl e"
    | v where "q1 = Inr True" "q2 = Inr (v, True)" | v where "q1 = Inr True" "q2 = Inr (v, False)"
    by (metis (full_types) old.sum.exhaust surj_pair)
  then show ?thesis
  proof cases
    case 2
    then show ?thesis using B q1 r1 sql_query_Inr [of _ d False d1] assms(1)
      by (auto simp: bindE_def on_error_def reading_def)
  next
    case (5 v)
    have row: "sm_row (db_schema d) = Some (v, False)"
      using sql_query_Inr [of sm_row d1 "(v, False)" d2] q2 5 r1 assms(1) by (simp add: reading_def)
    obtain q3 d3 where q3: "verifyExpectedTables v d2 = (q3, d3)" by fastforce
    have r3: "reading d d3" using reading.R_trans [OF r2 reading.framed_elim [OF reading_verify q3]] .
    obtain q4 d4 where q4: "tx_begin d3 = (q4, d4)" by fastforce
    consider e where "q3 = Inl e" | e where "q3 = Inr ()" "q4 = Inl e" | "q3 = Inr ()" "q4 = Inr ()"
      by (metis (full_types) old.sum.exhaust old.unit.exhaust)
    then show ?thesis
    proof cases
      case 1
      then show ?thesis using B q1 q2 q3 5 r3 early by (auto simp: bindE_def on_error_def)
    next
      case 2
      then have "reading d d4" using q4 r3 by (auto simp: tx_begin_def next_sql_def reading_def split: if_splits)
      then show ?thesis using B q1 q2 q3 q4 5 2 early by (auto simp: bindE_def on_error_def)
    next
      case 3
      have tabs: "\<forall>t\<in>set (take (nat v) expectedTables). has_table t (db_schema d)"
        using verify_Inr [of v d2 "()" d3] q3 3 r2 assms(1) by (simp add: reading_def)
      have d4: "db_tx d4 = Some (db_schema d)" "db_schema d4 = db_schema d"
        using q4 3 r3 by (auto simp: tx_begin_def next_sql_def reading_def split: if_splits)
      obtain d5 where d5: "bootstrap_tx v d4 = (r, d5)" "d' = tx_rollback d5"
        using B q1 q2 q3 q4 5 3 by (auto simp: bindE_def on_error_def split: prod.splits)
      show ?thesis using bootstrap_tx_cases [OF d5(1) d4(1)] d4(2) d5(2) row tabs
        by (auto simp: tx_rollback_def split: if_splits)
    qed
  qed (use B q1 q2 r1 r2 early in \<open>auto simp: bindE_def on_error_def\<close>)
qed

text \<open>C27: handing the database over from golang-migrate to goose is atomic, whatever statement
  fails. Either the schema is as it was, and then success means that there was no
  \<open>schema_migrations\<close> table; or it is the schema handed over, and then the recorded state was
  clean at some version whose tables all exist, and an error can only be that of the commit. Nil
  leaves no \<open>schema_migrations\<close>, so that calling it again changes nothing, and no other table is
  ever lost.\<close>

theorem Bootstrap_atomic:
  assumes "db_tx d = None" "BootstrapFromGolangMigrate d = (r, d')"
  shows "db_tx d' = None \<and>
    (db_schema d' = db_schema d \<and> (r = Inr () \<longrightarrow> \<not> has_table ''schema_migrations'' (db_schema d)) \<or>
     (\<exists>v. sm_row (db_schema d) = Some (v, False) \<and>
       (\<forall>t\<in>set (take (nat v) expectedTables). has_table t (db_schema d)) \<and>
       db_schema d' = handed_over v (db_schema d) \<and>
       (r = Inr () \<or> r = Inl (Errorf ''failed to commit bootstrap transaction'')))) \<and>
    (r = Inr () \<longrightarrow> \<not> has_table ''schema_migrations'' (db_schema d') \<and>
       (\<forall>outs. db_schema (snd (BootstrapFromGolangMigrate (d'\<lparr>sql_results := outs\<rparr>))) = db_schema d')) \<and>
    (\<forall>t. t \<noteq> ''schema_migrations'' \<longrightarrow> has_table t (db_schema d) \<longrightarrow> has_table t (db_schema d'))"
proof -
  have again: "db_schema (snd (BootstrapFromGolangMigrate c)) = db_schema c"
    if "\<not> has_table ''schema_migrations'' (db_schema c)" "db_tx c = None" for c
    using that by (simp add: BootstrapFromGolangMigrate_def bindE_def on_error_def sql_query_def next_sql_def)
  note cs = Bootstrap_cases [OF assms]
  then have gone: "r = Inr () \<Longrightarrow> \<not> has_table ''schema_migrations'' (db_schema d')"
    by (auto simp: handed_over_tables(1))
  moreover have "has_table t (db_schema d) \<longrightarrow> has_table t (db_schema d')" if "t \<noteq> ''schema_migrations''" for t
    using cs handed_over_tables(2) [OF that] by auto
  ultimately show ?thesis using cs again by simp
qed

definition example_db :: migration_db where
  "example_db = \<lparr>db_schema = \<lparr>tables = [''schema_migrations'', ''invalid_reports'', ''linux''],
     sm_row = Some (2, False), goose_rows = []\<rparr>, db_tx = None, sql_results = []\<rparr>"

text \<open>At version 2, with the two tables of the first migrations: the versions 0, 1, 2 are seeded.\<close>

theorem Bootstrap_atomic_witness:
  "\<exists>d'. BootstrapFromGolangMigrate example_db = (Inr (), d') \<and> goose_rows (db_schema d') = [0, 1, 2] \<and>
     tables (db_schema d') = [''invalid_reports'', ''linux'', ''goose_db_version''] \<and>
     db_schema (snd (BootstrapFromGolangMigrate (d'\<lparr>sql_results := [SqlErr]\<rparr>))) = db_schema d'"
proof -
  define run where "run = BootstrapFromGolangMigrate example_db"
  have ev: "fst run = Inr ()" "goose_rows (db_schema (snd run)) = [0, 1, 2]"
    "tables (db_schema (snd run)) = [''invalid_reports'', ''linux'', ''goose_db_version'']"
    unfolding run_def by code_simp+
  have tx: "db_tx example_db = None" by code_simp
  have run: "BootstrapFromGolangMigrate example_db = (Inr (), snd run)"
    using ev(1) by (metis run_def prod.collapse)
  show ?thesis using Bootstrap_atomic [OF tx run] run ev(2,3) by blast
qed

end
