(* ===== verification/Daemons.thy ===== *)
theory Daemons
  imports Daemon_Process Webservice Ingest Processor Workers Migration
begin

text \<open>
  The two services as programs: \<open>server/cmd/web-service\<close> and \<open>server/cmd/ingest-service\<close> with the
  metrics server of \<open>server/internal/common/metrics\<close>. The command-line library is not part of the
  repository: an invocation is what it made of the arguments, and what it does with a hook that
  fails is end with its error. Executing an invocation gives the startup that the process of
  \<open>Daemon_Process\<close> goes through.
\<close>

section \<open>The metrics server\<close>

record metrics_config =
  mc_Host :: string
  mc_Port :: int
  mc_ReadTimeout :: int
  mc_WriteTimeout :: int

record metrics_server =
  ms_Addr :: string
  ms_ReadTimeout :: int
  ms_WriteTimeout :: int
  ms_addr :: "string option"

text \<open>\<open>net.JoinHostPort\<close>: a host with a colon or a percent sign is put in brackets.\<close>

definition JoinHostPort :: "string \<Rightarrow> string \<Rightarrow> string" where
  "JoinHostPort host port =
     (if CHR '':'' \<in> set host \<or> CHR ''%'' \<in> set host then ''['' @ host @ '']:'' @ port else host @ '':'' @ port)"

definition metrics_New :: "metrics_config \<Rightarrow> metrics_server" where
  "metrics_New cfg =
     \<lparr>ms_Addr = JoinHostPort (mc_Host cfg) (show_int (mc_Port cfg)), ms_ReadTimeout = mc_ReadTimeout cfg,
      ms_WriteTimeout = mc_WriteTimeout cfg, ms_addr = None\<rparr>"

text \<open>\<open>listen\<close> is \<open>net.Listen\<close>, giving the address it bound; \<open>serve\<close> the error that serving ends
  with.\<close>

definition ListenAndServe ::
    "(string \<Rightarrow> go_error + string) \<Rightarrow> go_error \<Rightarrow> metrics_server \<Rightarrow> go_error \<times> metrics_server" where
  "ListenAndServe listen serve s =
     (case listen (ms_Addr s) of
        Inl e \<Rightarrow> (e, s)
      | Inr a \<Rightarrow> (serve, s\<lparr>ms_addr := Some a\<rparr>))"

definition metrics_Addr :: "metrics_server \<Rightarrow> string" where
  "metrics_Addr s = (case ms_addr s of None \<Rightarrow> [] | Some a \<Rightarrow> a)"

section \<open>Command lines\<close>

datatype invocation =
    Bad_usage go_error
  | Show_help
  | Version_cmd "string list"
  | Root_cmd "string list"

datatype ingest_invocation = Common invocation | Migrate_cmd "string list"

text \<open>\<open>filepath.Abs\<close>, with the result of \<open>os.Getwd\<close>.\<close>

definition filepath_Abs :: "go_error + string \<Rightarrow> string \<Rightarrow> go_error + string" where
  "filepath_Abs getwd p =
     (if is_rooted p then Inr (path_clean p)
      else case getwd of Inl e \<Rightarrow> Inl e | Inr wd \<Rightarrow> Inr (path_join [wd, p]))"

text \<open>The validators \<open>cobra.ExactArgs(n)\<close> and \<open>cobra.NoArgs\<close>.\<close>

definition ExactArgs :: "nat \<Rightarrow> string list \<Rightarrow> go_error option" where
  "ExactArgs n args = (if length args \<noteq> n then Some (Errorf ''accepts a different number of args'') else None)"

definition NoArgs :: "string list \<Rightarrow> go_error option" where
  "NoArgs args = (if args \<noteq> [] then Some (Errorf ''unknown command'') else None)"

section \<open>The web service\<close>

record web_config =
  wc_Verbosity :: int
  wc_JSONLogs :: bool
  wc_Daemon :: StaticConfig

record web_app =
  wa_SilenceUsage :: bool
  wa_allowlistPath :: string
  wa_config :: web_config

text \<open>The application that \<open>New\<close> makes, with the defaults of the flags. Durations are in
  nanoseconds.\<close>

definition web_defaultConf :: "string \<Rightarrow> StaticConfig" where
  "web_defaultConf reportsDir =
     \<lparr>sc_ReportsDir = reportsDir, sc_ReadTimeout = 5 * 10 ^ 9, sc_WriteTimeout = 10 * 10 ^ 9,
      sc_RequestTimeout = 3 * 10 ^ 9, sc_MaxHeaderBytes = 2 ^ 13, sc_MaxUploadBytes = 2 ^ 17,
      sc_ListenHost = [], sc_ListenPort = 8080, sc_MetricsHost = [], sc_MetricsPort = 2112\<rparr>"

definition web_app_New :: "string \<Rightarrow> web_app" where
  "web_app_New reportsDir =
     \<lparr>wa_SilenceUsage = False, wa_allowlistPath = [],
      wa_config = \<lparr>wc_Verbosity = 0, wc_JSONLogs = False, wc_Daemon = web_defaultConf reportsDir\<rparr>\<rparr>"

text \<open>What the services find around them: the working directory, the outcome of reading the
  configuration, and the decoding of it into the structure.\<close>

definition web_PersistentPreRunE ::
    "go_error option \<Rightarrow> (web_config \<Rightarrow> go_error + web_config) \<Rightarrow> web_app \<Rightarrow> go_error option \<times> web_app" where
  "web_PersistentPreRunE initViper unmarshal a =
     (let a1 = a\<lparr>wa_SilenceUsage := True\<rparr> in
      case initViper of
        Some e \<Rightarrow> (Some e, a1)
      | None \<Rightarrow>
         (case unmarshal (wa_config a1) of
            Inl e \<Rightarrow> (Some (ErrorfW ''unable to strictly decode configuration into struct'' e), a1)
          | Inr c \<Rightarrow> (None, a1\<lparr>wa_config := c\<rparr>)))"

definition web_app_run ::
    "go_error + string \<Rightarrow> web_app \<Rightarrow> 'z os_scheme \<Rightarrow> (web_run startup \<times> web_app) \<times> 'z os_scheme" where
  "web_app_run getwd a w =
     (case filepath_Abs getwd (wa_allowlistPath a) of
        Inl _ \<Rightarrow> ((Ends (Some (Errorf ''failed to get absolute path for allowlist file'')) False, a), w)
      | Inr p \<Rightarrow>
         (let a1 = a\<lparr>wa_allowlistPath := p\<rparr> in
          case web_New (config_New p) (wc_Daemon (wa_config a)) w of
            (Inl _, w') \<Rightarrow> ((Ends (Some (Errorf ''failed to create server'')) True, a1), w')
          | (Inr s, w') \<Rightarrow> ((Starts \<lparr>run_srv = s, run_primary = NotStarted, run_metrics = NotStarted\<rparr>, a1), w')))"

definition web_RunE ::
    "go_error + string \<Rightarrow> string list \<Rightarrow> web_app \<Rightarrow> 'z os_scheme \<Rightarrow> (web_run startup \<times> web_app) \<times> 'z os_scheme" where
  "web_RunE getwd args a = web_app_run getwd (a\<lparr>wa_SilenceUsage := True, wa_allowlistPath := args ! 0\<rparr>)"

definition web_Execute ::
    "go_error + string \<Rightarrow> go_error option \<Rightarrow> (web_config \<Rightarrow> go_error + web_config) \<Rightarrow> invocation \<Rightarrow> web_app
     \<Rightarrow> 'z os_scheme \<Rightarrow> (web_run startup \<times> web_app) \<times> 'z os_scheme" where
  "web_Execute getwd initViper unmarshal cmd a w =
     (let hooked = (\<lambda>check next. case check of
            Some e \<Rightarrow> ((Ends (Some e) False, a), w)
          | None \<Rightarrow>
             (case web_PersistentPreRunE initViper unmarshal a of
                (Some e, a1) \<Rightarrow> ((Ends (Some e) False, a1), w)
              | (None, a1) \<Rightarrow> next a1)) in
      case cmd of
        Bad_usage e \<Rightarrow> ((Ends (Some e) False, a), w)
      | Show_help \<Rightarrow> ((Ends None False, a), w)
      | Version_cmd args \<Rightarrow> hooked (NoArgs args) (\<lambda>a1. ((Ends None False, a1), w))
      | Root_cmd args \<Rightarrow> hooked (ExactArgs 1 args) (\<lambda>a1. web_RunE getwd args a1 w))"

section \<open>The ingest service\<close>

record ingest_config =
  ic_Verbosity :: int
  ic_JSONLogs :: bool
  ic_MetricsConfig :: metrics_config
  ic_DBconfig :: db_config
  ic_ReportsDir :: string
  ic_MigrationsDir :: string

record ingest_app =
  ia_SilenceUsage :: bool
  ia_allowlistPath :: string
  ia_config :: ingest_config

definition ingest_app_New :: "string \<Rightarrow> ingest_app" where
  "ingest_app_New reportsDir =
     \<lparr>ia_SilenceUsage = False, ia_allowlistPath = [],
      ia_config =
        \<lparr>ic_Verbosity = 0, ic_JSONLogs = False,
         ic_MetricsConfig = \<lparr>mc_Host = [], mc_Port = 2113, mc_ReadTimeout = 5 * 10 ^ 9, mc_WriteTimeout = 10 * 10 ^ 9\<rparr>,
         ic_DBconfig = \<lparr>db_Host = [], db_Port = 5432, db_User = [], db_Password = [], db_DBName = [], db_SSLMode = []\<rparr>,
         ic_ReportsDir = reportsDir, ic_MigrationsDir = []\<rparr>\<rparr>"

text \<open>The configuration as it is logged.\<close>

definition redacted :: "ingest_config \<Rightarrow> ingest_config" where
  "redacted c = c\<lparr>ic_DBconfig := (ic_DBconfig c)\<lparr>db_Password := ''[REDACTED]''\<rparr>\<rparr>"

definition ingest_PersistentPreRunE ::
    "go_error option \<Rightarrow> (ingest_config \<Rightarrow> go_error + ingest_config) \<Rightarrow> ingest_app
     \<Rightarrow> go_error option \<times> ingest_config list \<times> ingest_app" where
  "ingest_PersistentPreRunE initViper unmarshal a =
     (let a1 = a\<lparr>ia_SilenceUsage := True\<rparr> in
      case initViper of
        Some e \<Rightarrow> (Some e, [], a1)
      | None \<Rightarrow>
         (case unmarshal (ia_config a1) of
            Inl e \<Rightarrow> (Some (ErrorfW ''unable to strictly decode configuration into struct'' e), [], a1)
          | Inr c \<Rightarrow> (None, [redacted c], a1\<lparr>ia_config := c\<rparr>)))"

text \<open>What the ingest service finds around it: the working directory, the outcomes of reading and
  decoding the configuration, of opening and pinging the pool of connections, of registering the
  metrics of the processor and of the workers; for migrations the outcome of opening the database,
  of reading the scripts, and what applying them does to the database.\<close>

record ingest_world =
  iw_getwd :: "go_error + string"
  iw_initViper :: "go_error option"
  iw_unmarshal :: "ingest_config \<Rightarrow> go_error + ingest_config"
  iw_newPool :: "string \<Rightarrow> go_error option"
  iw_ping :: "go_error option"
  iw_registers :: "go_error option list"
  iw_register :: "go_error option"
  iw_sql_Open :: "string \<Rightarrow> go_error option"
  iw_NewProvider :: "string \<Rightarrow> go_error option"
  iw_Up :: "(migration_db, unit) io"

definition ingest_app_run ::
    "ingest_world \<Rightarrow> ingest_app \<Rightarrow> 'z os_scheme \<Rightarrow> (service startup \<times> ingest_app) \<times> 'z os_scheme" where
  "ingest_app_run E a w =
     (case filepath_Abs (iw_getwd E) (ia_allowlistPath a) of
        Inl _ \<Rightarrow> ((Ends (Some (Errorf ''failed to get absolute path for allowlist file'')) False, a), w)
      | Inr p \<Rightarrow>
         (let a1 = a\<lparr>ia_allowlistPath := p\<rparr>; c = ia_config a;
              fail = (\<lambda>msg. (Ends (Some (Errorf msg)) True, a1)) in
          case db_New (iw_newPool E) (iw_ping E) (db_URI (ic_DBconfig c) ''postgres'') of
            Inl _ \<Rightarrow> (fail ''failed to connect to database'', w)
          | Inr db \<Rightarrow>
             (case processor_New (ic_ReportsDir c) db (iw_registers E) w of
                (Inl _, w') \<Rightarrow> (fail ''failed to create report processor'', w')
              | (Inr _, w') \<Rightarrow>
                 (case workers_New (iw_register E) of
                    Inl _ \<Rightarrow> (fail ''failed to create worker pool'', w')
                  | Inr _ \<Rightarrow> ((Starts ingest_New, a1), w')))))"

definition ingest_RunE ::
    "ingest_world \<Rightarrow> string list \<Rightarrow> ingest_app \<Rightarrow> 'z os_scheme \<Rightarrow> (service startup \<times> ingest_app) \<times> 'z os_scheme" where
  "ingest_RunE E args a = ingest_app_run E (a\<lparr>ia_SilenceUsage := True, ia_allowlistPath := args ! 0\<rparr>)"

section \<open>Migrations\<close>

definition migrate_Args :: "string list \<Rightarrow> go_error option" where
  "migrate_Args args =
     (if length args \<noteq> 1 then Some (Errorf ''migrate command accepts exactly one argument'') else None)"

definition migrateRun :: "ingest_world \<Rightarrow> ingest_app \<Rightarrow> migration_db \<Rightarrow> (go_error + unit) \<times> migration_db" where
  "migrateRun E a =
     (case iw_sql_Open E (db_URI (ic_DBconfig (ia_config a)) ''postgres'') of
        Some _ \<Rightarrow> throw (Errorf ''failed to open database connection'')
      | None \<Rightarrow>
         bindE (on_error (\<lambda>_. Errorf ''failed to bootstrap from golang-migrate'') BootstrapFromGolangMigrate) (\<lambda>_.
           case iw_NewProvider E (ic_MigrationsDir (ia_config a)) of
             Some _ \<Rightarrow> throw (Errorf ''failed to create goose provider'')
           | None \<Rightarrow> on_error (\<lambda>_. Errorf ''failed to apply migrations'') (iw_Up E)))"

text \<open>A path that is no directory is an error of usage: the flag is taken back for the check.\<close>

definition migrate_RunE ::
    "ingest_world \<Rightarrow> string list \<Rightarrow> ingest_app \<Rightarrow> 'z os_scheme \<Rightarrow> migration_db
     \<Rightarrow> (go_error option \<times> ingest_app) \<times> 'z os_scheme \<times> migration_db" where
  "migrate_RunE E args a w d =
     (let a1 = a\<lparr>ia_SilenceUsage := False, ia_config := (ia_config a)\<lparr>ic_MigrationsDir := args ! 0\<rparr>\<rparr> in
      case os_stat (ic_MigrationsDir (ia_config a1)) w of
        (Inl _, w') \<Rightarrow> ((Some (Errorf ''the provided path to migration scripts is not valid''), a1), w', d)
      | (Inr (FileN _ _), w') \<Rightarrow>
          ((Some (Errorf ''the provided path to migration scripts should be a directory, not a file''), a1), w', d)
      | (Inr (DirN _), w') \<Rightarrow>
         (let a2 = a1\<lparr>ia_SilenceUsage := True\<rparr> in
          case migrateRun E a2 d of
            (Inl e, d') \<Rightarrow> ((Some e, a2), w', d')
          | (Inr _, d') \<Rightarrow> ((None, a2), w', d')))"

definition ingest_Execute ::
    "ingest_world \<Rightarrow> ingest_invocation \<Rightarrow> ingest_app \<Rightarrow> 'z os_scheme \<Rightarrow> migration_db
     \<Rightarrow> (service startup \<times> ingest_app) \<times> 'z os_scheme \<times> migration_db" where
  "ingest_Execute E cmd a w d =
     (let hooked = (\<lambda>check next. case check of
            Some e \<Rightarrow> ((Ends (Some e) False, a), w, d)
          | None \<Rightarrow>
             (case ingest_PersistentPreRunE (iw_initViper E) (iw_unmarshal E) a of
                (Some e, _, a1) \<Rightarrow> ((Ends (Some e) False, a1), w, d)
              | (None, _, a1) \<Rightarrow> next a1)) in
      case cmd of
        Common (Bad_usage e) \<Rightarrow> ((Ends (Some e) False, a), w, d)
      | Common Show_help \<Rightarrow> ((Ends None False, a), w, d)
      | Common (Version_cmd args) \<Rightarrow> hooked (NoArgs args) (\<lambda>a1. ((Ends None False, a1), w, d))
      | Common (Root_cmd args) \<Rightarrow> hooked (ExactArgs 1 args) (\<lambda>a1.
          case ingest_RunE E args a1 w of (r, w') \<Rightarrow> (r, w', d))
      | Migrate_cmd args \<Rightarrow> hooked (migrate_Args args) (\<lambda>a1.
          case migrate_RunE E args a1 w d of ((e, a2), w', d') \<Rightarrow> ((Ends e False, a2), w', d')))"

section \<open>The services keep the contract of the process\<close>

definition web_quit_run :: "web_run \<Rightarrow> web_run" where
  "web_quit_run r = r\<lparr>run_srv := web_Quit False (run_srv r)\<rparr>"

definition web_result :: "web_run \<Rightarrow> go_error option option" where
  "web_result r =
     (case (run_primary r, run_metrics r) of
        (Returned e1, Returned e2) \<Rightarrow> Some (web_Run_result e1 e2)
      | _ \<Rightarrow> None)"

definition ingest_result :: "service \<Rightarrow> go_error option option" where
  "ingest_result s = (case sv_phase s of ServiceReturned e \<Rightarrow> Some e | _ \<Rightarrow> None)"

lemma web_can_return:
  assumes "graceful_done (run_srv r)"
  shows "\<exists>r' e. web_work\<^sup>*\<^sup>* r r' \<and> web_result r' = Some e"
proof -
  obtain r' e1 e2 where r': "web_work\<^sup>*\<^sup>* r r'" "run_primary r' = Returned e1" "run_metrics r' = Returned e2"
    using servers_can_stop [OF assms] by blast
  then have "web_result r' = Some (web_Run_result e1 e2)" by (simp add: web_result_def)
  with r'(1) show ?thesis by blast
qed

lemma web_work_graceful: "web_work r r' \<Longrightarrow> graceful_done (run_srv r) \<Longrightarrow> graceful_done (run_srv r')"
  by (erule web_work_cases)
     (auto simp: serve_defs split: option.splits serve_event.splits if_splits prod.splits)

lemma web_quit_facts:
  "stop_inv (web_quit_run r)" "graceful_done (run_srv (web_quit_run r))" "web_result (web_quit_run r) = web_result r"
  by (simp_all add: web_quit_run_def stop_inv_def web_result_def graceful_done_def web_Quit_def)

interpretation web_service: stoppable_service web_work web_quit_run web_result stop_inv "\<lambda>r. graceful_done (run_srv r)"
  by unfold_locales (blast intro: web_can_return web_work_graceful stop_inv_work web_quit_facts)+

lemma service_work_graceful: "service_work s s' \<Longrightarrow> graceful_ctx_done s \<Longrightarrow> graceful_ctx_done s'"
  by (erule service_work_cases)
     (auto simp: service_defs split: service_phase.splits service_result.splits metrics_event.splits)

lemma ingest_can_return:
  assumes "service_inv s" "graceful_ctx_done s"
  shows "\<exists>s' e. service_work\<^sup>*\<^sup>* s s' \<and> ingest_result s' = Some e"
proof -
  obtain s' e where "service_work\<^sup>*\<^sup>* s s'" "sv_phase s' = ServiceReturned e"
    using service_can_return [OF assms] by blast
  then show ?thesis by (auto simp: ingest_result_def)
qed

lemma service_quit_facts:
  "graceful_ctx_done (service_Quit False s)" "ingest_result (service_Quit False s) = ingest_result s"
  by (simp_all add: service_Quit_def graceful_ctx_done_def ingest_result_def)

interpretation ingest_service: stoppable_service service_work "service_Quit False" ingest_result service_inv graceful_ctx_done
  by unfold_locales (blast intro: ingest_can_return service_inv_work service_inv_Quit service_work_graceful service_quit_facts)+

section \<open>Which invocations close the channel\<close>

definition web_serves ::
    "go_error + string \<Rightarrow> go_error option \<Rightarrow> (web_config \<Rightarrow> go_error + web_config) \<Rightarrow> invocation \<Rightarrow> web_app \<Rightarrow> bool" where
  "web_serves getwd initViper unmarshal cmd a =
     (case cmd of
        Root_cmd [allowlist] \<Rightarrow>
          initViper = None \<and> \<not> isl (unmarshal (wa_config a)) \<and> \<not> isl (filepath_Abs getwd allowlist)
      | _ \<Rightarrow> False)"

definition ingest_serves :: "ingest_world \<Rightarrow> ingest_invocation \<Rightarrow> ingest_app \<Rightarrow> bool" where
  "ingest_serves E cmd a =
     (case cmd of
        Common (Root_cmd [allowlist]) \<Rightarrow>
          iw_initViper E = None \<and> \<not> isl (iw_unmarshal E (ia_config a)) \<and> \<not> isl (filepath_Abs (iw_getwd E) allowlist)
      | _ \<Rightarrow> False)"

lemmas invocation_splits = invocation.splits ingest_invocation.splits option.splits sum.splits prod.splits list.splits
  if_splits node.splits

lemma web_Execute_ready:
  assumes "web_Execute getwd initViper unmarshal cmd a w = ((st, a'), w')"
  shows "ready_closed st \<longleftrightarrow> web_serves getwd initViper unmarshal cmd a" "st = Starts r \<Longrightarrow> stop_inv r"
  using assms
  by (auto simp: web_Execute_def web_serves_def web_PersistentPreRunE_def web_RunE_def web_app_run_def ExactArgs_def
      NoArgs_def stop_inv_def Let_def length_Suc_conv split: invocation_splits)

lemma ingest_Execute_ready:
  assumes "ingest_Execute E cmd a w d = ((st, a'), w', d')"
  shows "ready_closed st \<longleftrightarrow> ingest_serves E cmd a" "st = Starts s \<Longrightarrow> s = ingest_New"
  using assms
  by (auto simp: ingest_Execute_def ingest_serves_def ingest_PersistentPreRunE_def ingest_RunE_def ingest_app_run_def
      migrate_Args_def ExactArgs_def NoArgs_def Let_def length_Suc_conv split: invocation_splits)

lemma ingest_New_inv: "service_inv ingest_New"
  by (rule service_reach_inv) (rule service_reach.init)

section \<open>Properties\<close>

text \<open>The database of a migration that ended well.\<close>

lemma migrate_success:
  assumes "ingest_Execute E (Migrate_cmd args) a w d = ((Ends None b, a'), w', d')"
  shows "\<exists>d1. BootstrapFromGolangMigrate d = (Inr (), d1) \<and> iw_Up E d1 = (Inr (), d')"
  using assms
  by (auto simp: ingest_Execute_def ingest_PersistentPreRunE_def migrate_RunE_def migrateRun_def Let_def bindE_def
      on_error_def split: invocation_splits)

text \<open>The password of the database does not reach the log: two configurations that differ only in it
  are logged as the same.\<close>

lemma logged_without_password:
  assumes "ingest_PersistentPreRunE None unmarshal a = (e, logged, a')" "unmarshal (ia_config a) = Inr c"
    and "ingest_PersistentPreRunE None unmarshal2 a = (e2, logged2, a2)"
    and "unmarshal2 (ia_config a) = Inr (c\<lparr>ic_DBconfig := (ic_DBconfig c)\<lparr>db_Password := pw\<rparr>\<rparr>)"
  shows "logged = logged2 \<and> ic_DBconfig (ia_config a2) = (ic_DBconfig (ia_config a'))\<lparr>db_Password := pw\<rparr>"
  using assms by (auto simp: ingest_PersistentPreRunE_def redacted_def Let_def)

text \<open>The web service as the one below.\<close>

theorem web_stops_on_signal:
  assumes "web_Execute getwd initViper unmarshal cmd a w = ((st, a'), w')"
    and "process_reach web_work web_quit_run web_result (wa_SilenceUsage a') st p" "interrupted p"
  shows "(\<exists>p' c. (process_step web_work web_quit_run web_result (wa_SilenceUsage a') st)\<^sup>*\<^sup>* p p' \<and> pr_main p' = Exited c)
    \<longleftrightarrow> web_serves getwd initViper unmarshal cmd a"
  using web_service.exits_iff_ready [OF assms(2,3)] web_Execute_ready [OF assms(1)] by (auto simp: can_exit_def)


text \<open>A process that is interrupted while it executes its command.\<close>

lemma reach_interrupted:
  "process_reach work quit result silenced st (deliver SIGTERM process_init)" "interrupted (deliver SIGTERM process_init)"
proof -
  show "process_reach work quit result silenced st (deliver SIGTERM process_init)"
    by (rule process_reach.goes_on [OF process_reach.starts signalled]) (simp add: process_init_def)
  show "interrupted (deliver SIGTERM process_init)"
    by (simp add: interrupted_def deliver_def process_init_def)
qed

definition daemon_world :: ingest_world where
  "daemon_world =
     \<lparr>iw_getwd = Inr ''/srv'', iw_initViper = None, iw_unmarshal = Inr, iw_newPool = (\<lambda>_. None), iw_ping = None,
      iw_registers = [], iw_register = None, iw_sql_Open = (\<lambda>_. None), iw_NewProvider = (\<lambda>_. None), iw_Up = ret ()\<rparr>"

definition daemon_db :: migration_db where
  "daemon_db = \<lparr>db_schema = \<lparr>tables = [], sm_row = None, goose_rows = []\<rparr>, db_tx = None, sql_results = []\<rparr>"

definition daemon_disk :: os where
  "daemon_disk = \<lparr>fs = [], faults = [], seed = 0\<rparr>"


text \<open>So \<open>ingest-service migrate\<close> cannot be stopped in order: a signal that arrives while the
  migrations run is taken by the handler, which then waits for ever, and the process with it when
  the migrations have ended.\<close>

lemma migrate_never_exits:
  assumes "ingest_Execute E (Migrate_cmd args) a w d = ((st, a'), w', d')"
    and "process_reach service_work (service_Quit False) ingest_result (ia_SilenceUsage a') st p" "interrupted p"
  shows "\<not> can_exit service_work (service_Quit False) ingest_result (ia_SilenceUsage a') st p"
  using ingest_service.exits_iff_ready [OF assms(2,3)] ingest_Execute_ready [OF assms(1)] ingest_New_inv
  by (auto simp: ingest_serves_def)

end
