(* ===== verification/Spec2Isabelle.thy ===== *)
theory Spec2Isabelle
  imports Delivery Commands C_Api Sysinfo_Ports Sanitizer Processor_Facts Daemons
begin

text \<open>
  \<^bold>\<open>Ubuntu Insights, verified in HOL.\<close> Ubuntu Insights collects anonymous facts about a machine and
  sends them to a server, if and only as far as the user agrees. This development models its Go
  code, function by function, and proves what makes it correct.

  \<^bold>\<open>The program.\<close> On the client, the \<^emph>\<open>collector\<close> gathers system information, adds the metrics of a
  source (an application, or the platform itself) and writes a report named by its time into the
  \<open>local\<close> folder of the source; the \<^emph>\<open>uploader\<close> posts mature reports and moves each to the \<open>uploaded\<close>
  folder. Both ask the \<^emph>\<open>consent\<close> manager first, which reads one file per source and the system-wide
  opt-out: without consent only an opt-out notice is written or sent. The public Go package, the
  C library and the command line tool are three ways in. On the server, the \<^emph>\<open>web service\<close> checks a
  request against an allow list that is reloaded when its file changes and stores the body as a
  file; the \<^emph>\<open>ingest service\<close> runs a worker for each allowed application, which turns the files into
  rows of a database and removes them.

  \<^bold>\<open>The theories\<close>, from the bottom up.

  \<^item> \<open>Prelude\<close>: Go's error values with \<open>errors.Is\<close>, \<open>errors.As\<close> and \<open>errors.Join\<close>; calls that may fail as
    state transformers (\<open>io\<close>), their combinators, and the locale \<open>effect_frame\<close>: a relation between
    states that every step keeps is kept by a composed call.
  \<^item> The standard library as far as it is used: \<open>Go_Strings\<close> (\<open>strings\<close>, \<open>strconv\<close>, integer ranges),
    \<open>Go_Path\<close> (\<open>path/filepath\<close>), \<open>Go_Url\<close>, \<open>Go_Os\<close> (a file system and its calls, with a list of faults
    that decides which calls fail), \<open>Go_Os_Facts\<close>, \<open>Walk_Facts\<close>, \<open>Os_Frames\<close>, \<open>Go_Json\<close> and \<open>Json_Facts\<close> (a
    reader and printers with their round trip, for every layout of white space through the locale
    \<open>json_layout\<close>), \<open>Go_Regexp\<close> and \<open>Regexp_Facts\<close> (backtracking search), \<open>Go_Float\<close> (\<open>float64\<close>).
  \<^item> Client: \<open>Fileutils\<close> (\<open>common/fileutils\<close>), \<open>Constants\<close>, \<open>Systemconfig\<close>, \<open>Consent\<close>, \<open>Report\<close>, \<open>Uploader\<close>
    and \<open>Collector\<close>, each the package of its name under \<open>insights/internal\<close>; \<open>Cmdutils\<close> (running commands, and
    decoding JSON into structs), \<open>Platform_Linux\<close>, \<open>Software_Linux\<close>, \<open>Hardware_Linux\<close> with \<open>Hardware_Facts\<close> and
    \<open>Hardware_Readings\<close>, put together by \<open>Sysinfo\<close> (\<open>collector/sysinfo\<close>; the locale \<open>collectors\<close> is the interface
    between them); the same for macOS and Windows: \<open>Plist\<close> (the parser of property lists), \<open>Hardware_Darwin\<close>,
    \<open>Hardware_Windows\<close>, and \<open>Sysinfo_Ports\<close> (software, platform, and \<open>Collect\<close> around the parts of each system).
    The locale \<open>collectors\<close> is interpreted for the three systems.
  \<^item> Ways in: \<open>Report_Decode\<close> (a report read back into its Go types) and \<open>Api\<close> (\<open>insights/api.go\<close>), \<open>Log_Handler\<close>
    and \<open>C_Api\<close> (\<open>insights/C\<close>), \<open>Commands\<close> (\<open>insights/cmd/insights\<close>, \<open>common/cli\<close>).
  \<^item> Server: \<open>Server_Config\<close> (\<open>server/internal/common/config\<close>), \<open>Handlers\<close> and \<open>Webservice\<close>
    (\<open>server/internal/webservice\<close>), \<open>Database\<close>, \<open>Processor\<close>, \<open>Processor_Facts\<close>, \<open>Sanitizer\<close>, \<open>Workers\<close>, \<open>Ingest\<close> and
    \<open>Migration\<close> (\<open>server/internal/ingest\<close>); \<open>Daemon_Process\<close> (the process around a service with its signal
    handler, and the contract \<open>stoppable_service\<close> it needs) and \<open>Daemons\<close> (\<open>server/cmd\<close> and
    \<open>server/internal/common/metrics\<close>: hooks, configuration, start of the two services, migration; the contract
    is interpreted for both services).
  \<^item> Across components: \<open>Delivery\<close> (client and server agree on addresses) and this theory.

  \<^bold>\<open>How code is modelled.\<close> A struct is a record with the fields of the source, an operation a
  definition of the same name; where names clash a prefix tells the package (\<open>consent_New\<close>,
  \<open>collector_New\<close>). State is passed explicitly: \<open>os\<close> holds the files, the faults still to come and
  the seed of temporary names; \<open>client\<close> adds the clock, the random numbers, the answers of the
  server, the requests sent and the pauses made; \<open>machine\<close> adds the answers of commands and links; the
  ingest services add the database. Errors are values: every \<open>return err\<close> is a branch. Goroutines are
  either run one after the other in an order that is an argument (uploads), or are interleaved by a
  step relation with the reachable states it generates (\<open>Webservice\<close>, \<open>Workers\<close>, \<open>Ingest\<close>,
  \<open>Daemon_Process\<close>, the watcher of \<open>Server_Config\<close>). An \<open>int64\<close> is an \<open>int\<close> with explicit wrap-around, an \<open>uint32\<close> a word.

  \<^bold>\<open>Parameters.\<close> Code outside the repository is an argument: the TOML codec (assumed to decode what it
  encoded, \<open>toml_codec\<close>), the formatting of floating-point numbers in metrics (\<open>renum_ok\<close>), D-Bus, ini, YAML
  and mapstructure decoders, quoting of SQL identifiers, the outcomes of SQL statements, the reading
  of configuration by the command-line libraries and what they make of the arguments (\<open>invocation\<close>), the
  outcome of every command that is run. Cutting XML into tokens is an argument too (\<open>dw_xml\<close>), although it is the
  standard library that does it.

  \<^bold>\<open>What is proved\<close>, by group. Consent: nothing but the opt-out notice reaches the disk or the network
  without consent, whatever system calls fail, and the opt-out of the system overrides every source;
  setting a state refines an update of an abstract store. Files: a write is atomic; reports are found
  again, cleaned up oldest first, moved and restored without loss; an accepted report is not sent
  twice; a dry run sends and changes nothing; the retry loop ends. Collecting: on Linux it succeeds
  whatever the machine answers, with values in range and an encoding that decodes to them; on macOS and
  Windows what is collected can be encoded and decoded too, the disks reported are those of the listing, and
  the property-list parser reads back every printed list. Ways in:
  collecting is compiling and then writing, also through the C library; the consent command does what it prints.
  Server: requests change files only below the reports directory, accepted reports are stored,
  a file is removed only when its content is a row, a healthy run drains the directory, at most
  one worker per application is active and the pool follows the allow list, services stop when
  one of their parts has, a process that receives a signal stops its service and exits, and the hand-over of the schema is all or nothing.

  \<^bold>\<open>Bounds and fuel.\<close> The JSON reader has fuel of twice the length of its input plus two, the walk over a
  directory the depth of the tree, the search of a regular expression the length of the text, the parser of
  property lists the number of tokens left plus one; in each
  case a lemma shows that more fuel changes nothing (\<open>read_fuel\<close>) or that the bound is never
  reached. The nesting limit of JSON (10000) and the depth of block devices (10) are those of the code.
  Loops that may not end are options (\<open>backoff_loop\<close>), and their end is proved.

  \<^bold>\<open>Abstractions.\<close> Letters are folded as in ASCII; the file system has no symbolic links except those
  of the devices a machine reports, and no permissions beyond the faults; bytes that are not UTF-8
  are kept where Go replaces them; logging and metrics change no result (the counters of the servers
  are a list of events).

  \<^bold>\<open>Not modelled.\<close> The generators of documentation and of C headers are build tools around third-party
  libraries, and test support is not part of the program. Of the metrics server, shutting down and closing are
  calls of \<open>net/http\<close>; of the metrics of the web service, durations, sizes and the Prometheus registry are left
  out; of \<open>common/cli\<close>, reading configuration files is the work of a third-party library, as are the
  registration and parsing of flags everywhere.
\<close>

section \<open>Collecting and uploading\<close>

lemma OptOutJSON_wf: "json_wf OptOutJSON" "json_depth OptOutJSON \<le> max_nesting"
  by (simp_all add: OptOutJSON_def max_nesting_def)



end
